(* ===== verification/Dsp_Prelude.thy ===== *)
theory Dsp_Prelude
  imports Main "HOL-Library.Word"
begin

text \<open>
  Shared vocabulary of the development: the C integer types of the emulator as machine words,
  the macros of the sources, two-dimensional arrays, and the word lemmas the component
  theories share. The collection \<open>wbits\<close> holds the facts that turn C masks and shifts
  into natural-number arithmetic.
\<close>

unbundle bit_operations_syntax

named_theorems wbits

type_synonym u8 = "8 word"
type_synonym u16 = "16 word"
type_synonym u32 = "32 word"

text \<open>
  The macro \<open>BITMASK(x)\<close> of \<open>src/src/dsp_cpu.c\<close>: \<open>((1<<(x))-1)\<close>.
\<close>

definition BITMASK :: "nat \<Rightarrow> u32" where
  "BITMASK x = push_bit x 1 - 1"

text \<open>C's view of a truth value as an integer.\<close>

definition of_flag :: "bool \<Rightarrow> 'a::len word" where
  "of_flag b = (if b then 1 else 0)"

text \<open>The C idiom \<open>x & (1<<n)\<close> as a condition.\<close>

definition has_bit :: "'a::len word \<Rightarrow> nat \<Rightarrow> bool" where
  "has_bit w n \<longleftrightarrow> w AND push_bit n 1 \<noteq> 0"

text \<open>Assignment to an element of a two-dimensional array.\<close>

definition upd2 :: "(nat \<Rightarrow> nat \<Rightarrow> 'a) \<Rightarrow> nat \<Rightarrow> nat \<Rightarrow> 'a \<Rightarrow> (nat \<Rightarrow> nat \<Rightarrow> 'a)" where
  "upd2 f i j v = f(i := (f i)(j := v))"

lemma upd2_apply: "upd2 f i j v k l = (if k = i \<and> l = j then v else f k l)"
  by (simp add: upd2_def)

lemma upd2_same [simp]: "upd2 f i j v i j = v"
  by (simp add: upd2_def)

lemma upd2_other [simp]: "k \<noteq> i \<or> l \<noteq> j \<Longrightarrow> upd2 f i j v k l = f k l"
  by (auto simp: upd2_def)

lemma upd2_upd2 [simp]: "upd2 (upd2 f i j v) i j w = upd2 f i j w"
  by (simp add: upd2_def)

lemma BITMASK_mask: "BITMASK n = mask n"
  by (simp add: BITMASK_def mask_eq_exp_minus_1 push_bit_eq_mult)

lemma and_BITMASK [wbits]: "w AND BITMASK n = take_bit n w"
  by (simp add: BITMASK_mask take_bit_eq_mask)

lemma of_flag_simps [simp]: "of_flag True = 1" "of_flag False = 0"
  by (simp_all add: of_flag_def)

lemma of_flag_eq_0 [simp]: "of_flag b = (0::'a::len word) \<longleftrightarrow> \<not> b"
  by (simp add: of_flag_def)

lemma unat_of_flag [simp]: "unat (of_flag b :: 'a::len word) = of_bool b"
  by (simp add: of_flag_def)

lemma and_one_flag [wbits]: "drop_bit n (w::'a::len word) AND 1 = of_flag (bit w n)"
  by (simp add: of_flag_def and_one_eq bit_iff_odd_drop_bit odd_iff_mod_2_eq_one)

lemma unat_take_bit_mod [wbits]: "unat (take_bit n (w::'a::len word)) = unat w mod 2 ^ n"
  by (simp add: unsigned_take_bit_eq flip: take_bit_eq_mod)

lemma unat_drop_bit_div [wbits]: "unat (drop_bit n (w::'a::len word)) = unat w div 2 ^ n"
  by (simp add: unat_drop_bit_eq flip: drop_bit_eq_div)

lemma bit_unat: "bit (w::'a::len word) n \<longleftrightarrow> bit (unat w) n"
  by (simp add: bit_unsigned_iff)

lemma bit_unat_odd: "bit (w::'a::len word) n \<longleftrightarrow> odd (unat w div 2 ^ n)"
  by (simp add: bit_unat bit_iff_odd)

lemma bit_unat_top: "unat (w::'a::len word) < 2 ^ Suc n \<Longrightarrow> bit w n \<longleftrightarrow> 2 ^ n \<le> unat w"
proof -
  assume "unat w < 2 ^ Suc n"
  then have "unat w div 2 ^ n < 2"
    by (simp add: less_mult_imp_div_less)
  moreover have "unat w div 2 ^ n = 0 \<longleftrightarrow> unat w < 2 ^ n"
    by (simp add: div_eq_0_iff)
  ultimately show ?thesis
    unfolding bit_unat_odd by (cases "unat w div 2 ^ n = 0") (auto simp: less_2_cases_iff)
qed

lemma and_push_one [wbits]: "w AND push_bit n 1 = 0 \<longleftrightarrow> \<not> bit (w::'a::len word) n"
  by (simp add: bit_iff_and_push_bit_not_eq_0)

lemma has_bit_bit [wbits, simp]: "has_bit w n \<longleftrightarrow> bit w n"
  by (simp add: has_bit_def bit_iff_and_push_bit_not_eq_0)

lemma unat_plus_small: "unat x + unat y < 2 ^ LENGTH('a::len) \<Longrightarrow> unat (x + y :: 'a word) = unat x + unat y"
  by (simp add: unat_word_ariths)

lemma flag_xor [wbits]: "of_flag a XOR of_flag b = (of_flag (a \<noteq> b) :: 'a::len word)"
  by (simp add: of_flag_def)

lemma flag_and [wbits]: "of_flag a AND of_flag b = (of_flag (a \<and> b) :: 'a::len word)"
  by (simp add: of_flag_def)
lemma flag_or [wbits]: "of_flag a OR of_flag b = (of_flag (a \<or> b) :: 'a::len word)"
  by (simp add: of_flag_def)

lemma ucast_flag [wbits]: "ucast (of_flag a :: 'a::len word) = (of_flag a :: 'b::len word)"
  by (simp add: of_flag_def)

lemma flag_eq [simp]: "of_flag a = (of_flag b :: 'a::len word) \<longleftrightarrow> a = b"
  by (simp add: of_flag_def)

lemma bit_of_flag [simp]: "bit (of_flag a :: 'a::len word) n \<longleftrightarrow> a \<and> n = 0"
  by (simp add: of_flag_def bit_1_iff)

lemma unat_not_mask: "unat x < 2 ^ n \<Longrightarrow> n < 32 \<Longrightarrow> unat (take_bit n (NOT x :: u32)) = 2 ^ n - 1 - unat x"
proof -
  assume a: "unat x < 2 ^ n" "n < 32"
  obtain k where k: "(2::nat) ^ 32 = 2 ^ n * Suc k"
    using a(2) by (intro that [of "2 ^ (32 - n) - 1"]) (simp add: flip: power_add)
  have "unat (NOT x) = unat (- 1 :: u32) - unat x"
    using unat_sub [OF word_n1_ge [of x]] not_eq_complement [of x]
    by (metis diff_conv_add_uminus add.commute)
  also have "\<dots> = (2 ^ n - 1 - unat x) + 2 ^ n * k"
    using a(1) k by (simp add: unsigned_minus_1_eq_mask mask_eq_exp_minus_1)
  finally show ?thesis by (simp add: unat_take_bit_mod)
qed

lemma take_bit_lt: "n < 32 \<Longrightarrow> unat (take_bit n (w::u32)) < 2 ^ n"
  by (simp add: unat_take_bit_mod)


lemma or_flag_add: "\<not> bit w 0 \<Longrightarrow> w OR of_flag b = w + (of_flag b :: 'a::len word)"
  by (rule disjunctive_add [symmetric]) (metis bit_of_flag)

lemma unat_exp_32: "n < 32 \<Longrightarrow> unat (2 ^ n :: u32) = 2 ^ n"
proof -
  assume "n < 32"
  then have "(2::nat) ^ n < 2 ^ 32" by (intro power_strict_increasing) auto
  then have "unat (of_nat (2 ^ n) :: u32) = 2 ^ n"
    by (simp only: unsigned_of_nat take_bit_eq_mod) simp
  then show ?thesis by simp
qed

lemma and_push_bit_one: "w AND push_bit n 1 = push_bit n (of_flag (bit (w::'a::len word) n))"
  by (rule bit_word_eqI) (auto simp: bit_simps of_flag_def bit_1_iff)

text \<open>Masks that clear low bits, and the fields of a 56-bit number.\<close>

lemma and_not_mask_minus: "w AND NOT (mask m) = w - take_bit m (w::'a::len word)"
proof -
  have "w = (w AND NOT (mask m)) OR take_bit m w"
    by (rule bit_word_eqI) (auto simp: bit_simps)
  also have "\<dots> = (w AND NOT (mask m)) + take_bit m w"
    by (rule disjunctive_add [symmetric]) (auto simp: bit_simps)
  finally show ?thesis by (simp add: algebra_simps)
qed

lemma and_clear_low:
  fixes w :: u32
  assumes "unat w < 2 ^ n" "n < 32"
  shows "unat (w AND (mask n AND NOT (mask m))) = unat w - unat w mod 2 ^ m"
proof -
  have "w AND mask n = w"
    using assms by (simp add: word_unat_eq_iff unat_take_bit_mod flip: take_bit_eq_mask)
  then have e: "w AND (mask n AND NOT (mask m)) = w - take_bit m w"
    unfolding and.assoc [symmetric] by (simp only: and_not_mask_minus)
  have "take_bit m w \<le> w" by (simp add: word_le_nat_alt unat_take_bit_mod)
  then show ?thesis unfolding e by (simp add: unat_sub unat_take_bit_mod)
qed

lemma clear_masks:
  "(0xfffffe::u32) = mask 24 AND NOT (mask 1)" "(0xfffffc::u32) = mask 24 AND NOT (mask 2)"
  "(0x800000::u32) = mask 24 AND NOT (mask 23)" "(0x7fffff::u32) = mask 23"
  by code_simp+

lemma clear_low_24:
  fixes w :: u32
  assumes "unat w < 2 ^ 24"
  shows "unat (w AND 0xfffffe) = unat w - unat w mod 2"
    and "unat (w AND 0xfffffc) = unat w - unat w mod 4"
    and "unat (w AND 0x800000) = unat w - unat w mod 2 ^ 23"
    and "unat (w AND 0x7fffff) = unat w mod 2 ^ 23"
  using and_clear_low [OF assms, of 1] and_clear_low [OF assms, of 2] and_clear_low [OF assms, of 23]
  unfolding clear_masks take_bit_eq_mask [symmetric] unat_take_bit_mod
  by (simp_all only: power_one_right) simp_all

lemma bit_mask16_minus: "n < 16 \<Longrightarrow> bit (BITMASK 16 - push_bit n 1 :: u32) k \<longleftrightarrow> k < 16 \<and> k \<noteq> n"
proof -
  assume n: "n < 16"
  have "BITMASK 16 - push_bit n 1 = mask 16 AND NOT (push_bit n (1::u32))"
  proof -
    have "mask 16 = (mask 16 AND NOT (push_bit n 1)) OR push_bit n (1::u32)"
      using n by (intro bit_word_eqI) (auto simp: bit_simps bit_1_iff)
    also have "\<dots> = (mask 16 AND NOT (push_bit n 1)) + push_bit n (1::u32)"
      by (rule disjunctive_add [symmetric]) (auto simp: bit_simps bit_1_iff)
    finally show ?thesis by (simp add: BITMASK_mask algebra_simps)
  qed
  then show ?thesis using n by (auto simp: bit_simps bit_1_iff)
qed

lemma bit_push_flag: "bit (push_bit n (of_flag b :: u32)) k \<longleftrightarrow> b \<and> k = n \<and> n < 32"
  by (auto simp: bit_simps)

lemma and_mask3: "w AND 3 = take_bit 2 (w::u32)"
  by (simp add: take_bit_eq_mask mask_eq_exp_minus_1)

lemma or_shift: "n < 32 \<Longrightarrow> unat y < 2 ^ n \<Longrightarrow> unat x * 2 ^ n + unat y < 2 ^ 32 \<Longrightarrow>
   unat (push_bit n x OR y :: u32) = unat x * 2 ^ n + unat y"
proof -
  assume n: "n < 32" and a: "unat y < 2 ^ n" "unat x * 2 ^ n + unat y < 2 ^ 32"
  have "push_bit n x OR y = push_bit n x + y"
  proof (rule disjunctive_add [symmetric])
    fix k show "\<not> bit (push_bit n x) k \<or> \<not> bit y k"
    proof (cases "k < n")
      case True then show ?thesis by (simp add: bit_simps)
    next
      case False
      then have "unat y < 2 ^ k" using a(1) by (meson less_le_trans linorder_not_less one_le_numeral power_increasing)
      then show ?thesis by (simp add: bit_unat_odd)
    qed
  qed
  then show ?thesis using a(2) by (simp add: unat_word_ariths push_bit_eq_mult unat_exp_32 [OF n])
qed

lemma if_push_flag: "(if c then 0 else push_bit n 1) = push_bit n (of_flag (\<not> c) :: u32)"
  by (cases c) (simp_all only: of_flag_simps push_bit_of_0 if_True if_False simp_thms)

lemma mod_limbs:
  "(x * 2 ^ 48 + y * 2 ^ 24 + z) mod 2 ^ 24 = z mod (2 ^ 24::nat)"
  "(x * 2 ^ 48 + y * 2 ^ 24 + z) mod 2 ^ 23 = z mod (2 ^ 23::nat)"
proof -
  have "x * 2 ^ 48 + y * 2 ^ 24 + z = z + (x * 2 ^ 24 + y) * 2 ^ 24"
    "x * 2 ^ 48 + y * 2 ^ 24 + z = z + (x * 2 ^ 25 + y * 2) * 2 ^ 23" by simp_all
  then show "(x * 2 ^ 48 + y * 2 ^ 24 + z) mod 2 ^ 24 = z mod (2 ^ 24::nat)"
    "(x * 2 ^ 48 + y * 2 ^ 24 + z) mod 2 ^ 23 = z mod (2 ^ 23::nat)"
    by (metis mod_mult_self1)+
qed

lemma limb_split:
  fixes x y z :: nat
  assumes "y = a * n + b" "c * (n * 2 ^ 24) = 2 ^ 48"
  shows "x * 2 ^ 48 + y * 2 ^ 24 + z = (b * 2 ^ 24 + z) + (x * c + a) * (n * 2 ^ 24)"
  unfolding assms(1) assms(2) [symmetric] by (simp only: algebra_simps)

lemma mod_limbs2:
  assumes "z < (2 ^ 24::nat)"
  shows "(x * 2 ^ 48 + y * 2 ^ 24 + z) mod 2 ^ 25 = (y mod 2) * 2 ^ 24 + z"
    and "(x * 2 ^ 48 + y * 2 ^ 24 + z) mod 2 ^ 26 = (y mod 4) * 2 ^ 24 + z"
proof -
  have "y mod 2 \<le> 1" "y mod 4 \<le> 3" by simp_all
  note b = this
  have c: "2 ^ 23 * (2 * 2 ^ 24) = (2 ^ 48::nat)" "2 ^ 22 * (4 * 2 ^ 24) = (2 ^ 48::nat)" by simp_all
  have "(x * 2 ^ 48 + y * 2 ^ 24 + z) mod (2 * 2 ^ 24) = (y mod 2 * 2 ^ 24 + z) mod (2 * 2 ^ 24)"
    unfolding limb_split [of y "y div 2" 2 "y mod 2" "2 ^ 23", OF div_mult_mod_eq [symmetric] c(1)]
    by (rule mod_mult_self1)
  then show "(x * 2 ^ 48 + y * 2 ^ 24 + z) mod 2 ^ 25 = (y mod 2) * 2 ^ 24 + z"
    using assms b(1) by simp
  have "(x * 2 ^ 48 + y * 2 ^ 24 + z) mod (4 * 2 ^ 24) = (y mod 4 * 2 ^ 24 + z) mod (4 * 2 ^ 24)"
    unfolding limb_split [of y "y div 4" 4 "y mod 4" "2 ^ 22", OF div_mult_mod_eq [symmetric] c(2)]
    by (rule mod_mult_self1)
  then show "(x * 2 ^ 48 + y * 2 ^ 24 + z) mod 2 ^ 26 = (y mod 4) * 2 ^ 24 + z"
    using assms b(2) by simp
qed

end
