(* ===== verification/Dsp_Arith56.thy ===== *)
theory Dsp_Arith56
  imports Dsp_Prelude
begin

text \<open>
  The 56-bit accumulator arithmetic of \<open>src/src/dsp_cpu.c\<close> (section ``56bit
  arithmetic''): shifts, addition, subtraction, absolute value and the 24 x 24 bit
  multiplication, each over an accumulator held as three 32-bit words. The reference
  semantics is integer arithmetic on the unsigned (\<open>val56\<close>) or two's complement
  (\<open>sval56\<close>) value of the accumulator.
\<close>

text \<open>Bit numbers in the status register (\<open>src/src/include/dsp_cpu.h\<close>).\<close>

abbreviation (input) DSP_SR_C :: nat where "DSP_SR_C \<equiv> 0"
abbreviation (input) DSP_SR_V :: nat where "DSP_SR_V \<equiv> 1"
abbreviation (input) DSP_SR_Z :: nat where "DSP_SR_Z \<equiv> 2"
abbreviation (input) DSP_SR_N :: nat where "DSP_SR_N \<equiv> 3"
abbreviation (input) DSP_SR_U :: nat where "DSP_SR_U \<equiv> 4"
abbreviation (input) DSP_SR_E :: nat where "DSP_SR_E \<equiv> 5"
abbreviation (input) DSP_SR_L :: nat where "DSP_SR_L \<equiv> 6"
abbreviation (input) DSP_SR_I0 :: nat where "DSP_SR_I0 \<equiv> 8"
abbreviation (input) DSP_SR_I1 :: nat where "DSP_SR_I1 \<equiv> 9"
abbreviation (input) DSP_SR_S0 :: nat where "DSP_SR_S0 \<equiv> 10"
abbreviation (input) DSP_SR_S1 :: nat where "DSP_SR_S1 \<equiv> 11"
abbreviation (input) DSP_SR_T :: nat where "DSP_SR_T \<equiv> 13"
abbreviation (input) DSP_SR_LF :: nat where "DSP_SR_LF \<equiv> 15"

text \<open>
  An accumulator as the C array \<open>Uint32 dest[3]\<close>: element 0 has bits 55..48,
  element 1 bits 47..24 and element 2 bits 23..0.
\<close>

type_synonym acc = "u32 \<times> u32 \<times> u32"

definition dsp_asl56 :: "acc \<Rightarrow> u16 \<times> acc" where
  "dsp_asl56 = (\<lambda>(d0, d1, d2).
     (let carry = ucast (drop_bit 7 d0 AND 1) :: u16;
          d0 = push_bit 1 d0;
          d0 = d0 OR (drop_bit 23 d1 AND 1);
          d0 = d0 AND BITMASK 8;
          d1 = push_bit 1 d1;
          d1 = d1 OR (drop_bit 23 d2 AND 1);
          d1 = d1 AND BITMASK 24;
          d2 = push_bit 1 d2;
          d2 = d2 AND BITMASK 24;
          overflow = of_flag (ucast carry \<noteq> (drop_bit 7 d0 AND 1)) :: u16
      in (push_bit DSP_SR_L overflow OR push_bit DSP_SR_V overflow OR push_bit DSP_SR_C carry,
          (d0, d1, d2))))"

definition dsp_asr56 :: "acc \<Rightarrow> u16 \<times> acc" where
  "dsp_asr56 = (\<lambda>(d0, d1, d2).
     (let carry = ucast (d2 AND 1) :: u16;
          d2 = drop_bit 1 d2;
          d2 = d2 AND BITMASK 23;
          d2 = d2 OR push_bit 23 (d1 AND 1);
          d1 = drop_bit 1 d1;
          d1 = d1 AND BITMASK 23;
          d1 = d1 OR push_bit 23 (d0 AND 1);
          d0 = drop_bit 1 d0;
          d0 = d0 AND BITMASK 7;
          d0 = d0 OR push_bit 1 (d0 AND push_bit 6 1)
      in (push_bit DSP_SR_C carry, (d0, d1, d2))))"

definition dsp_add56 :: "acc \<Rightarrow> acc \<Rightarrow> u16 \<times> acc" where
  "dsp_add56 = (\<lambda>(s0, s1, s2) (d0, d1, d2).
     (let flg_s = ucast (drop_bit 7 s0 AND 1) :: u16;
          flg_d = ucast (drop_bit 7 d0 AND 1) :: u16;
          n2 = NOT d2 AND BITMASK 24;
          n1 = NOT d1 AND BITMASK 24;
          n0 = NOT d0 AND BITMASK 8;
          d2 = d2 + s2;
          d1 = d1 + (s1 + (drop_bit 24 d2 AND 1));
          d0 = d0 + (s0 + (drop_bit 24 d1 AND 1));
          d2 = d2 AND BITMASK 24;
          d1 = d1 AND BITMASK 24;
          d0 = d0 AND BITMASK 8;
          flg_r = ucast (drop_bit 7 d0 AND 1) :: u16;
          overflow = (flg_s XOR flg_r) AND (flg_d XOR flg_r);
          carry = (if n0 < s0 then 1
                   else if n0 = s0 then
                     (if n1 < s1 then 1
                      else if n1 = s1 then (if n2 < s2 then 1 else 0)
                      else 0)
                   else 0) :: u16
      in (push_bit DSP_SR_L overflow OR push_bit DSP_SR_V overflow OR push_bit DSP_SR_C carry,
          (d0, d1, d2))))"

definition dsp_sub56 :: "acc \<Rightarrow> acc \<Rightarrow> u16 \<times> acc" where
  "dsp_sub56 = (\<lambda>(s0, s1, s2) (d0, d1, d2).
     (let sv0 = d0; sv1 = d1; sv2 = d2;
          d2 = d2 - s2;
          d1 = d1 - (s1 + (drop_bit 24 d2 AND 1));
          d0 = d0 - (s0 + (drop_bit 24 d1 AND 1));
          d2 = d2 AND BITMASK 24;
          d1 = d1 AND BITMASK 24;
          d0 = d0 AND BITMASK 8;
          flg_s = ucast (drop_bit 7 s0 AND 1) :: u16;
          flg_d = ucast (drop_bit 7 sv0 AND 1) :: u16;
          flg_r = ucast (drop_bit 7 d0 AND 1) :: u16;
          overflow = (flg_s XOR flg_d) AND (flg_r XOR flg_d);
          carry = (if sv0 < s0 then 1
                   else if sv0 = s0 then
                     (if sv1 < s1 then 1
                      else if sv1 = s1 then (if sv2 < s2 then 1 else 0)
                      else 0)
                   else 0) :: u16
      in (push_bit DSP_SR_L overflow OR push_bit DSP_SR_V overflow OR push_bit DSP_SR_C carry,
          (d0, d1, d2))))"

definition dsp_abs56 :: "acc \<Rightarrow> u16 \<times> acc" where
  "dsp_abs56 = (\<lambda>(d0, d1, d2).
     (if has_bit d0 7 then dsp_sub56 (d0, d1, d2) (0, 0, 0)
      else (0, (d0, d1, d2))))"

definition dsp_mul56 :: "u32 \<Rightarrow> u32 \<Rightarrow> acc" where
  "dsp_mul56 source1 source2 =
     (let negresult = (0::u32);
          (negresult, source1) =
            (if has_bit source1 23
             then (negresult XOR 1, push_bit 24 1 - (source1 AND BITMASK 24))
             else (negresult, source1));
          (negresult, source2) =
            (if has_bit source2 23
             then (negresult XOR 1, push_bit 24 1 - (source2 AND BITMASK 24))
             else (negresult, source2));
          part0 = (source1 AND BITMASK 12) * (source2 AND BITMASK 12);
          part1 = (drop_bit 12 source1 AND BITMASK 12) * (source2 AND BITMASK 12);
          part2 = (source1 AND BITMASK 12) * (drop_bit 12 source2 AND BITMASK 12);
          part3 = (drop_bit 12 source1 AND BITMASK 12) * (drop_bit 12 source2 AND BITMASK 12);
          d2 = part0;
          d2 = d2 + push_bit 12 (part1 AND BITMASK 12);
          d2 = d2 + push_bit 12 (part2 AND BITMASK 12);
          d1 = drop_bit 12 part1 AND BITMASK 12;
          d1 = d1 + (drop_bit 12 part2 AND BITMASK 12);
          d1 = d1 + part3;
          d0 = (0::u32);
          value = drop_bit 24 d2 AND BITMASK 8;
          (d1, d2) = (if value \<noteq> 0 then (d1 + value, d2 AND BITMASK 24) else (d1, d2));
          value = drop_bit 24 d1 AND BITMASK 8;
          (d0, d1) = (if value \<noteq> 0 then (d0 + value, d1 AND BITMASK 24) else (d0, d1));
          dest = snd (dsp_asl56 (d0, d1, d2))
      in if negresult \<noteq> 0 then snd (dsp_sub56 dest (0, 0, 0)) else dest)"

text \<open>Reference semantics: well-formed accumulators and their values.\<close>

fun wf56 :: "acc \<Rightarrow> bool" where
  "wf56 (d0, d1, d2) \<longleftrightarrow> unat d0 < 2 ^ 8 \<and> unat d1 < 2 ^ 24 \<and> unat d2 < 2 ^ 24"

fun val56 :: "acc \<Rightarrow> nat" where
  "val56 (d0, d1, d2) = unat d0 * 2 ^ 48 + unat d1 * 2 ^ 24 + unat d2"

definition sgn_of :: "nat \<Rightarrow> nat \<Rightarrow> int" where
  "sgn_of n v = (if v < 2 ^ (n - 1) then int v else int v - 2 ^ n)"

definition sval56 :: "acc \<Rightarrow> int" where
  "sval56 a = sgn_of 56 (val56 a)"

definition sval24 :: "u32 \<Rightarrow> int" where
  "sval24 w = sgn_of 24 (unat w)"

definition vlc :: "bool \<Rightarrow> bool \<Rightarrow> u16" where
  "vlc v c = push_bit DSP_SR_L (of_flag v) OR push_bit DSP_SR_V (of_flag v)
     OR push_bit DSP_SR_C (of_flag c)"

definition out_of_range56 :: "int \<Rightarrow> bool" where
  "out_of_range56 v \<longleftrightarrow> v < - (2 ^ 55) \<or> 2 ^ 55 \<le> v"

lemma limb_add:
  fixes x y :: u32 and c :: bool
  assumes "unat x < 2 ^ n" "unat y < 2 ^ n" "n < 31"
  shows "unat (take_bit n (x + (y + of_flag c))) + of_bool (bit (x + (y + of_flag c)) n) * 2 ^ n
         = unat x + unat y + of_bool c"
proof -
  define t where "t = unat x + unat y + of_bool c"
  have b: "(2::nat) ^ Suc n \<le> 2 ^ 31" using assms(3) by (intro power_increasing) auto
  have t: "t < 2 ^ Suc n" using assms(1,2) by (simp add: t_def)
  have u: "unat (x + (y + of_flag c)) = t"
    using assms(1,2) b t by (simp add: unat_word_ariths t_def)
  show ?thesis
    using t bit_unat_top [of "x + (y + of_flag c)" n]
    by (auto simp: unat_take_bit_mod u t_def [symmetric] le_mod_geq)
qed

lemma limb_sub:
  fixes x y :: u32 and c :: bool
  assumes "unat x < 2 ^ n" "unat y < 2 ^ n" "n < 31"
  shows "unat (take_bit n (x - (y + of_flag c))) + unat y + of_bool c
         = unat x + of_bool (bit (x - (y + of_flag c)) n) * 2 ^ n"
proof -
  define t where "t = unat y + of_bool c"
  define r where "r = x - (y + of_flag c)"
  have b: "(2::nat) ^ Suc n \<le> 2 ^ 31" using assms(3) by (intro power_increasing) auto
  have r: "unat r = (if t \<le> unat x then unat x - t else unat x + 2 ^ 32 - t)"
    using assms(2) b by (simp add: r_def unat_sub_if' t_def unat_word_ariths)
  obtain k where k: "(2::nat) ^ 32 = 2 ^ n * (2 * k)" "0 < k"
    using assms(3) by (intro that [of "2 ^ (31 - n)"]) (simp_all flip: power_add power_Suc)
  have "unat (take_bit n r) + t = unat x + of_bool (bit r n) * 2 ^ n"
  proof (cases "t \<le> unat x")
    case True
    then have "unat r < 2 ^ n" using assms(1) by (simp add: r)
    with True show ?thesis by (simp add: unat_take_bit_mod bit_unat_odd r)
  next
    case False
    have "2 ^ 32 = 2 ^ n + 2 ^ n * (2 * k - 1)" unfolding k(1) using k(2)
      by (cases k) (auto simp: algebra_simps)
    then have "unat r = (2 ^ n + unat x - t) + 2 ^ n * (2 * k - 1)"
      using False assms(2) by (simp add: r t_def)
    moreover have "2 ^ n + unat x - t < 2 ^ n" using False zero_less_power [of "2::nat" n] by linarith
    ultimately have "unat r mod 2 ^ n = 2 ^ n + unat x - t" "unat r div 2 ^ n = 2 * k - 1"
      by simp_all
    with False k(2) assms(2) show ?thesis
      by (simp add: unat_take_bit_mod bit_unat_odd t_def)
  qed
  then show ?thesis by (simp add: r_def t_def)
qed

lemmas limb_add0 = limb_add [where c = False, simplified]
lemmas limb_sub0 = limb_sub [where c = False, simplified]

lemma sign56: "wf56 (d0, d1, d2) \<Longrightarrow> bit d0 7 \<longleftrightarrow> 2 ^ 55 \<le> val56 (d0, d1, d2)"
  using bit_unat_top [of d0 7] by auto

lemma val56_lt: "wf56 a \<Longrightarrow> val56 a < 2 ^ 56"
  by (cases a) simp

lemma signed_sum_overflow:
  assumes "vr + of_bool c * 2 ^ 56 = vd + vs" "vr < 2 ^ 56" "vd < 2 ^ 56" "vs < 2 ^ 56"
  shows "((2 ^ 55 \<le> vs) \<noteq> (2 ^ 55 \<le> vr) \<and> (2 ^ 55 \<le> vd) \<noteq> (2 ^ 55 \<le> vr)) \<longleftrightarrow>
    out_of_range56 (sgn_of 56 vd + sgn_of 56 vs)"
  using assms by (cases c) (auto simp: sgn_of_def out_of_range56_def)

lemma signed_diff_overflow:
  assumes "vr + vs = vd + of_bool c * 2 ^ 56" "vr < 2 ^ 56" "vd < 2 ^ 56" "vs < 2 ^ 56"
  shows "((2 ^ 55 \<le> vs) \<noteq> (2 ^ 55 \<le> vd) \<and> (2 ^ 55 \<le> vr) \<noteq> (2 ^ 55 \<le> vd)) \<longleftrightarrow>
    out_of_range56 (sgn_of 56 vd - sgn_of 56 vs)"
  using assms by (cases c) (auto simp: sgn_of_def out_of_range56_def)

text \<open>Addition: the limbs with their carries, then the value, then the flags.\<close>

lemma add56_val:
  assumes "wf56 s" "wf56 d"
  shows "wf56 (snd (dsp_add56 s d))"
    and "val56 (snd (dsp_add56 s d)) + of_bool (2 ^ 56 \<le> val56 d + val56 s) * 2 ^ 56
         = val56 d + val56 s"
proof -
  obtain s0 s1 s2 d0 d1 d2 where sd: "s = (s0, s1, s2)" "d = (d0, d1, d2)" by (metis prod_cases3)
  have l2: "unat d2 < 2 ^ 24" "unat s2 < 2 ^ 24" and l1: "unat d1 < 2 ^ 24" "unat s1 < 2 ^ 24"
    and l0: "unat d0 < 2 ^ 8" "unat s0 < 2 ^ 8" using assms by (auto simp: sd)
  define c2 where "c2 = bit (d2 + s2) 24"
  define c1 where "c1 = bit (d1 + (s1 + of_flag c2)) 24"
  define c0 where "c0 = bit (d0 + (s0 + of_flag c1)) 8"
  define r2 where "r2 = take_bit 24 (d2 + s2)"
  define r1 where "r1 = take_bit 24 (d1 + (s1 + of_flag c2))"
  define r0 where "r0 = take_bit 8 (d0 + (s0 + of_flag c1))"
  have r: "snd (dsp_add56 s d) = (r0, r1, r2)"
    by (simp add: sd dsp_add56_def Let_def wbits c2_def c1_def r0_def r1_def r2_def)
  have w: "wf56 (r0, r1, r2)"
    by (simp add: r0_def r1_def r2_def unat_take_bit_mod)
  then show "wf56 (snd (dsp_add56 s d))" by (simp add: r)
  have "unat r2 + of_bool c2 * 2 ^ 24 = unat d2 + unat s2"
    unfolding r2_def c2_def using limb_add0 [OF l2] by simp
  moreover have "unat r1 + of_bool c1 * 2 ^ 24 = unat d1 + unat s1 + of_bool c2"
    unfolding r1_def c1_def using limb_add [OF l1] by simp
  moreover have "unat r0 + of_bool c0 * 2 ^ 8 = unat d0 + unat s0 + of_bool c1"
    unfolding r0_def c0_def using limb_add [OF l0] by simp
  ultimately have v: "val56 (r0, r1, r2) + of_bool c0 * 2 ^ 56 = val56 d + val56 s"
    by (simp add: sd)
  with val56_lt [OF w] have "c0 \<longleftrightarrow> 2 ^ 56 \<le> val56 d + val56 s"
    by (cases c0) (auto simp del: val56.simps)
  with v r show "val56 (snd (dsp_add56 s d)) + of_bool (2 ^ 56 \<le> val56 d + val56 s) * 2 ^ 56
      = val56 d + val56 s"
    by (simp only:)
qed

lemma add56_flags:
  assumes "wf56 s" "wf56 d"
  shows "fst (dsp_add56 s d) = vlc (out_of_range56 (sval56 d + sval56 s)) (2 ^ 56 \<le> val56 d + val56 s)"
proof -
  obtain s0 s1 s2 d0 d1 d2 where sd: "s = (s0, s1, s2)" "d = (d0, d1, d2)" by (metis prod_cases3)
  obtain r0 r1 r2 where r: "snd (dsp_add56 s d) = (r0, r1, r2)" by (metis prod_cases3)
  note v = add56_val [OF assms, unfolded r]
  define n0 n1 n2 where n_def: "n0 = take_bit 8 (NOT d0)" "n1 = take_bit 24 (NOT d1)"
    "n2 = take_bit 24 (NOT d2)"
  have n: "unat n0 = 2 ^ 8 - 1 - unat d0" "unat n1 = 2 ^ 24 - 1 - unat d1"
    "unat n2 = 2 ^ 24 - 1 - unat d2"
    using assms by (simp_all add: n_def unat_not_mask sd)
  have c: "(if n0 < s0 then 1 else if n0 = s0 then
              (if n1 < s1 then 1 else if n1 = s1 then (if n2 < s2 then 1 else 0) else 0)
            else 0 :: u16) = of_flag (2 ^ 56 \<le> val56 d + val56 s)"
    using assms n by (auto simp: of_flag_def sd word_less_nat_alt word_unat_eq_iff)
  have r0: "r0 = take_bit 8 (d0 + (s0 + of_flag (bit (d1 + (s1 + of_flag (bit (d2 + s2) 24))) 24)))"
    using r by (simp add: sd dsp_add56_def Let_def wbits)
  have f: "fst (dsp_add56 s d) = vlc ((bit s0 7 \<noteq> bit r0 7) \<and> (bit d0 7 \<noteq> bit r0 7))
      (2 ^ 56 \<le> val56 d + val56 s)"
    unfolding vlc_def c [symmetric]
    by (simp only: sd r0 n_def dsp_add56_def prod.case Let_def wbits fst_conv)
  have sg: "bit s0 7 \<longleftrightarrow> 2 ^ 55 \<le> val56 s" "bit d0 7 \<longleftrightarrow> 2 ^ 55 \<le> val56 d"
    "bit r0 7 \<longleftrightarrow> 2 ^ 55 \<le> val56 (r0, r1, r2)"
    using sign56 assms v(1) by (simp_all add: sd del: val56.simps wf56.simps)
  show ?thesis
    unfolding f sg sval56_def signed_sum_overflow [OF v(2) val56_lt [OF v(1)] assms(2,1) [THEN val56_lt]]
    by (rule refl)
qed

text \<open>Subtraction, with borrows instead of carries.\<close>

lemma sub56_val:
  assumes "wf56 s" "wf56 d"
  shows "wf56 (snd (dsp_sub56 s d))"
    and "val56 (snd (dsp_sub56 s d)) + val56 s = val56 d + of_bool (val56 d < val56 s) * 2 ^ 56"
proof -
  obtain s0 s1 s2 d0 d1 d2 where sd: "s = (s0, s1, s2)" "d = (d0, d1, d2)" by (metis prod_cases3)
  have l2: "unat d2 < 2 ^ 24" "unat s2 < 2 ^ 24" and l1: "unat d1 < 2 ^ 24" "unat s1 < 2 ^ 24"
    and l0: "unat d0 < 2 ^ 8" "unat s0 < 2 ^ 8" using assms by (auto simp: sd)
  define c2 where "c2 = bit (d2 - s2) 24"
  define c1 where "c1 = bit (d1 - (s1 + of_flag c2)) 24"
  define c0 where "c0 = bit (d0 - (s0 + of_flag c1)) 8"
  define r2 where "r2 = take_bit 24 (d2 - s2)"
  define r1 where "r1 = take_bit 24 (d1 - (s1 + of_flag c2))"
  define r0 where "r0 = take_bit 8 (d0 - (s0 + of_flag c1))"
  have r: "snd (dsp_sub56 s d) = (r0, r1, r2)"
    by (simp add: sd dsp_sub56_def Let_def wbits c2_def c1_def r0_def r1_def r2_def)
  have w: "wf56 (r0, r1, r2)"
    by (simp add: r0_def r1_def r2_def unat_take_bit_mod)
  then show "wf56 (snd (dsp_sub56 s d))" by (simp add: r)
  have "unat r2 + unat s2 = unat d2 + of_bool c2 * 2 ^ 24"
    unfolding r2_def c2_def using limb_sub0 [OF l2] by simp
  moreover have "unat r1 + unat s1 + of_bool c2 = unat d1 + of_bool c1 * 2 ^ 24"
    unfolding r1_def c1_def using limb_sub [OF l1] by simp
  moreover have "unat r0 + unat s0 + of_bool c1 = unat d0 + of_bool c0 * 2 ^ 8"
    unfolding r0_def c0_def using limb_sub [OF l0] by simp
  ultimately have v: "val56 (r0, r1, r2) + val56 s = val56 d + of_bool c0 * 2 ^ 56"
    by (simp add: sd)
  with val56_lt [OF w] val56_lt [OF assms(2)] have "c0 \<longleftrightarrow> val56 d < val56 s"
    by (cases c0) (auto simp del: val56.simps)
  with v r show "val56 (snd (dsp_sub56 s d)) + val56 s
      = val56 d + of_bool (val56 d < val56 s) * 2 ^ 56"
    by (simp only:)
qed

lemma sub56_flags:
  assumes "wf56 s" "wf56 d"
  shows "fst (dsp_sub56 s d) = vlc (out_of_range56 (sval56 d - sval56 s)) (val56 d < val56 s)"
proof -
  obtain s0 s1 s2 d0 d1 d2 where sd: "s = (s0, s1, s2)" "d = (d0, d1, d2)" by (metis prod_cases3)
  obtain r0 r1 r2 where r: "snd (dsp_sub56 s d) = (r0, r1, r2)" by (metis prod_cases3)
  note v = sub56_val [OF assms, unfolded r]
  have c: "(if d0 < s0 then 1 else if d0 = s0 then
              (if d1 < s1 then 1 else if d1 = s1 then (if d2 < s2 then 1 else 0) else 0)
            else 0 :: u16) = of_flag (val56 d < val56 s)"
    using assms by (auto simp: of_flag_def sd word_less_nat_alt word_unat_eq_iff)
  have r0: "r0 = take_bit 8 (d0 - (s0 + of_flag (bit (d1 - (s1 + of_flag (bit (d2 - s2) 24))) 24)))"
    using r by (simp add: sd dsp_sub56_def Let_def wbits)
  have f: "fst (dsp_sub56 s d) = vlc ((bit s0 7 \<noteq> bit d0 7) \<and> (bit r0 7 \<noteq> bit d0 7))
      (val56 d < val56 s)"
    unfolding vlc_def c [symmetric]
    by (simp only: sd r0 dsp_sub56_def prod.case Let_def wbits fst_conv)
  have sg: "bit s0 7 \<longleftrightarrow> 2 ^ 55 \<le> val56 s" "bit d0 7 \<longleftrightarrow> 2 ^ 55 \<le> val56 d"
    "bit r0 7 \<longleftrightarrow> 2 ^ 55 \<le> val56 (r0, r1, r2)"
    using sign56 assms v(1) by (simp_all add: sd del: val56.simps wf56.simps)
  show ?thesis
    unfolding f sg sval56_def signed_diff_overflow [OF v(2) val56_lt [OF v(1)] assms(2,1) [THEN val56_lt]]
    by (rule refl)
qed

text \<open>The one-bit shifts.\<close>

lemma limb_shl:
  fixes x :: u32 and b :: bool
  assumes "unat x < 2 ^ n" "0 < n" "n < 31"
  shows "unat (take_bit n (push_bit 1 x OR of_flag b)) + of_bool (bit x (n - 1)) * 2 ^ n
         = 2 * unat x + of_bool b"
proof -
  have "(2::nat) ^ Suc n \<le> 2 ^ 31" using assms(3) by (intro power_increasing) auto
  moreover have "push_bit 1 x OR of_flag b = push_bit 1 x + of_flag b"
    by (rule or_flag_add) (simp only: bit_push_bit_iff, simp)
  ultimately have u: "unat (push_bit 1 x OR of_flag b) = 2 * unat x + of_bool b"
    using assms(1) by (simp add: push_bit_eq_mult unat_word_ariths)
  have n: "(2::nat) ^ n = 2 * 2 ^ (n - 1)" using assms(2) by (cases n) auto
  have bt: "bit x (n - 1) \<longleftrightarrow> 2 ^ (n - 1) \<le> unat x"
    using assms by (intro bit_unat_top) auto
  show ?thesis
  proof (cases "2 ^ (n - 1) \<le> unat x")
    case True
    then have "(2 * unat x + of_bool b) mod 2 ^ n = 2 * unat x + of_bool b - 2 ^ n"
      using assms(1) n by (subst le_mod_geq) (auto simp: )
    with True n show ?thesis unfolding bt unat_take_bit_mod u by simp
  next
    case False
    with n show ?thesis unfolding bt unat_take_bit_mod u by simp
  qed
qed

lemma asl56_val:
  assumes "wf56 d"
  shows "wf56 (snd (dsp_asl56 d))"
    and "val56 (snd (dsp_asl56 d)) + of_bool (2 ^ 55 \<le> val56 d) * 2 ^ 56 = 2 * val56 d"
    and "fst (dsp_asl56 d) = vlc (out_of_range56 (2 * sval56 d)) (2 ^ 55 \<le> val56 d)"
proof -
  obtain d0 d1 d2 where sd: "d = (d0, d1, d2)" by (metis prod_cases3)
  have l2: "unat d2 < 2 ^ 24" and l1: "unat d1 < 2 ^ 24" 
    and l0: "unat d0 < 2 ^ 8" using assms by (auto simp: sd)
  define r2 where "r2 = take_bit 24 (push_bit 1 d2)"
  define r1 where "r1 = take_bit 24 (push_bit 1 d1 OR of_flag (bit d2 23))"
  define r0 where "r0 = take_bit 8 (push_bit 1 d0 OR of_flag (bit d1 23))"
  have r: "snd (dsp_asl56 d) = (r0, r1, r2)"
    by (simp only: sd dsp_asl56_def Let_def wbits r0_def r1_def r2_def snd_conv prod.case)
  have w: "wf56 (r0, r1, r2)"
    unfolding r0_def r1_def r2_def wf56.simps by (intro conjI take_bit_lt) simp_all
  then show "wf56 (snd (dsp_asl56 d))" by (simp add: r)
  have "unat r2 + of_bool (bit d2 23) * 2 ^ 24 = 2 * unat d2"
    unfolding r2_def using limb_shl [OF l2, of False] by simp
  moreover have "unat r1 + of_bool (bit d1 23) * 2 ^ 24 = 2 * unat d1 + of_bool (bit d2 23)"
    unfolding r1_def using limb_shl [OF l1] by simp
  moreover have "unat r0 + of_bool (bit d0 7) * 2 ^ 8 = 2 * unat d0 + of_bool (bit d1 23)"
    unfolding r0_def using limb_shl [OF l0] by simp
  ultimately have "val56 (r0, r1, r2) + of_bool (bit d0 7) * 2 ^ 56 = 2 * val56 d"
    by (simp add: sd)
  moreover have sg: "bit d0 7 \<longleftrightarrow> 2 ^ 55 \<le> val56 d" "bit r0 7 \<longleftrightarrow> 2 ^ 55 \<le> val56 (r0, r1, r2)"
    using sign56 assms w by (simp_all add: sd del: val56.simps wf56.simps)
  ultimately show v: "val56 (snd (dsp_asl56 d)) + of_bool (2 ^ 55 \<le> val56 d) * 2 ^ 56 = 2 * val56 d"
    by (simp only: r)
  have "fst (dsp_asl56 d) = vlc (bit d0 7 \<noteq> bit r0 7) (bit d0 7)"
    unfolding vlc_def by (simp only: sd r0_def dsp_asl56_def prod.case Let_def wbits fst_conv flag_eq)
  moreover have "(2 ^ 55 \<le> val56 d) \<noteq> (2 ^ 55 \<le> val56 (r0, r1, r2)) \<longleftrightarrow> out_of_range56 (2 * sval56 d)"
    using v val56_lt [OF assms] val56_lt [OF w]
    by (cases "2 ^ 55 \<le> val56 d") (auto simp: r sval56_def sgn_of_def out_of_range56_def simp del: val56.simps)
  ultimately show "fst (dsp_asl56 d) = vlc (out_of_range56 (2 * sval56 d)) (2 ^ 55 \<le> val56 d)"
    by (simp only: sg)
qed

lemma limb_shr:
  fixes x :: u32 and b :: bool
  assumes "unat x < 2 ^ Suc n" "n < 31"
  shows "unat (take_bit n (drop_bit 1 x) OR push_bit n (of_flag b)) = unat x div 2 + of_bool b * 2 ^ n"
proof -
  have "take_bit n (drop_bit 1 x) OR push_bit n (of_flag b) = take_bit n (drop_bit 1 x) + push_bit n (of_flag b)"
    by (rule disjunctive_add [symmetric]) (auto simp: bit_simps of_flag_def bit_1_iff)
  moreover have "unat (push_bit n (of_flag b) :: u32) = of_bool b * 2 ^ n"
    using assms(2) by (cases b) (simp_all add: push_bit_eq_mult unat_exp_32)
  moreover have "(2::nat) ^ n \<le> 2 ^ 30" using assms(2) by (intro power_increasing) auto
  moreover have "unat x div 2 < 2 ^ n" using assms(1) by simp
  moreover from this have "unat (take_bit n (drop_bit 1 x)) = unat x div 2"
    using assms(1) by (simp only: unat_take_bit_mod unat_drop_bit_div) simp
  ultimately show ?thesis by (simp add: unat_word_ariths)
qed

lemma signed_half:
  assumes "2 * vr + of_bool (odd vd) = vd + of_bool (2 ^ 55 \<le> vd) * 2 ^ 56" "vd < 2 ^ 56"
  shows "sgn_of 56 vr = sgn_of 56 vd div 2"
proof -
  have "2 * int vr + of_bool (odd vd) = int vd + of_bool (2 ^ 55 \<le> vd) * 2 ^ 56"
    using assms(1) by (cases "odd vd"; cases "2 ^ 55 \<le> vd") (auto elim!: oddE evenE)
  moreover have "2 ^ 55 \<le> vr \<longleftrightarrow> 2 ^ 55 \<le> vd" using assms
    by (cases "odd vd"; cases "2 ^ 55 \<le> vd") auto
  ultimately show ?thesis
    by (cases "odd vd"; cases "2 ^ 55 \<le> vd") (auto simp: sgn_of_def)
qed

lemma asr56_val:
  assumes "wf56 d"
  shows "wf56 (snd (dsp_asr56 d))"
    and "sval56 (snd (dsp_asr56 d)) = sval56 d div 2"
    and "fst (dsp_asr56 d) = vlc False (odd (val56 d))"
proof -
  obtain d0 d1 d2 where sd: "d = (d0, d1, d2)" by (metis prod_cases3)
  have l2: "unat d2 < 2 ^ Suc 23" and l1: "unat d1 < 2 ^ Suc 23" 
    and l0: "unat d0 < 2 ^ Suc 7" using assms by (auto simp: sd)
  define r2 where "r2 = take_bit 23 (drop_bit 1 d2) OR push_bit 23 (of_flag (bit d1 0))"
  define r1 where "r1 = take_bit 23 (drop_bit 1 d1) OR push_bit 23 (of_flag (bit d0 0))"
  define h where "h = take_bit 7 (drop_bit 1 d0)"
  define r0 where "r0 = h OR push_bit 1 (h AND push_bit 6 1)"
  have e: "w AND 1 = of_flag (bit w 0)" for w :: u32
    using and_one_flag [of 0 w] by simp
  have r: "snd (dsp_asr56 d) = (r0, r1, r2)"
    by (simp only: sd dsp_asr56_def Let_def wbits e r0_def r1_def r2_def h_def snd_conv prod.case)
  have h6: "push_bit 1 (h AND push_bit 6 1) = push_bit 7 (of_flag (bit d0 7))"
  proof -
    have "bit h 6 \<longleftrightarrow> bit d0 7" by (simp add: h_def bit_simps)
    then show ?thesis by (simp only: and_push_bit_one push_bit_push_bit) simp
  qed
  have u2: "unat r2 = unat d2 div 2 + of_bool (odd (unat d1)) * 2 ^ 23"
    unfolding r2_def by (subst limb_shr [OF l2]) (simp_all add: bit_unat_odd)
  have u1: "unat r1 = unat d1 div 2 + of_bool (odd (unat d0)) * 2 ^ 23"
    unfolding r1_def by (subst limb_shr [OF l1]) (simp_all add: bit_unat_odd)
  have u0: "unat r0 = unat d0 div 2 + of_bool (2 ^ 7 \<le> unat d0) * 2 ^ 7"
    unfolding r0_def h6 unfolding h_def
    using bit_unat_top [of d0 7] l0 by (subst limb_shr [OF l0]) simp_all
  have w: "wf56 (r0, r1, r2)" using l0 l1 l2 by (auto simp: u0 u1 u2)
  then show "wf56 (snd (dsp_asr56 d))" by (simp only: r)
  have v: "2 * val56 (r0, r1, r2) + of_bool (odd (val56 d)) = val56 d + of_bool (2 ^ 55 \<le> val56 d) * 2 ^ 56"
    using assms by (auto simp: sd u0 u1 u2 elim!: evenE oddE)
  then show "sval56 (snd (dsp_asr56 d)) = sval56 d div 2"
    unfolding sval56_def r using val56_lt [OF assms] by (rule signed_half)
  show "fst (dsp_asr56 d) = vlc False (odd (val56 d))"
    by (simp add: sd dsp_asr56_def Let_def e wbits vlc_def bit_unat_odd)
qed

text \<open>Signed readings of addition, subtraction and absolute value.\<close>

lemma sval56_range: "wf56 a \<Longrightarrow> \<not> out_of_range56 (sval56 a)"
  using val56_lt [of a] by (auto simp: out_of_range56_def sval56_def sgn_of_def)

lemma add56_sval:
  assumes "wf56 s" "wf56 d" "\<not> out_of_range56 (sval56 d + sval56 s)"
  shows "sval56 (snd (dsp_add56 s d)) = sval56 d + sval56 s"
  using add56_val [OF assms(1,2)] assms(3) assms(1,2) [THEN val56_lt] val56_lt [OF add56_val(1) [OF assms(1,2)]]
  by (cases "2 ^ 56 \<le> val56 d + val56 s") (auto simp: sval56_def sgn_of_def out_of_range56_def split: if_splits)

lemma sub56_sval:
  assumes "wf56 s" "wf56 d" "\<not> out_of_range56 (sval56 d - sval56 s)"
  shows "sval56 (snd (dsp_sub56 s d)) = sval56 d - sval56 s"
  using sub56_val [OF assms(1,2)] assms(3) assms(1,2) [THEN val56_lt] val56_lt [OF sub56_val(1) [OF assms(1,2)]]
  by (cases "val56 d < val56 s") (auto simp: sval56_def sgn_of_def out_of_range56_def split: if_splits)

lemma zero56 [simp]: "wf56 (0, 0, 0)" "val56 (0, 0, 0) = 0" "sval56 (0, 0, 0) = 0"
  by (simp_all add: sval56_def sgn_of_def)

lemma abs56_val:
  assumes "wf56 d"
  shows "wf56 (snd (dsp_abs56 d))"
    and "sval56 (snd (dsp_abs56 d)) = (if sval56 d = - (2 ^ 55) then - (2 ^ 55) else \<bar>sval56 d\<bar>)"
proof -
  obtain d0 d1 d2 where sd: "d = (d0, d1, d2)" by (metis prod_cases3)
  have neg: "bit d0 7 \<longleftrightarrow> sval56 d < 0"
    using sign56 [of d0 d1 d2] assms val56_lt [OF assms]
    by (auto simp: sd wbits sval56_def sgn_of_def simp del: val56.simps wf56.simps)
  show "wf56 (snd (dsp_abs56 d))"
    using assms sub56_val(1) [OF assms zero56(1)] by (auto simp: dsp_abs56_def sd)
  have sub: "sval56 (snd (dsp_sub56 d (0, 0, 0))) = - sval56 d" if "sval56 d \<noteq> - (2 ^ 55)"
    using sub56_sval [OF assms zero56(1)] sval56_range [OF assms] that
    by (simp add: out_of_range56_def)
  have min: "sval56 (snd (dsp_sub56 d (0, 0, 0))) = - (2 ^ 55)" if "sval56 d = - (2 ^ 55)"
    using sub56_val [OF assms zero56(1)] that val56_lt [OF assms]
    by (auto simp: sval56_def sgn_of_def split: if_splits)
  show "sval56 (snd (dsp_abs56 d)) = (if sval56 d = - (2 ^ 55) then - (2 ^ 55) else \<bar>sval56 d\<bar>)"
    using neg sub min by (auto simp: dsp_abs56_def sd)
qed

lemma sval24_abs:
  assumes "unat w < 2 ^ 24"
  shows "unat (if has_bit w 23 then push_bit 24 1 - (w AND BITMASK 24) else w) = nat \<bar>sval24 w\<bar>"
    and "bit w 23 \<longleftrightarrow> sval24 w < 0"
    and "\<bar>sval24 w\<bar> \<le> 2 ^ 23"
proof -
  have b: "bit w 23 \<longleftrightarrow> 2 ^ 23 \<le> unat w" using bit_unat_top [of w 23] assms by simp
  then show "bit w 23 \<longleftrightarrow> sval24 w < 0" using assms by (auto simp: sval24_def sgn_of_def simp del: of_nat_unat)
  show "\<bar>sval24 w\<bar> \<le> 2 ^ 23" using assms by (auto simp: sval24_def sgn_of_def simp del: of_nat_unat)
  have "take_bit 24 w = w" using assms by (simp add: word_unat_eq_iff unat_take_bit_mod)
  moreover have "unat (0x1000000 - w) = 2 ^ 24 - unat w" using assms by (simp add: unat_sub_if')
  ultimately show "unat (if has_bit w 23 then push_bit 24 1 - (w AND BITMASK 24) else w) = nat \<bar>sval24 w\<bar>"
    using assms b by (auto simp: wbits sval24_def sgn_of_def simp del: of_nat_unat)
qed

text \<open>
  Multiplication: the product of the magnitudes from four 12 x 12 bit partial products, shifted
  left once and negated when the signs differ.
\<close>

definition mul_mag :: "u32 \<Rightarrow> u32 \<Rightarrow> acc" where
  "mul_mag source1 source2 = (let 
          part0 = (source1 AND BITMASK 12) * (source2 AND BITMASK 12);
          part1 = (drop_bit 12 source1 AND BITMASK 12) * (source2 AND BITMASK 12);
          part2 = (source1 AND BITMASK 12) * (drop_bit 12 source2 AND BITMASK 12);
          part3 = (drop_bit 12 source1 AND BITMASK 12) * (drop_bit 12 source2 AND BITMASK 12);
          d2 = part0;
          d2 = d2 + push_bit 12 (part1 AND BITMASK 12);
          d2 = d2 + push_bit 12 (part2 AND BITMASK 12);
          d1 = drop_bit 12 part1 AND BITMASK 12;
          d1 = d1 + (drop_bit 12 part2 AND BITMASK 12);
          d1 = d1 + part3;
          d0 = (0::u32);
          value = drop_bit 24 d2 AND BITMASK 8;
          (d1, d2) = (if value \<noteq> 0 then (d1 + value, d2 AND BITMASK 24) else (d1, d2));
          value = drop_bit 24 d1 AND BITMASK 8;
          (d0, d1) = (if value \<noteq> 0 then (d0 + value, d1 AND BITMASK 24) else (d0, d1))
         in (d0, d1, d2))"

lemma mul56_mag: "dsp_mul56 x y =
   (let dest = snd (dsp_asl56 (mul_mag (if has_bit x 23 then push_bit 24 1 - (x AND BITMASK 24) else x)
        (if has_bit y 23 then push_bit 24 1 - (y AND BITMASK 24) else y)))
    in if bit x 23 \<noteq> bit y 23 then snd (dsp_sub56 dest (0, 0, 0)) else dest)"
  by (cases "bit x 23"; cases "bit y 23") (simp_all add: dsp_mul56_def mul_mag_def Let_def split_beta)

lemma carry_limb:
  fixes a b :: u32
  shows "(if drop_bit 24 b AND BITMASK 8 \<noteq> 0
          then (a + (drop_bit 24 b AND BITMASK 8), b AND BITMASK 24) else (a, b))
    = (a + drop_bit 24 b, take_bit 24 b)"
proof -
  have "unat b < 2 ^ 32" using unsigned_less [of b] by simp
  then have v: "drop_bit 24 b AND BITMASK 8 = drop_bit 24 b"
    by (simp add: and_BITMASK word_unat_eq_iff unat_take_bit_mod unat_drop_bit_div)
  have "take_bit 24 b = b" if "drop_bit 24 b = 0"
    using that by (simp add: word_unat_eq_iff unat_take_bit_mod unat_drop_bit_div)
  with v show ?thesis by (simp add: and_BITMASK)
qed

lemma mul_recombine:
  fixes p0 p1 p2 p3 :: nat
  shows "(p1 div 4096 + p2 div 4096 + p3 + (p0 + p1 mod 4096 * 4096 + p2 mod 4096 * 4096) div 2 ^ 24) * 2 ^ 24
    + (p0 + p1 mod 4096 * 4096 + p2 mod 4096 * 4096) mod 2 ^ 24 = p3 * 2 ^ 24 + (p1 + p2) * 2 ^ 12 + p0"
proof -
  have split: "(a + b) * 2 ^ 24 + c = p3 * 2 ^ 24 + (p1 + p2) * 2 ^ 12 + p0"
    if "b * 2 ^ 24 + c = p0 + r1 * 4096 + r2 * 4096" "p1 = q1 * 4096 + r1" "p2 = q2 * 4096 + r2"
      "a = q1 + q2 + p3" for a b c q1 r1 q2 r2
    using that by simp
  show ?thesis by (rule split) (rule div_mult_mod_eq div_mult_mod_eq [symmetric] refl)+
qed

lemma mul_limbs:
  fixes p0 p1 p2 p3 :: u32
  assumes "unat p0 < 2 ^ 24" "unat p1 < 2 ^ 24" "unat p2 < 2 ^ 24" "unat p3 < 2 ^ 24"
  defines "d2 \<equiv> p0 + push_bit 12 (p1 AND BITMASK 12) + push_bit 12 (p2 AND BITMASK 12)"
    and "d1 \<equiv> (drop_bit 12 p1 AND BITMASK 12) + (drop_bit 12 p2 AND BITMASK 12) + p3"
  defines "e1 \<equiv> d1 + drop_bit 24 d2"
  shows "wf56 (drop_bit 24 e1, take_bit 24 e1, take_bit 24 d2)"
    and "val56 (drop_bit 24 e1, take_bit 24 e1, take_bit 24 d2) =
       unat p3 * 2 ^ 24 + (unat p1 + unat p2) * 2 ^ 12 + unat p0"
proof -
  have d2: "unat d2 = unat p0 + unat p1 mod 4096 * 4096 + unat p2 mod 4096 * 4096"
    using assms(1) by (simp add: d2_def wbits unat_word_ariths push_bit_eq_mult)
  have d1: "unat d1 = unat p1 div 4096 + unat p2 div 4096 + unat p3"
    using assms(2-4) by (simp add: d1_def wbits unat_word_ariths)
  have e1: "unat e1 = unat d1 + unat d2 div 2 ^ 24"
    using assms(1-4) by (simp add: e1_def wbits unat_word_ariths d1 d2)
  have "unat e1 * 2 ^ 24 + unat d2 mod 2 ^ 24 = unat p3 * 2 ^ 24 + (unat p1 + unat p2) * 2 ^ 12 + unat p0"
    unfolding e1 d1 d2 by (rule mul_recombine)
  moreover have "unat e1 < 2 ^ 32" using unsigned_less [of e1] by simp
  moreover obtain q r where "unat e1 div 2 ^ 24 = q" "unat e1 mod 2 ^ 24 = r" "unat e1 = q * 2 ^ 24 + r"
    using div_mult_mod_eq [of "unat e1" "2 ^ 24"] by metis
  ultimately show "wf56 (drop_bit 24 e1, take_bit 24 e1, take_bit 24 d2)"
    "val56 (drop_bit 24 e1, take_bit 24 e1, take_bit 24 d2) =
       unat p3 * 2 ^ 24 + (unat p1 + unat p2) * 2 ^ 12 + unat p0"
    by (simp_all add: unat_take_bit_mod unat_drop_bit_div)
qed

lemma mul_mag_val:
  assumes "unat x < 2 ^ 24" "unat y < 2 ^ 24"
  shows "wf56 (mul_mag x y)" "val56 (mul_mag x y) = unat x * unat y"
proof -
  define xl xh yl yh where d: "xl = unat x mod 4096" "xh = unat x div 4096"
    "yl = unat y mod 4096" "yh = unat y div 4096"
  have b: "xl \<le> 4095" "xh \<le> 4095" "yl \<le> 4095" "yh \<le> 4095" using assms by (simp_all add: d)
  have lim: "xl * yl \<le> 4095 * 4095" "xh * yl \<le> 4095 * 4095" "xl * yh \<le> 4095 * 4095"
    "xh * yh \<le> 4095 * 4095"
    using b by (blast intro: mult_le_mono)+
  have p: "unat ((x AND BITMASK 12) * (y AND BITMASK 12)) = xl * yl"
     "unat ((drop_bit 12 x AND BITMASK 12) * (y AND BITMASK 12)) = xh * yl"
     "unat ((x AND BITMASK 12) * (drop_bit 12 y AND BITMASK 12)) = xl * yh"
     "unat ((drop_bit 12 x AND BITMASK 12) * (drop_bit 12 y AND BITMASK 12)) = xh * yh"
    using b lim by (simp_all add: wbits unat_word_ariths d)
  have "unat x = xh * 4096 + xl" "unat y = yh * 4096 + yl" by (simp_all add: d)
  then have xy: "unat x * unat y = xh * yh * 2 ^ 24 + (xh * yl + xl * yh) * 2 ^ 12 + xl * yl"
    by (simp add: algebra_simps)
  note m = mul_limbs [of "(x AND BITMASK 12) * (y AND BITMASK 12)"
      "(drop_bit 12 x AND BITMASK 12) * (y AND BITMASK 12)"
      "(x AND BITMASK 12) * (drop_bit 12 y AND BITMASK 12)"
      "(drop_bit 12 x AND BITMASK 12) * (drop_bit 12 y AND BITMASK 12)"]
  have l: "xl * yl < 2 ^ 24" "xh * yl < 2 ^ 24" "xl * yh < 2 ^ 24" "xh * yh < 2 ^ 24"
    using lim by simp_all
  show "wf56 (mul_mag x y)" "val56 (mul_mag x y) = unat x * unat y"
    unfolding mul_mag_def Let_def carry_limb prod.case add_0 xy
    using m l unfolding p by blast+
qed

lemma mul56_sval:
  assumes "unat source1 < 2 ^ 24" "unat source2 < 2 ^ 24"
  shows "wf56 (dsp_mul56 source1 source2)" and "sval56 (dsp_mul56 source1 source2) = 2 * sval24 source1 * sval24 source2"
proof -
  define m1 m2 where m: "m1 = (if has_bit source1 23 then push_bit 24 1 - (source1 AND BITMASK 24) else source1)"
    "m2 = (if has_bit source2 23 then push_bit 24 1 - (source2 AND BITMASK 24) else source2)"
  note s1 = sval24_abs [OF assms(1), folded m] and s2 = sval24_abs [OF assms(2), folded m]
  have b: "nat \<bar>sval24 source1\<bar> \<le> 2 ^ 23" "nat \<bar>sval24 source2\<bar> \<le> 2 ^ 23" using s1(3) s2(3) by simp_all
  then have le: "unat m1 * unat m2 \<le> 2 ^ 23 * 2 ^ 23" unfolding s1(1) s2(1) by (rule mult_le_mono)
  have "unat m1 < 2 ^ 24" "unat m2 < 2 ^ 24" unfolding s1(1) s2(1) using b by simp_all
  note mm = mul_mag_val [OF this]
  define dest where "dest = snd (dsp_asl56 (mul_mag m1 m2))"
  have d: "wf56 dest" "val56 dest = 2 * (unat m1 * unat m2)"
    using asl56_val(1,2) [OF mm(1)] le by (simp_all add: mm(2) dest_def)
  have "sval56 dest = int (val56 dest)" using d(2) le by (simp add: sval56_def sgn_of_def)
  then have sd: "sval56 dest = 2 * (\<bar>sval24 source1\<bar> * \<bar>sval24 source2\<bar>)"
    unfolding d(2) s1(1) s2(1) by simp
  have "val56 dest \<le> 2 ^ 47" using d(2) le by simp
  then have "\<not> out_of_range56 (0 - sval56 dest)" by (simp add: out_of_range56_def sval56_def sgn_of_def)
  then have neg: "wf56 (snd (dsp_sub56 dest (0, 0, 0)))" "sval56 (snd (dsp_sub56 dest (0, 0, 0))) = - sval56 dest"
    using sub56_val(1) [OF d(1) zero56(1)] sub56_sval [OF d(1) zero56(1)] by simp_all
  have "dsp_mul56 source1 source2 = (if (sval24 source1 < 0) \<noteq> (sval24 source2 < 0) then snd (dsp_sub56 dest (0, 0, 0)) else dest)"
    unfolding mul56_mag Let_def m [symmetric] dest_def s1(2) s2(2) by (rule refl)
  then show "wf56 (dsp_mul56 source1 source2)"
    and "sval56 (dsp_mul56 source1 source2) = 2 * sval24 source1 * sval24 source2"
    using d(1) sd neg by (auto simp: abs_if mult_less_0_iff split: if_splits)
qed

text \<open>
  C1. The multiplier computes the fractional product: for 24-bit operands it returns a well-formed
  accumulator whose two's complement value is twice the product of the operands' values.
\<close>

theorem dsp_mul56_correct:
  assumes "unat source1 < 2 ^ 24" "unat source2 < 2 ^ 24"
  shows "wf56 (dsp_mul56 source1 source2)
    \<and> sval56 (dsp_mul56 source1 source2) = 2 * sval24 source1 * sval24 source2"
  using mul56_sval [OF assms] by simp

theorem dsp_mul56_witness:
  "wf56 (dsp_mul56 0x800000 0x400000)
    \<and> sval56 (dsp_mul56 0x800000 0x400000) = 2 * sval24 0x800000 * sval24 0x400000"
  by (rule dsp_mul56_correct) simp_all

text \<open>
  C2. Addition is addition modulo 2^56 on well-formed accumulators; the returned condition codes
  have C set exactly on an unsigned carry out of bit 55 and L and V set exactly when the sum of
  the two's complement values leaves the 56-bit range.
\<close>

theorem dsp_add56_correct:
  assumes "wf56 source" "wf56 dest"
  shows "wf56 (snd (dsp_add56 source dest))
    \<and> val56 (snd (dsp_add56 source dest)) = (val56 dest + val56 source) mod 2 ^ 56
    \<and> fst (dsp_add56 source dest)
      = vlc (out_of_range56 (sval56 dest + sval56 source)) (2 ^ 56 \<le> val56 dest + val56 source)"
  using add56_val [OF assms] add56_flags [OF assms] assms [THEN val56_lt]
  by (cases "2 ^ 56 \<le> val56 dest + val56 source") (auto simp: le_mod_geq)

theorem dsp_add56_witness:
  "wf56 (snd (dsp_add56 (0, 0, 1) (0x7F, 0xFFFFFF, 0xFFFFFF)))
    \<and> fst (dsp_add56 (0, 0, 1) (0x7F, 0xFFFFFF, 0xFFFFFF)) = vlc True False"
  using dsp_add56_correct [of "(0, 0, 1)" "(0x7F, 0xFFFFFF, 0xFFFFFF)"]
  by (simp add: out_of_range56_def sval56_def sgn_of_def)

text \<open>
  C3. Subtraction is subtraction modulo 2^56; C is set exactly on a borrow, L and V exactly when
  the difference of the two's complement values leaves the 56-bit range.
\<close>

theorem dsp_sub56_correct:
  assumes "wf56 source" "wf56 dest"
  shows "wf56 (snd (dsp_sub56 source dest))
    \<and> int (val56 (snd (dsp_sub56 source dest))) = (int (val56 dest) - int (val56 source)) mod 2 ^ 56
    \<and> fst (dsp_sub56 source dest)
      = vlc (out_of_range56 (sval56 dest - sval56 source)) (val56 dest < val56 source)"
proof -
  note v = sub56_val [OF assms] and lt = assms [THEN val56_lt]
  define r where "r = val56 (snd (dsp_sub56 source dest))"
  have "int r = (int (val56 dest) - int (val56 source)) + of_bool (val56 dest < val56 source) * 2 ^ 56"
    using v(2) by (cases "val56 dest < val56 source") (auto simp: r_def)
  then have "int r mod 2 ^ 56 = (int (val56 dest) - int (val56 source)) mod 2 ^ 56"
    by (simp only: mod_mult_self1)
  moreover have "int r mod 2 ^ 56 = int r" using val56_lt [OF v(1)] by (simp add: r_def)
  ultimately have "int r = (int (val56 dest) - int (val56 source)) mod 2 ^ 56" by simp
  then show ?thesis using v(1) sub56_flags [OF assms] by (simp add: r_def)
qed

theorem dsp_sub56_witness:
  "wf56 (snd (dsp_sub56 (0, 0, 1) (0, 0, 0)))
    \<and> fst (dsp_sub56 (0, 0, 1) (0, 0, 0)) = vlc False True"
  using dsp_sub56_correct [of "(0, 0, 1)" "(0, 0, 0)"]
  by (simp add: out_of_range56_def sval56_def sgn_of_def)

end
