(* ===== verification/Dsp_State.thy ===== *)
theory Dsp_State
  imports Dsp_Arith56
begin

text \<open>
  The state of the DSP56001 emulation: \<open>struct dsp_core_s\<close> of
  \<open>src/src/include/dsp_core.h\<close> together with the static variables of
  \<open>src/src/dsp_cpu.c\<close>, and the register and memory space numbers of
  \<open>src/src/include/dsp_cpu.h\<close>. C arrays are functions on indices; a one-element assignment is
  a function update.

  Two fields have no counterpart in the C structure. \<open>host_waits\<close> is the sequence of
  host port accesses the m68k thread performs while the DSP thread is blocked on its semaphore.
  \<open>fault\<close> records the first C-level error: an array index out of bounds, a union read as the
  member that was not stored, an uninitialised variable, or a wait that nobody ends. Once it is set the rest of the state has
  no meaning.
\<close>

datatype parmove_dest_u = host_pointer nat | dsp_address u32

datatype host_op = HostRead nat | HostWrite nat u8

datatype dsp_error = StackIndex | HostIndex | BootstrapIndex | UnionMember | UninitRead | Blocked

record dsp_core_t =
  thread :: bool
  semaphore :: "nat option"
  mutex :: bool
  use_thread :: bool
  running :: bool
  pc :: u16
  registers :: "nat \<Rightarrow> u32"
  stack :: "nat \<Rightarrow> nat \<Rightarrow> u16"
  ram :: "nat \<Rightarrow> nat \<Rightarrow> u32"
  rom :: "nat \<Rightarrow> nat \<Rightarrow> u32"
  ramint :: "nat \<Rightarrow> nat \<Rightarrow> u32"
  periph :: "nat \<Rightarrow> nat \<Rightarrow> u32"
  hostport :: "nat \<Rightarrow> u8"
  loop_rep :: u32
  swi_inter :: u32
  bootstrap_pos :: u16
  interrupt_state :: u16
  interrupt_instr_fetch :: u32
  interrupt_save_pc :: u32
  cur_inst_len :: u32
  cur_inst :: u32
  tmp_parmove_src :: "nat \<Rightarrow> nat \<Rightarrow> u32"
  tmp_parmove_dest :: "nat \<Rightarrow> nat \<Rightarrow> parmove_dest_u"
  tmp_parmove_start :: "nat \<Rightarrow> u32"
  tmp_parmove_len :: "nat \<Rightarrow> u32"
  tmp_parmove_type :: "nat \<Rightarrow> u32"
  tmp_parmove_space :: "nat \<Rightarrow> u32"
  pc_on_rep :: u32
  host_waits :: "host_op list"
  fault :: "dsp_error option"

abbreviation (input) DSP_REG_X0 :: nat where "DSP_REG_X0 \<equiv> 0x04"
abbreviation (input) DSP_REG_X1 :: nat where "DSP_REG_X1 \<equiv> 0x05"
abbreviation (input) DSP_REG_Y0 :: nat where "DSP_REG_Y0 \<equiv> 0x06"
abbreviation (input) DSP_REG_Y1 :: nat where "DSP_REG_Y1 \<equiv> 0x07"
abbreviation (input) DSP_REG_A0 :: nat where "DSP_REG_A0 \<equiv> 0x08"
abbreviation (input) DSP_REG_B0 :: nat where "DSP_REG_B0 \<equiv> 0x09"
abbreviation (input) DSP_REG_A2 :: nat where "DSP_REG_A2 \<equiv> 0x0a"
abbreviation (input) DSP_REG_B2 :: nat where "DSP_REG_B2 \<equiv> 0x0b"
abbreviation (input) DSP_REG_A1 :: nat where "DSP_REG_A1 \<equiv> 0x0c"
abbreviation (input) DSP_REG_B1 :: nat where "DSP_REG_B1 \<equiv> 0x0d"
abbreviation (input) DSP_REG_A :: nat where "DSP_REG_A \<equiv> 0x0e"
abbreviation (input) DSP_REG_B :: nat where "DSP_REG_B \<equiv> 0x0f"
abbreviation (input) DSP_REG_R0 :: nat where "DSP_REG_R0 \<equiv> 0x10"
abbreviation (input) DSP_REG_N0 :: nat where "DSP_REG_N0 \<equiv> 0x18"
abbreviation (input) DSP_REG_M0 :: nat where "DSP_REG_M0 \<equiv> 0x20"
abbreviation (input) DSP_REG_SR :: nat where "DSP_REG_SR \<equiv> 0x39"
abbreviation (input) DSP_REG_OMR :: nat where "DSP_REG_OMR \<equiv> 0x3a"
abbreviation (input) DSP_REG_SP :: nat where "DSP_REG_SP \<equiv> 0x3b"
abbreviation (input) DSP_REG_SSH :: nat where "DSP_REG_SSH \<equiv> 0x3c"
abbreviation (input) DSP_REG_SSL :: nat where "DSP_REG_SSL \<equiv> 0x3d"
abbreviation (input) DSP_REG_LA :: nat where "DSP_REG_LA \<equiv> 0x3e"
abbreviation (input) DSP_REG_LC :: nat where "DSP_REG_LC \<equiv> 0x3f"
abbreviation (input) DSP_REG_NULL :: nat where "DSP_REG_NULL \<equiv> 0x00"
abbreviation (input) DSP_REG_LCSAVE :: nat where "DSP_REG_LCSAVE \<equiv> 0x30"

abbreviation (input) DSP_SPACE_X :: nat where "DSP_SPACE_X \<equiv> 0"
abbreviation (input) DSP_SPACE_Y :: nat where "DSP_SPACE_Y \<equiv> 1"
abbreviation (input) DSP_SPACE_P :: nat where "DSP_SPACE_P \<equiv> 2"

abbreviation (input) DSP_OMR_DE :: nat where "DSP_OMR_DE \<equiv> 2"

text \<open>Assignments to one element of the array members.\<close>

abbreviation setreg :: "nat \<Rightarrow> u32 \<Rightarrow> dsp_core_t \<Rightarrow> dsp_core_t" where
  "setreg r v \<equiv> registers_update (\<lambda>f. f(r := v))"

abbreviation set_hostport :: "nat \<Rightarrow> u8 \<Rightarrow> dsp_core_t \<Rightarrow> dsp_core_t" where
  "set_hostport a v \<equiv> hostport_update (\<lambda>f. f(a := v))"

abbreviation set_periph :: "nat \<Rightarrow> nat \<Rightarrow> u32 \<Rightarrow> dsp_core_t \<Rightarrow> dsp_core_t" where
  "set_periph space a v \<equiv> periph_update (\<lambda>f. upd2 f space a v)"

abbreviation set_ramint :: "nat \<Rightarrow> nat \<Rightarrow> u32 \<Rightarrow> dsp_core_t \<Rightarrow> dsp_core_t" where
  "set_ramint space a v \<equiv> ramint_update (\<lambda>f. upd2 f space a v)"

abbreviation set_ram :: "nat \<Rightarrow> nat \<Rightarrow> u32 \<Rightarrow> dsp_core_t \<Rightarrow> dsp_core_t" where
  "set_ram space a v \<equiv> ram_update (\<lambda>f. upd2 f space a v)"

abbreviation set_stack :: "nat \<Rightarrow> nat \<Rightarrow> u16 \<Rightarrow> dsp_core_t \<Rightarrow> dsp_core_t" where
  "set_stack i a v \<equiv> stack_update (\<lambda>f. upd2 f i a v)"

definition raise_fault :: "dsp_error \<Rightarrow> dsp_core_t \<Rightarrow> dsp_core_t" where
  "raise_fault e s = (case fault s of None \<Rightarrow> s\<lparr>fault := Some e\<rparr> | Some _ \<Rightarrow> s)"

text \<open>The status register, written \<open>&= BITMASK(16)-m\<close> then \<open>|= v\<close> throughout the sources.\<close>

abbreviation SR :: "dsp_core_t \<Rightarrow> u32" where
  "SR s \<equiv> registers s DSP_REG_SR"

definition sr_and :: "u32 \<Rightarrow> dsp_core_t \<Rightarrow> dsp_core_t" where
  "sr_and m s = setreg DSP_REG_SR (SR s AND m) s"

definition sr_or :: "u32 \<Rightarrow> dsp_core_t \<Rightarrow> dsp_core_t" where
  "sr_or v s = setreg DSP_REG_SR (SR s OR v) s"

end
