(* ===== verification/Dsp_Host.thy ===== *)
theory Dsp_Host
  imports Dsp_State
begin

text \<open>
  \<open>src/src/dsp_core.c\<close>: initialisation, shutdown and reset of the DSP emulation, the
  pause/resume functions, and the host port through which the m68k side and the DSP exchange
  words. Locking is not modelled further: a host access and the host port part of an instruction
  are atomic steps.
\<close>

abbreviation (input) CPU_HOST_ICR :: nat where "CPU_HOST_ICR \<equiv> 0x00"
abbreviation (input) CPU_HOST_CVR :: nat where "CPU_HOST_CVR \<equiv> 0x01"
abbreviation (input) CPU_HOST_ISR :: nat where "CPU_HOST_ISR \<equiv> 0x02"
abbreviation (input) CPU_HOST_IVR :: nat where "CPU_HOST_IVR \<equiv> 0x03"
abbreviation (input) CPU_HOST_TX0 :: nat where "CPU_HOST_TX0 \<equiv> 0x04"
abbreviation (input) CPU_HOST_RXH :: nat where "CPU_HOST_RXH \<equiv> 0x05"
abbreviation (input) CPU_HOST_RXM :: nat where "CPU_HOST_RXM \<equiv> 0x06"
abbreviation (input) CPU_HOST_RXL :: nat where "CPU_HOST_RXL \<equiv> 0x07"
abbreviation (input) CPU_HOST_TXH :: nat where "CPU_HOST_TXH \<equiv> 0x05"
abbreviation (input) CPU_HOST_TXM :: nat where "CPU_HOST_TXM \<equiv> 0x06"
abbreviation (input) CPU_HOST_TXL :: nat where "CPU_HOST_TXL \<equiv> 0x07"

abbreviation (input) CPU_HOST_CVR_HC :: nat where "CPU_HOST_CVR_HC \<equiv> 7"
abbreviation (input) CPU_HOST_ISR_RXDF :: nat where "CPU_HOST_ISR_RXDF \<equiv> 0"
abbreviation (input) CPU_HOST_ISR_TXDE :: nat where "CPU_HOST_ISR_TXDE \<equiv> 1"
abbreviation (input) CPU_HOST_ISR_TRDY :: nat where "CPU_HOST_ISR_TRDY \<equiv> 2"
abbreviation (input) CPU_HOST_ISR_HF2 :: nat where "CPU_HOST_ISR_HF2 \<equiv> 3"
abbreviation (input) CPU_HOST_ISR_HF3 :: nat where "CPU_HOST_ISR_HF3 \<equiv> 4"

abbreviation (input) DSP_HOST_HCR :: nat where "DSP_HOST_HCR \<equiv> 0x28"
abbreviation (input) DSP_HOST_HSR :: nat where "DSP_HOST_HSR \<equiv> 0x29"
abbreviation (input) DSP_HOST_HRX :: nat where "DSP_HOST_HRX \<equiv> 0x2b"
abbreviation (input) DSP_HOST_HTX :: nat where "DSP_HOST_HTX \<equiv> 0x2b"
abbreviation (input) DSP_SSI_CRB :: nat where "DSP_SSI_CRB \<equiv> 0x2d"
abbreviation (input) DSP_SSI_SR :: nat where "DSP_SSI_SR \<equiv> 0x2e"
abbreviation (input) DSP_BCR :: nat where "DSP_BCR \<equiv> 0x3e"
abbreviation (input) DSP_IPR :: nat where "DSP_IPR \<equiv> 0x3f"

abbreviation (input) DSP_HOST_HCR_HRIE :: nat where "DSP_HOST_HCR_HRIE \<equiv> 0"
abbreviation (input) DSP_HOST_HCR_HTIE :: nat where "DSP_HOST_HCR_HTIE \<equiv> 1"
abbreviation (input) DSP_HOST_HCR_HCIE :: nat where "DSP_HOST_HCR_HCIE \<equiv> 2"
abbreviation (input) DSP_HOST_HSR_HRDF :: nat where "DSP_HOST_HSR_HRDF \<equiv> 0"
abbreviation (input) DSP_HOST_HSR_HTDE :: nat where "DSP_HOST_HSR_HTDE \<equiv> 1"
abbreviation (input) DSP_HOST_HSR_HCP :: nat where "DSP_HOST_HSR_HCP \<equiv> 2"
abbreviation (input) DSP_HOST_HSR_HF0 :: nat where "DSP_HOST_HSR_HF0 \<equiv> 3"
abbreviation (input) DSP_HOST_HSR_HF1 :: nat where "DSP_HOST_HSR_HF1 \<equiv> 4"

abbreviation (input) DSP_INTERRUPT_NONE :: u16 where "DSP_INTERRUPT_NONE \<equiv> 0"
abbreviation (input) DSP_INTERRUPT_FAST :: u16 where "DSP_INTERRUPT_FAST \<equiv> 1"
abbreviation (input) DSP_INTERRUPT_LONG :: u16 where "DSP_INTERRUPT_LONG \<equiv> 2"

abbreviation (input) ISR :: "dsp_core_t \<Rightarrow> u8" where
  "ISR s \<equiv> hostport s CPU_HOST_ISR"

abbreviation (input) HSR :: "dsp_core_t \<Rightarrow> u32" where
  "HSR s \<equiv> periph s DSP_SPACE_X DSP_HOST_HSR"

text \<open>
  The tables of \<open>dsp_core_init\<close>. The sine table comes from the C library: \<open>sine i\<close>
  stands for \<open>(Sint32)(sin(src) * 8388608.0)\<close> at step \<open>i\<close>.
\<close>

definition sine_entry :: "int \<Rightarrow> u32" where
  "sine_entry dest =
     (let dest = (if dest > 8388607 then 8388607
                  else if dest < - 8388608 then - 8388608 else dest)
      in word_of_int dest AND 0x00ffffff)"

definition init_sine :: "(nat \<Rightarrow> int) \<Rightarrow> (nat \<Rightarrow> nat \<Rightarrow> u32) \<Rightarrow> (nat \<Rightarrow> nat \<Rightarrow> u32)" where
  "init_sine sine t = fold (\<lambda>i rom. upd2 rom DSP_SPACE_Y (0x100 + i) (sine_entry (sine i))) [0..<256] t"

definition mulaw_base :: "u32 list" where
  "mulaw_base = [0x7d7c, 0x3e7c, 0x1efc, 0x0f3c, 0x075c, 0x036c, 0x0174, 0x0078]"

definition init_mulaw :: "(nat \<Rightarrow> nat \<Rightarrow> u32) \<Rightarrow> (nat \<Rightarrow> nat \<Rightarrow> u32)" where
  "init_mulaw t =
     fst (fold (\<lambda>i (rom, position, offset).
       let value = push_bit 8 (mulaw_base ! i);
           (rom, position, value) =
             fold (\<lambda>j (rom, position, value).
               (upd2 rom DSP_SPACE_X position value, position + 1, value - offset))
             [0..<16] (rom, position, value)
       in (rom, position, drop_bit 1 offset)) [0..<8] (t, 0x0100, 0x040000 :: u32))"

definition multiply_base :: "int list" where
  "multiply_base = [0x1580, 0x0ac0, 0x5600, 0x2b00, 0x1580, 0x0058, 0x0560, 0x02b0]"

definition multiply_col :: "int list" where
  "multiply_col = [0x10, 0x01, 0x04, 0x02]"

definition multiply_line :: "int list" where
  "multiply_line = [0x40, 0x04, 0x10, 0x08]"

definition base_values :: "int list" where
  "base_values = [0, - 1, 2, 1]"

definition init_alaw :: "(nat \<Rightarrow> nat \<Rightarrow> u32) \<Rightarrow> (nat \<Rightarrow> nat \<Rightarrow> u32)" where
  "init_alaw t =
     fst (fold (\<lambda>i (rom, pos).
       let alawbase = multiply_base ! i * 2 ^ 8 in
       fold (\<lambda>j (rom, pos).
         let alawbase1 = alawbase + (base_values ! j * multiply_line ! (i mod 4)) * 2 ^ 12 in
         fold (\<lambda>k (rom, pos).
           let alawbase2 = alawbase1 + (base_values ! k * multiply_col ! (i mod 4)) * 2 ^ 12
           in (upd2 rom DSP_SPACE_X pos (word_of_int alawbase2), pos + 1))
         [0..<4] (rom, pos))
       [0..<4] (rom, pos)) [0..<8] (t, 0x0180))"

text \<open>All members cleared, as \<open>memset\<close> leaves them.\<close>

definition cleared_core :: "dsp_core_t" where
  "cleared_core = \<lparr>
     thread = False, semaphore = None, mutex = False, use_thread = False, running = False,
     pc = 0, registers = (\<lambda>_. 0), stack = (\<lambda>_ _. 0), ram = (\<lambda>_ _. 0), rom = (\<lambda>_ _. 0),
     ramint = (\<lambda>_ _. 0), periph = (\<lambda>_ _. 0), hostport = (\<lambda>_. 0), loop_rep = 0, swi_inter = 0,
     bootstrap_pos = 0, interrupt_state = 0, interrupt_instr_fetch = 0, interrupt_save_pc = 0,
     cur_inst_len = 0, cur_inst = 0, tmp_parmove_src = (\<lambda>_ _. 0),
     tmp_parmove_dest = (\<lambda>_ _. dsp_address 0), tmp_parmove_start = (\<lambda>_. 0),
     tmp_parmove_len = (\<lambda>_. 0), tmp_parmove_type = (\<lambda>_. 0), tmp_parmove_space = (\<lambda>_. 0),
     pc_on_rep = 0, host_waits = [], fault = None \<rparr>"

lemma cleared_core_simps [simp]:
  "registers cleared_core r = 0" "stack cleared_core i j = 0" "ram cleared_core i j = 0"
  "rom cleared_core i j = 0" "ramint cleared_core i j = 0" "periph cleared_core i j = 0"
  "hostport cleared_core i = 0" "pc cleared_core = 0" "fault cleared_core = None"
  "running cleared_core = False" "use_thread cleared_core = False" "semaphore cleared_core = None"
  "bootstrap_pos cleared_core = 0" "host_waits cleared_core = []" "loop_rep cleared_core = 0"
  "interrupt_state cleared_core = 0" "swi_inter cleared_core = 0" "pc_on_rep cleared_core = 0"
  "thread cleared_core = False" "mutex cleared_core = False" "cur_inst cleared_core = 0"
  by (simp_all add: cleared_core_def)

definition dsp_core_init :: "(nat \<Rightarrow> int) \<Rightarrow> bool \<Rightarrow> dsp_core_t" where
  "dsp_core_init sine threaded =
     (let s = cleared_core;
          s = s\<lparr>rom := init_sine sine (rom s)\<rparr>;
          s = s\<lparr>rom := init_mulaw (rom s)\<rparr>;
          s = s\<lparr>rom := init_alaw (rom s)\<rparr>
      in s\<lparr>use_thread := threaded\<rparr>)"

text \<open>
  \<open>resumeThread\<close> through its function pointer: \<open>resumeThreadThread\<close> or
  \<open>resumeThreadNull\<close>. The call on a NULL semaphore has no effect.
\<close>

definition resumeThread :: "dsp_core_t \<Rightarrow> dsp_core_t" where
  "resumeThread s =
     (if use_thread s then
        (case semaphore s of
           None \<Rightarrow> s
         | Some v \<Rightarrow> if v = 0 then s\<lparr>semaphore := Some (v + 1)\<rparr> else s)
      else s)"

text \<open>
  \<open>SDL_WaitThread\<close> returns when the DSP thread has left its loop, which it does at the next
  instruction boundary because \<open>running\<close> is 0.
\<close>

definition dsp_core_shutdown :: "dsp_core_t \<Rightarrow> dsp_core_t" where
  "dsp_core_shutdown s =
     (let s = s\<lparr>running := False\<rparr>;
          s = (if thread s then (resumeThread s)\<lparr>thread := False\<rparr> else s);
          s = (if semaphore s \<noteq> None then s\<lparr>semaphore := None\<rparr> else s)
      in if mutex s then s\<lparr>mutex := False\<rparr> else s)"

definition dsp_core_reset :: "dsp_core_t \<Rightarrow> dsp_core_t" where
  "dsp_core_reset s =
     (let s = dsp_core_shutdown s;
          s = s\<lparr>periph := (\<lambda>_ _. 0), stack := (\<lambda>_ _. 0), registers := (\<lambda>_. 0)\<rparr>;
          s = s\<lparr>bootstrap_pos := 0\<rparr>;
          s = s\<lparr>pc := 0x0000\<rparr>;
          s = setreg DSP_REG_OMR 0x02 s;
          s = fold (\<lambda>i. setreg (DSP_REG_M0 + i) 0x00ffff) [0..<8] s;
          s = s\<lparr>interrupt_state := DSP_INTERRUPT_NONE, interrupt_instr_fetch := - 1,
                 interrupt_save_pc := - 1, swi_inter := 0\<rparr>;
          s = set_periph DSP_SPACE_X DSP_HOST_HSR (push_bit DSP_HOST_HSR_HTDE 1) s;
          s = set_hostport CPU_HOST_CVR 0x12 s;
          s = set_hostport CPU_HOST_ISR
                (push_bit CPU_HOST_ISR_TRDY 1 OR push_bit CPU_HOST_ISR_TXDE 1) s;
          s = set_hostport CPU_HOST_IVR 0x0f s;
          s = set_periph DSP_SPACE_X DSP_IPR 0 s;
          s = set_periph DSP_SPACE_X DSP_BCR 0xffff s;
          s = s\<lparr>loop_rep := 0\<rparr>
      in if use_thread s then
           (let s = (if semaphore s = None then s\<lparr>semaphore := Some 0\<rparr> else s);
                s = (if \<not> mutex s then s\<lparr>mutex := True\<rparr> else s)
            in if \<not> thread s then s\<lparr>thread := True\<rparr> else s)
         else s)"

text \<open>CPU <-> DSP host interface transfers.\<close>

definition dsp_core_hostport_update_trdy :: "dsp_core_t \<Rightarrow> dsp_core_t" where
  "dsp_core_hostport_update_trdy s =
     (let s = set_hostport CPU_HOST_ISR (ISR s AND (0xff - push_bit CPU_HOST_ISR_TRDY 1)) s;
          trdy = ucast (drop_bit CPU_HOST_ISR_TXDE (ISR s)) AND NOT (drop_bit DSP_HOST_HSR_HRDF (HSR s)) :: u32
      in set_hostport CPU_HOST_ISR (ISR s OR ucast (push_bit CPU_HOST_ISR_TRDY (trdy AND 1))) s)"

definition dsp_core_dsp2host :: "dsp_core_t \<Rightarrow> dsp_core_t" where
  "dsp_core_dsp2host s =
     (if has_bit (ISR s) CPU_HOST_ISR_RXDF then s
      else if has_bit (HSR s) DSP_HOST_HSR_HTDE then s
      else
        (let s = set_hostport CPU_HOST_RXL (ucast (periph s DSP_SPACE_X DSP_HOST_HTX)) s;
             s = set_hostport CPU_HOST_RXM (ucast (drop_bit 8 (periph s DSP_SPACE_X DSP_HOST_HTX))) s;
             s = set_hostport CPU_HOST_RXH (ucast (drop_bit 16 (periph s DSP_SPACE_X DSP_HOST_HTX))) s;
             s = set_periph DSP_SPACE_X DSP_HOST_HSR (HSR s OR push_bit DSP_HOST_HSR_HTDE 1) s
         in set_hostport CPU_HOST_ISR (ISR s OR push_bit CPU_HOST_ISR_RXDF 1) s))"

definition dsp_core_host2dsp :: "dsp_core_t \<Rightarrow> dsp_core_t" where
  "dsp_core_host2dsp s =
     (if has_bit (ISR s) CPU_HOST_ISR_TXDE then s
      else if has_bit (HSR s) DSP_HOST_HSR_HRDF then s
      else
        (let s = set_periph DSP_SPACE_X DSP_HOST_HRX (ucast (hostport s CPU_HOST_TXL)) s;
             s = set_periph DSP_SPACE_X DSP_HOST_HRX
                   (periph s DSP_SPACE_X DSP_HOST_HRX OR push_bit 8 (ucast (hostport s CPU_HOST_TXM))) s;
             s = set_periph DSP_SPACE_X DSP_HOST_HRX
                   (periph s DSP_SPACE_X DSP_HOST_HRX OR push_bit 16 (ucast (hostport s CPU_HOST_TXH))) s;
             s = set_periph DSP_SPACE_X DSP_HOST_HSR (HSR s OR push_bit DSP_HOST_HSR_HRDF 1) s;
             s = set_hostport CPU_HOST_ISR (ISR s OR push_bit CPU_HOST_ISR_TXDE 1) s
         in dsp_core_hostport_update_trdy s))"

definition dsp_core_hostport_dspread :: "dsp_core_t \<Rightarrow> dsp_core_t" where
  "dsp_core_hostport_dspread s =
     (let s = set_periph DSP_SPACE_X DSP_HOST_HSR (HSR s AND (0xff - push_bit DSP_HOST_HSR_HRDF 1)) s;
          s = dsp_core_hostport_update_trdy s
      in dsp_core_host2dsp s)"

definition dsp_core_hostport_dspwrite :: "dsp_core_t \<Rightarrow> dsp_core_t" where
  "dsp_core_hostport_dspwrite s =
     (let s = set_periph DSP_SPACE_X DSP_HOST_HSR (HSR s AND (0xff - push_bit DSP_HOST_HSR_HTDE 1)) s
      in dsp_core_dsp2host s)"

definition dsp_core_hostport_cpuread :: "dsp_core_t \<Rightarrow> dsp_core_t" where
  "dsp_core_hostport_cpuread s =
     (let s = set_hostport CPU_HOST_ISR (ISR s AND (0xff - push_bit CPU_HOST_ISR_RXDF 1)) s
      in dsp_core_dsp2host s)"

definition dsp_core_hostport_cpuwrite :: "dsp_core_t \<Rightarrow> dsp_core_t" where
  "dsp_core_hostport_cpuwrite s =
     (let s = set_hostport CPU_HOST_ISR (ISR s AND (0xff - push_bit CPU_HOST_ISR_TXDE 1)) s;
          s = dsp_core_hostport_update_trdy s
      in dsp_core_host2dsp s)"

definition dsp_core_read_host :: "nat \<Rightarrow> dsp_core_t \<Rightarrow> u8 \<times> dsp_core_t" where
  "dsp_core_read_host addr s =
     (let s = (if addr < 8 then s else raise_fault HostIndex s);
          value = hostport s addr;
          s = (if addr = CPU_HOST_RXL then resumeThread (dsp_core_hostport_cpuread s) else s)
      in (value, s))"

text \<open>The bootstrap branch of \<open>dsp_core_write_host\<close>: one word of the boot program.\<close>

definition bootstrap_word :: "dsp_core_t \<Rightarrow> dsp_core_t" where
  "bootstrap_word s =
     (let s = (if bootstrap_pos s < 0x200 then s else raise_fault BootstrapIndex s);
          s = set_ramint DSP_SPACE_P (unat (bootstrap_pos s))
                (push_bit 16 (ucast (hostport s CPU_HOST_TXH)) OR
                 push_bit 8 (ucast (hostport s CPU_HOST_TXM)) OR
                 ucast (hostport s CPU_HOST_TXL)) s;
          s = s\<lparr>bootstrap_pos := bootstrap_pos s + 1\<rparr>
      in if bootstrap_pos s = 0x200 then resumeThread (s\<lparr>running := True\<rparr>) else s)"

definition dsp_core_write_host :: "nat \<Rightarrow> u8 \<Rightarrow> dsp_core_t \<Rightarrow> dsp_core_t" where
  "dsp_core_write_host addr value s =
     (if addr = CPU_HOST_ICR then
        (let s = set_hostport CPU_HOST_ICR (value AND 0xfb) s;
             hf = push_bit DSP_HOST_HSR_HF1 1 OR push_bit DSP_HOST_HSR_HF0 1;
             s = set_periph DSP_SPACE_X DSP_HOST_HSR (HSR s AND (0xff - hf)) s
         in set_periph DSP_SPACE_X DSP_HOST_HSR (HSR s OR (ucast (hostport s CPU_HOST_ICR) AND hf)) s)
      else if addr = CPU_HOST_CVR then
        (let s = set_hostport CPU_HOST_CVR (value AND 0x9f) s
         in if has_bit value 7
            then resumeThread (set_periph DSP_SPACE_X DSP_HOST_HSR (HSR s OR push_bit DSP_HOST_HSR_HCP 1) s)
            else s)
      else if addr = CPU_HOST_ISR \<or> addr = CPU_HOST_TX0 then s
      else if addr = CPU_HOST_IVR \<or> addr = CPU_HOST_TXH \<or> addr = CPU_HOST_TXM then
        set_hostport addr value s
      else if addr = CPU_HOST_TXL then
        (let s = set_hostport CPU_HOST_TXL value s
         in if \<not> running s then bootstrap_word s
            else resumeThread (dsp_core_hostport_cpuwrite s))
      else s)"

text \<open>One access of the m68k side, and a sequence of them.\<close>

primrec host_access :: "host_op \<Rightarrow> dsp_core_t \<Rightarrow> dsp_core_t" where
  "host_access (HostRead addr) s = snd (dsp_core_read_host addr s)"
| "host_access (HostWrite addr value) s = dsp_core_write_host addr value s"

text \<open>
  \<open>SDL_SemWait\<close> of \<open>pauseThreadThread\<close>: while the semaphore is 0 the m68k thread
  performs the next accesses of \<open>host_waits\<close>; the wait is over at the first one that posts
  the semaphore. If none does the DSP thread stays blocked for ever.
\<close>

primrec sem_wait :: "host_op list \<Rightarrow> dsp_core_t \<Rightarrow> dsp_core_t" where
  "sem_wait [] s =
     (case semaphore s of
        Some (Suc v) \<Rightarrow> s\<lparr>semaphore := Some v, host_waits := []\<rparr>
      | _ \<Rightarrow> raise_fault Blocked (s\<lparr>host_waits := []\<rparr>))"
| "sem_wait (hop # ops) s =
     (case semaphore s of
        Some (Suc v) \<Rightarrow> s\<lparr>semaphore := Some v, host_waits := hop # ops\<rparr>
      | _ \<Rightarrow> sem_wait ops (host_access hop s))"

definition pauseThread :: "dsp_core_t \<Rightarrow> dsp_core_t" where
  "pauseThread s =
     (if use_thread s then
        (case semaphore s of None \<Rightarrow> s | Some _ \<Rightarrow> sem_wait (host_waits s) s)
      else s)"

end
