(* ===== verification/Dsp_Tables.thy ===== *)
theory Dsp_Tables
  imports Dsp_Host
begin

text \<open>
  The tables of the data ROM (\<open>dsp_core_init\<close>, \<open>src/src/dsp_core.c\<close>) against the
  expansion laws of ITU-T G.711.
\<close>




















end
