(* ===== verification/Dsp_Memory.thy ===== *)
theory Dsp_Memory
  imports Dsp_Host
begin

text \<open>
  Memory accesses and the hardware stack (\<open>src/src/dsp_cpu.c\<close>, sections ``Read/Write memory
  functions'' and ``Stack push/pop''). A read returns the value and the new state, because
  reading the host receive register moves data through the host port.
\<close>

abbreviation (input) DSP_RAMSIZE :: u16 where "DSP_RAMSIZE \<equiv> 32768"

definition read_memory_p :: "u16 \<Rightarrow> dsp_core_t \<Rightarrow> u32" where
  "read_memory_p address s =
     (if address < 0x200 then ramint s DSP_SPACE_P (unat address) AND BITMASK 24
      else ram s DSP_SPACE_P (unat (address AND (DSP_RAMSIZE - 1))) AND BITMASK 24)"

definition read_memory :: "nat \<Rightarrow> u16 \<Rightarrow> dsp_core_t \<Rightarrow> u32 \<times> dsp_core_t" where
  "read_memory space address s =
     (if address < 0x100 then (ramint s space (unat address) AND BITMASK 24, s)
      else if space = DSP_SPACE_P then (read_memory_p address s, s)
      else if has_bit (registers s DSP_REG_OMR) DSP_OMR_DE \<and> address < 0x200
      then (rom s space (unat address) AND BITMASK 24, s)
      else if address \<ge> 0xffc0 then
        (let s = (if space = DSP_SPACE_X \<and> address = 0xffc0 + of_nat DSP_HOST_HRX
                  then dsp_core_hostport_dspread s else s)
         in (periph s space (unat (address - 0xffc0)) AND BITMASK 24, s))
      else
        (let address = (if space = DSP_SPACE_X then address + drop_bit 1 DSP_RAMSIZE else address)
         in (ram s DSP_SPACE_P (unat (address AND (DSP_RAMSIZE - 1))) AND BITMASK 24, s)))"

text \<open>The peripheral branch of \<open>write_memory_raw\<close> for X space.\<close>

definition write_periph_x :: "nat \<Rightarrow> u32 \<Rightarrow> dsp_core_t \<Rightarrow> dsp_core_t" where
  "write_periph_x a value s =
     (if a = DSP_HOST_HTX then
        dsp_core_hostport_dspwrite (set_periph DSP_SPACE_X DSP_HOST_HTX value s)
      else if a = DSP_HOST_HCR then
        (let s = set_periph DSP_SPACE_X DSP_HOST_HCR value s;
             hf = push_bit CPU_HOST_ISR_HF3 1 OR push_bit CPU_HOST_ISR_HF2 1 :: u32;
             s = set_hostport CPU_HOST_ISR (ISR s AND ucast (BITMASK 8 - hf)) s
         in set_hostport CPU_HOST_ISR (ISR s OR ucast (periph s DSP_SPACE_X DSP_HOST_HCR AND hf)) s)
      else if a = DSP_HOST_HSR then s
      else set_periph DSP_SPACE_X a value s)"

definition write_memory :: "nat \<Rightarrow> u16 \<Rightarrow> u32 \<Rightarrow> dsp_core_t \<Rightarrow> dsp_core_t" where
  "write_memory space address value s =
     (let value = value AND BITMASK 24;
          rom_space = has_bit (registers s DSP_REG_OMR) DSP_OMR_DE \<and> address < 0x200;
          external = (\<lambda>address. set_ram DSP_SPACE_P (unat (address AND (DSP_RAMSIZE - 1))) value s)
      in if address < 0x100 then set_ramint space (unat address) value s
         else if space = DSP_SPACE_X then
           (if rom_space then s
            else if address \<ge> 0xffc0 then write_periph_x (unat (address - 0xffc0)) value s
            else external (address + drop_bit 1 DSP_RAMSIZE))
         else if space = DSP_SPACE_Y then
           (if rom_space then s
            else if address \<ge> 0xffc0 then set_periph DSP_SPACE_Y (unat (address - 0xffc0)) value s
            else external address)
         else if space = DSP_SPACE_P then
           (if address < 0x200 then set_ramint DSP_SPACE_P (unat address) value s
            else external address)
         else external address)"

text \<open>
  The stack. \<open>Uint16 stack[2][15]\<close> has rows of 15 entries, so an index above 14 is a fault.
  \<open>dsp_stack_pop\<close> stores through two pointers, and stores nothing when the stack is empty:
  the result is \<open>None\<close> then.
\<close>

definition stack_index :: "u32 \<Rightarrow> dsp_core_t \<Rightarrow> dsp_core_t" where
  "stack_index i s = (if i < 15 then s else raise_fault StackIndex s)"

definition dsp_stack_push :: "u32 \<Rightarrow> u32 \<Rightarrow> dsp_core_t \<Rightarrow> dsp_core_t" where
  "dsp_stack_push curpc cursr s =
     (if registers s DSP_REG_SP = 0x0f then pauseThread s
      else
        (let s = setreg DSP_REG_SP (registers s DSP_REG_SP + 1) s;
             s = setreg DSP_REG_SSH (registers s DSP_REG_SSH + 1) s;
             s = setreg DSP_REG_SSL (registers s DSP_REG_SSL + 1) s;
             s = stack_index (registers s DSP_REG_SSH) s;
             s = set_stack 0 (unat (registers s DSP_REG_SSH)) (ucast curpc) s;
             s = stack_index (registers s DSP_REG_SSL) s
         in set_stack 1 (unat (registers s DSP_REG_SSL)) (ucast cursr) s))"

definition dsp_stack_pop :: "dsp_core_t \<Rightarrow> (u32 \<times> u32) option \<times> dsp_core_t" where
  "dsp_stack_pop s =
     (if registers s DSP_REG_SP = 0x00 then (None, pauseThread s)
      else
        (let s = stack_index (registers s DSP_REG_SSH) s;
             newpc = ucast (stack s 0 (unat (registers s DSP_REG_SSH)));
             s = stack_index (registers s DSP_REG_SSL) s;
             newsr = ucast (stack s 1 (unat (registers s DSP_REG_SSL)));
             s = setreg DSP_REG_SP (registers s DSP_REG_SP - 1) s;
             s = setreg DSP_REG_SSH (registers s DSP_REG_SSH - 1) s;
             s = setreg DSP_REG_SSL (registers s DSP_REG_SSL - 1) s
         in (Some (newpc, newsr), s)))"

section \<open>The memory map\<close>

text \<open>
  The memory as the programmer sees it: each address of a space names one cell, the contents are a
  function of the cell. Peripheral cells are not storage and are treated with the host port.
\<close>

datatype cell = Internal nat nat | External nat | Data_Rom nat nat | Peripheral nat nat

definition cell_of :: "bool \<Rightarrow> nat \<Rightarrow> u16 \<Rightarrow> cell" where
  "cell_of de space address =
     (if address < 0x100 then Internal space (unat address)
      else if space = DSP_SPACE_P then
        (if address < 0x200 then Internal DSP_SPACE_P (unat address) else External (unat address mod 0x8000))
      else if de \<and> address < 0x200 then Data_Rom space (unat address)
      else if address \<ge> 0xffc0 then Peripheral space (unat address - 0xffc0)
      else External ((unat address + (if space = DSP_SPACE_X then 0x4000 else 0)) mod 0x8000))"

primrec content :: "dsp_core_t \<Rightarrow> cell \<Rightarrow> u32" where
  "content s (Internal i a) = ramint s i a AND BITMASK 24"
| "content s (External a) = ram s DSP_SPACE_P a AND BITMASK 24"
| "content s (Data_Rom i a) = rom s i a AND BITMASK 24"
| "content s (Peripheral i a) = periph s i a AND BITMASK 24"

primrec writable :: "cell \<Rightarrow> bool" where
  "writable (Internal i a) = True"
| "writable (External a) = True"
| "writable (Data_Rom i a) = False"
| "writable (Peripheral i a) = False"


abbreviation is_peripheral :: "cell \<Rightarrow> bool" where
  "is_peripheral c \<equiv> \<exists>i a. c = Peripheral i a"

abbreviation DE :: "dsp_core_t \<Rightarrow> bool" where
  "DE s \<equiv> bit (registers s DSP_REG_OMR) DSP_OMR_DE"

lemma external_index: "unat (a AND (DSP_RAMSIZE - 1)) = unat a mod 0x8000"
proof -
  have "a AND 32767 = take_bit 15 a"
    by (simp add: take_bit_eq_mask mask_eq_exp_minus_1)
  then have "a AND 32767 = a mod 32768" by (simp add: take_bit_eq_mod)
  then show ?thesis by (simp add: unat_mod)
qed

lemma external_index_x: "unat ((a + drop_bit 1 DSP_RAMSIZE) AND (DSP_RAMSIZE - 1)) = (unat a + 0x4000) mod 0x8000"
proof -
  have "unat (a + 0x4000 :: u16) mod 0x8000 = (unat a + 0x4000) mod 0x8000"
    by (simp add: unat_word_ariths mod_mod_cancel)
  then show ?thesis by (simp add: external_index [simplified])
qed

lemma periph_index: "address \<ge> 0xffc0 \<Longrightarrow> unat (address - 0xffc0 :: u16) = unat address - 0xffc0"
  by (simp add: unat_sub word_le_nat_alt)



lemma read_memory_cell:
  assumes "\<not> is_peripheral (cell_of (DE s) space address)"
  shows "read_memory space address s = (content s (cell_of (DE s) space address), s)"
  using assms external_index [of address] external_index_x [of address]
  by (auto simp: read_memory_def read_memory_p_def cell_of_def Let_def split: if_splits)

lemma write_memory_cell:
  assumes "\<not> is_peripheral (cell_of (DE s) space address)" and "space < 3"
  shows "content (write_memory space address value s) =
    (if writable (cell_of (DE s) space address)
     then (content s)(cell_of (DE s) space address := value AND BITMASK 24) else content s)"
proof
  fix c
  show "content (write_memory space address value s) c =
    (if writable (cell_of (DE s) space address)
     then (content s)(cell_of (DE s) space address := value AND BITMASK 24) else content s) c"
    using assms external_index [of address] external_index_x [of address]
    by (cases c) (auto simp: write_memory_def cell_of_def Let_def upd2_apply split: if_splits)
qed

text \<open>A store: what was written to an address is read back, other addresses keep their content.\<close>

locale word_store =
  fixes rd :: "'a \<Rightarrow> 's \<Rightarrow> 'w" and wr :: "'a \<Rightarrow> 'w \<Rightarrow> 's \<Rightarrow> 's" and ok :: "'a \<Rightarrow> bool" and norm :: "'w \<Rightarrow> 'w"
  assumes rd_same: "ok a \<Longrightarrow> rd a (wr a v s) = norm v"
    and rd_other: "ok a \<Longrightarrow> ok b \<Longrightarrow> a \<noteq> b \<Longrightarrow> rd b (wr a v s) = rd b s"
begin

lemma rd_block_other:
  "ok b \<Longrightarrow> list_all ok (map fst avs) \<Longrightarrow> b \<notin> set (map fst avs) \<Longrightarrow> rd b (fold (\<lambda>(a, v). wr a v) avs s) = rd b s"
  by (induction avs arbitrary: s) (auto simp: rd_other)

lemma rd_block:
  "list_all ok (map fst avs) \<Longrightarrow> distinct (map fst avs) \<Longrightarrow> (a, v) \<in> set avs \<Longrightarrow>
    rd a (fold (\<lambda>(a, v). wr a v) avs s) = norm v"
proof (induction avs arbitrary: s)
  case (Cons av avs)
  obtain b w where av: "av = (b, w)" by fastforce
  show ?case
  proof (cases "(a, v) \<in> set avs")
    case True
    then show ?thesis using Cons by (simp add: av)
  next
    case False
    then have "a = b" "v = w" using Cons.prems(3) by (simp_all add: av)
    then show ?thesis using Cons.prems rd_block_other [of b avs "wr b w s"] by (simp add: av rd_same)
  qed
qed simp

end

definition data_address :: "u16 \<Rightarrow> bool" where
  "data_address address \<longleftrightarrow> address < 0x100 \<or> (0x200 \<le> address \<and> address < 0x8000)"

lemma DE_write_memory [simp]: "registers (write_memory space address value s) = registers s"
  by (simp add: write_memory_def write_periph_x_def dsp_core_hostport_dspwrite_def dsp_core_dsp2host_def Let_def)


lemma data_address_cell:
  assumes "data_address a" "space < 2"
  shows "cell_of de space a \<noteq> Peripheral i j" "writable (cell_of de space a)"
  using assms by (auto simp: cell_of_def data_address_def word_less_nat_alt word_le_nat_alt)

lemma data_address_cell_of:
  assumes "data_address a"
  shows "cell_of de space a = (if unat a < 0x100 then Internal space (unat a)
    else External ((unat a + (if space = DSP_SPACE_X then 0x4000 else 0)) mod 0x8000))"
  using assms by (auto simp: cell_of_def data_address_def word_less_nat_alt word_le_nat_alt)

lemma data_address_distinct:
  assumes "data_address a" "data_address b" "a \<noteq> b"
  shows "cell_of de space a \<noteq> cell_of de space b"
proof -
  have w: "(x + 16384) mod 32768 = (if x < 16384 then x + 16384 else x - 16384)" if "x < 32768" for x :: nat
    using that by (simp add: mod_if)
  have "unat a < 32768" "unat b < 32768" "unat a \<noteq> unat b"
    using assms by (auto simp: data_address_def word_less_nat_alt word_unat_eq_iff)
  moreover from this have "(unat a + 16384) mod 32768 \<noteq> (unat b + 16384) mod 32768"
    using w [of "unat a"] w [of "unat b"] by (simp split: if_splits)
  ultimately show ?thesis
    unfolding data_address_cell_of [OF assms(1)] data_address_cell_of [OF assms(2)]
    by simp
qed


lemma data_store:
  assumes "space < 2"
  shows "word_store (\<lambda>a s. fst (read_memory space a s)) (write_memory space) data_address (\<lambda>v. v AND BITMASK 24)"
proof
  fix a b v s
  assume a: "data_address a"
  show "fst (read_memory space a (write_memory space a v s)) = v AND BITMASK 24"
    using assms a by (simp add: read_memory_cell write_memory_cell data_address_cell)
  show "fst (read_memory space b (write_memory space a v s)) = fst (read_memory space b s)"
    if "data_address b" "a \<noteq> b"
    using assms a that data_address_distinct [OF that(1) a, of "DE s" space]
    by (simp add: read_memory_cell write_memory_cell data_address_cell)
qed

interpretation x_store: word_store "\<lambda>a s. fst (read_memory DSP_SPACE_X a s)" "write_memory DSP_SPACE_X" data_address "\<lambda>v. v AND BITMASK 24"
  by (rule data_store) simp

interpretation y_store: word_store "\<lambda>a s. fst (read_memory DSP_SPACE_Y a s)" "write_memory DSP_SPACE_Y" data_address "\<lambda>v. v AND BITMASK 24"
  by (rule data_store) simp

section \<open>The hardware stack\<close>

primrec pops :: "('s \<Rightarrow> 'f option \<times> 's) \<Rightarrow> nat \<Rightarrow> 's \<Rightarrow> 'f option list \<times> 's" where
  "pops pop 0 s = ([], s)"
| "pops pop (Suc n) s = (let (f, s) = pop s; (fs, s) = pops pop n s in (f # fs, s))"

locale lifo =
  fixes good :: "'s \<Rightarrow> bool" and valid :: "'f \<Rightarrow> bool" and cap :: nat and frames :: "'s \<Rightarrow> 'f list"
    and push :: "'f \<Rightarrow> 's \<Rightarrow> 's" and pop :: "'s \<Rightarrow> 'f option \<times> 's"
  assumes push_law: "good s \<Longrightarrow> valid f \<Longrightarrow> length (frames s) < cap \<Longrightarrow>
      good (push f s) \<and> frames (push f s) = f # frames s"
    and pop_law: "good s \<Longrightarrow> frames s = f # fs \<Longrightarrow>
      fst (pop s) = Some f \<and> good (snd (pop s)) \<and> frames (snd (pop s)) = fs"
begin

lemma push_all:
  "good s \<Longrightarrow> list_all valid fs \<Longrightarrow> length (frames s) + length fs \<le> cap \<Longrightarrow>
    good (fold push fs s) \<and> frames (fold push fs s) = rev fs @ frames s"
  by (induction fs arbitrary: s) (auto simp: push_law)

lemma pop_all:
  "good s \<Longrightarrow> frames s = fs @ gs \<Longrightarrow>
    fst (pops pop (length fs) s) = map Some fs \<and> good (snd (pops pop (length fs) s))
    \<and> frames (snd (pops pop (length fs) s)) = gs"
proof (induction fs arbitrary: s)
  case (Cons f fs)
  note p = pop_law [of s f "fs @ gs"]
  from Cons.IH [of "snd (pop s)"] show ?case using p Cons.prems by (simp add: split_beta Let_def)
qed simp

lemma nesting:
  assumes "good s" "list_all valid fs" "length (frames s) + length fs \<le> cap"
  shows "fst (pops pop (length fs) (fold push fs s)) = map Some (rev fs)
    \<and> frames (snd (pops pop (length fs) (fold push fs s))) = frames s"
  using push_all [OF assms] pop_all [of "fold push fs s" "rev fs" "frames s"] by simp

end

text \<open>The frames, the last one first; \<open>SP\<close>, \<open>SSH\<close> and \<open>SSL\<close> move together.\<close>

definition stack_frames :: "dsp_core_t \<Rightarrow> (u32 \<times> u32) list" where
  "stack_frames s = map (\<lambda>i. (ucast (stack s 0 i), ucast (stack s 1 i))) (rev [1..<Suc (unat (registers s DSP_REG_SP))])"

definition stack_ok :: "dsp_core_t \<Rightarrow> bool" where
  "stack_ok s \<longleftrightarrow> registers s DSP_REG_SP \<le> 14 \<and> registers s DSP_REG_SSH = registers s DSP_REG_SP
     \<and> registers s DSP_REG_SSL = registers s DSP_REG_SP"

definition frame16 :: "u32 \<times> u32 \<Rightarrow> bool" where
  "frame16 f \<longleftrightarrow> unat (fst f) < 65536 \<and> unat (snd f) < 65536"

lemma ucast_16: "unat (w :: u32) < 65536 \<Longrightarrow> ucast (ucast w :: u16) = w"
  by (rule word_unat_eq_iff [THEN iffD2]) (simp add: unsigned_ucast_eq unsigned_take_bit_eq take_bit_nat_eq_self)

lemma stack_push_law:
  assumes "stack_ok s" "frame16 f" "length (stack_frames s) < 14"
  shows "stack_ok (dsp_stack_push (fst f) (snd f) s)"
    "stack_frames (dsp_stack_push (fst f) (snd f) s) = f # stack_frames s"
    "fault (dsp_stack_push (fst f) (snd f) s) = fault s"
proof -
  define n where "n = unat (registers s DSP_REG_SP)"
  have n: "n < 14" using assms(3) by (simp add: stack_frames_def n_def del: upt_Suc)
  have sp: "registers s DSP_REG_SP = of_nat n" by (simp add: n_def)
  have ss: "registers s DSP_REG_SSH = of_nat n" "registers s DSP_REG_SSL = of_nat n"
    using assms(1) by (simp_all add: stack_ok_def sp)
  have u: "unat (of_nat n + 1 :: u32) = Suc n" "unat (of_nat n :: u32) = n"
    using n by (simp_all add: unat_word_ariths unsigned_of_nat take_bit_nat_eq_self)
  have l: "(of_nat n + 1 :: u32) < 15" "(of_nat n + 1 :: u32) \<le> 14" "(of_nat n :: u32) \<noteq> 15"
    using n u by (auto simp: word_less_nat_alt word_le_nat_alt word_unat_eq_iff)
  show "stack_ok (dsp_stack_push (fst f) (snd f) s)" "fault (dsp_stack_push (fst f) (snd f) s) = fault s"
    using l by (simp_all add: dsp_stack_push_def stack_ok_def stack_index_def Let_def sp ss)
  have "map (\<lambda>i. (ucast (upd2 (upd2 (stack s) 0 (Suc n) x) 1 (Suc n) y 0 i),
      ucast (upd2 (upd2 (stack s) 0 (Suc n) x) 1 (Suc n) y 1 i))) (rev [1..<Suc n]) =
    map (\<lambda>i. (ucast (stack s 0 i), ucast (stack s 1 i))) (rev [1..<Suc n])" for x y
    by (auto simp: upd2_apply)
  then show "stack_frames (dsp_stack_push (fst f) (snd f) s) = f # stack_frames s"
    using l assms(2) ucast_16 [of "fst f"] ucast_16 [of "snd f"]
    by (simp add: dsp_stack_push_def stack_frames_def stack_index_def Let_def sp ss u frame16_def upd2_apply)
qed

lemma stack_pop_law:
  assumes "stack_ok s" "stack_frames s = f # fs"
  shows "fst (dsp_stack_pop s) = Some f" "stack_ok (snd (dsp_stack_pop s))"
    "stack_frames (snd (dsp_stack_pop s)) = fs" "fault (snd (dsp_stack_pop s)) = fault s"
proof -
  define n where "n = unat (registers s DSP_REG_SP) - 1"
  have "unat (registers s DSP_REG_SP) \<noteq> 0" using assms(2) by (intro notI) (simp add: stack_frames_def)
  then have sn: "unat (registers s DSP_REG_SP) = Suc n" by (simp add: n_def)
  then have sp: "registers s DSP_REG_SP = of_nat (Suc n)" by (simp flip: sn del: of_nat_Suc)
  have n: "Suc n \<le> 14" using assms(1) sn by (simp add: stack_ok_def word_le_nat_alt)
  have ss: "registers s DSP_REG_SSH = of_nat (Suc n)" "registers s DSP_REG_SSL = of_nat (Suc n)"
    using assms(1) by (simp_all add: stack_ok_def sp)
  have u: "unat (of_nat (Suc n) :: u32) = Suc n" "unat (of_nat n :: u32) = n"
    using n by (simp_all add: unsigned_of_nat take_bit_nat_eq_self del: of_nat_Suc)
  have l: "(of_nat (Suc n) :: u32) < 15" "(of_nat n :: u32) \<le> 14" "(of_nat (Suc n) :: u32) \<noteq> 0"
    using n u by (auto simp: word_less_nat_alt word_le_nat_alt word_unat_eq_iff simp del: of_nat_Suc)
  have f: "f = (ucast (stack s 0 (Suc n)), ucast (stack s 1 (Suc n)))"
    "fs = map (\<lambda>i. (ucast (stack s 0 i), ucast (stack s 1 i))) (rev [1..<Suc n])"
    using assms(2) by (auto simp: stack_frames_def sp u simp del: of_nat_Suc)
  have m: "of_nat (Suc n) - 1 = (of_nat n :: u32)" by simp
  show "fst (dsp_stack_pop s) = Some f" "stack_ok (snd (dsp_stack_pop s))"
    "stack_frames (snd (dsp_stack_pop s)) = fs" "fault (snd (dsp_stack_pop s)) = fault s"
    using l unfolding f
    by (simp_all add: dsp_stack_pop_def stack_ok_def stack_frames_def stack_index_def Let_def sp ss u m
        del: of_nat_Suc upt_Suc)
qed

interpretation hw_stack: lifo stack_ok frame16 14 stack_frames "\<lambda>f. dsp_stack_push (fst f) (snd f)" dsp_stack_pop
  by unfold_locales (simp_all add: stack_push_law stack_pop_law)

section \<open>Properties of memory and stack\<close>





text \<open>
  C16. Subroutine frames nest: up to a depth of 14, frames of 16-bit values that are pushed are popped
  in reverse order, and the stack is then as it was.
\<close>
theorem stack_nesting:
  assumes "stack_ok s" and "list_all frame16 fs" and "length (stack_frames s) + length fs \<le> 14"
  shows "fst (pops dsp_stack_pop (length fs) (fold (\<lambda>f. dsp_stack_push (fst f) (snd f)) fs s)) = map Some (rev fs)
    \<and> stack_frames (snd (pops dsp_stack_pop (length fs) (fold (\<lambda>f. dsp_stack_push (fst f) (snd f)) fs s)))
      = stack_frames s"
  using assms by (rule hw_stack.nesting)

theorem stack_nesting_witness:
  "fst (pops dsp_stack_pop (length [(1, 2), (3, 4)]) (fold (\<lambda>f. dsp_stack_push (fst f) (snd f)) [(1, 2), (3, 4)] cleared_core))
   = [Some (3, 4), Some (1, 2)]"
  using stack_nesting [of cleared_core "[(1, 2), (3, 4)]"]
  by (simp add: stack_ok_def stack_frames_def frame16_def del: pops.simps)



end
