(* ===== verification/Dsp_Ccr.thy ===== *)
theory Dsp_Ccr
  imports Dsp_Memory
begin

text \<open>
  Condition codes (\<open>src/src/dsp_cpu.c\<close>, sections ``Set/clear ccr bits'' and ``Condition
  code test'') and the rounding \<open>dsp_rnd56\<close>, which depends on the scaling mode of the status
  register.
\<close>

definition scaling_mode :: "dsp_core_t \<Rightarrow> u32" where
  "scaling_mode s = drop_bit DSP_SR_S0 (SR s) AND BITMASK 2"

definition dsp_ccr_extension :: "u32 \<Rightarrow> u32 \<Rightarrow> dsp_core_t \<Rightarrow> dsp_core_t" where
  "dsp_ccr_extension reg0 reg1 s =
     (let scaling = scaling_mode s;
          value = reg0 AND 0xff;
          finish = (\<lambda>value numbits.
            (let sr_extension = (if value = 0 \<or> value = BITMASK numbits then 0 else push_bit DSP_SR_E 1)
             in sr_or sr_extension (sr_and (BITMASK 16 - push_bit DSP_SR_E 1) s)))
      in if scaling = 0 then finish (push_bit 1 value OR (drop_bit 23 reg1 AND 1)) 9
         else if scaling = 1 then finish value 8
         else if scaling = 2 then finish (push_bit 2 value OR (drop_bit 22 reg1 AND 3)) 10
         else s)"

definition dsp_ccr_unnormalized :: "u32 \<Rightarrow> u32 \<Rightarrow> dsp_core_t \<Rightarrow> dsp_core_t" where
  "dsp_ccr_unnormalized reg0 reg1 s =
     (let scaling = scaling_mode s;
          finish = (\<lambda>value.
            sr_or (push_bit DSP_SR_U (of_flag (value = 0 \<or> value = BITMASK 2)))
              (sr_and (BITMASK 16 - push_bit DSP_SR_U 1) s))
      in if scaling = 0 then finish (drop_bit 22 reg1 AND 3)
         else if scaling = 1 then finish ((push_bit 1 reg0 AND 2) OR (drop_bit 23 reg1 AND 1))
         else if scaling = 2 then finish (drop_bit 21 reg1 AND 3)
         else s)"

definition dsp_ccr_negative :: "u32 \<Rightarrow> dsp_core_t \<Rightarrow> dsp_core_t" where
  "dsp_ccr_negative reg0 s =
     sr_or (push_bit DSP_SR_N (drop_bit 7 reg0 AND 1)) (sr_and (BITMASK 16 - push_bit DSP_SR_N 1) s)"

definition dsp_ccr_zero :: "u32 \<Rightarrow> u32 \<Rightarrow> u32 \<Rightarrow> dsp_core_t \<Rightarrow> dsp_core_t" where
  "dsp_ccr_zero reg0 reg1 reg2 s =
     (let zeroed = (if reg2 AND BITMASK 24 \<noteq> 0 then 0
                    else if reg1 AND BITMASK 24 \<noteq> 0 then 0
                    else if reg0 AND BITMASK 8 \<noteq> 0 then 0 else 1)
      in sr_or (push_bit DSP_SR_Z zeroed) (sr_and (BITMASK 16 - push_bit DSP_SR_Z 1) s))"

text \<open>The four updates in the order every arithmetic instruction performs them.\<close>

definition dsp_ccr_all :: "u32 \<Rightarrow> u32 \<Rightarrow> u32 \<Rightarrow> dsp_core_t \<Rightarrow> dsp_core_t" where
  "dsp_ccr_all reg0 reg1 reg2 s =
     dsp_ccr_zero reg0 reg1 reg2 (dsp_ccr_negative reg0
       (dsp_ccr_unnormalized reg0 reg1 (dsp_ccr_extension reg0 reg1 s)))"

definition CCR_BIT :: "u16 \<Rightarrow> nat \<Rightarrow> u16" where
  "CCR_BIT x y = drop_bit y x AND 1"

abbreviation (input) DSP_SR_NV :: nat where "DSP_SR_NV \<equiv> 8"
abbreviation (input) DSP_SR_ZUE :: nat where "DSP_SR_ZUE \<equiv> 9"
abbreviation (input) DSP_SR_ZNV :: nat where "DSP_SR_ZNV \<equiv> 10"

definition cc_code_map :: "nat list" where
  "cc_code_map = [DSP_SR_C, DSP_SR_NV, DSP_SR_Z, DSP_SR_N, DSP_SR_ZUE, DSP_SR_E, DSP_SR_L, DSP_SR_ZNV]"

definition dsp_calc_cc :: "u32 \<Rightarrow> dsp_core_t \<Rightarrow> bool" where
  "dsp_calc_cc cc_code s =
     (let value = ucast (SR s AND BITMASK 8) :: u16;
          value = value OR push_bit DSP_SR_NV (CCR_BIT value DSP_SR_N XOR CCR_BIT value DSP_SR_V);
          value = value OR push_bit DSP_SR_ZUE
            ((CCR_BIT value DSP_SR_Z OR (NOT (CCR_BIT value DSP_SR_U) AND NOT (CCR_BIT value DSP_SR_E))) AND 1);
          value = value OR push_bit DSP_SR_ZNV (CCR_BIT value DSP_SR_Z OR CCR_BIT value DSP_SR_NV)
      in ucast (CCR_BIT value (cc_code_map ! unat (cc_code AND BITMASK 3))) = drop_bit 3 cc_code AND 1)"

text \<open>Rounding; the condition codes \<open>dsp_add56\<close> returns are dropped, as in the source.\<close>

definition dsp_rnd56 :: "acc \<Rightarrow> dsp_core_t \<Rightarrow> acc" where
  "dsp_rnd56 dest s =
     (if has_bit (SR s) DSP_SR_S0 then
        (let (d0, d1, d2) = snd (dsp_add56 (0, 1, 0) dest);
             d1 = (if d2 = 0 \<and> d1 AND 1 = 0 then d1 AND (0xffffff - 0x3) else d1)
         in (d0, d1 AND 0xfffffe, 0))
      else if has_bit (SR s) DSP_SR_S1 then
        (let (d0, d1, d2) = snd (dsp_add56 (0, 0, push_bit 22 1) dest);
             d2 = (if d2 AND 0x7fffff = 0 then 0 else d2)
         in (d0, d1, d2 AND 0x800000))
      else
        (let (d0, d1, d2) = snd (dsp_add56 (0, 0, push_bit 23 1) dest);
             d1 = (if d2 = 0 then d1 AND 0xfffffe else d1)
         in (d0, d1, 0)))"

text \<open>Rounding to a multiple of \<open>2 ^ k\<close>, ties to the even multiple.\<close>

definition round_even :: "nat \<Rightarrow> nat \<Rightarrow> nat" where
  "round_even k v =
     (let q = v div 2 ^ k; r = v mod 2 ^ k; h = 2 ^ (k - 1)
      in (if r < h then q else if r > h then q + 1 else if even q then q else q + 1) * 2 ^ k)"

lemma round_even_add_half:
  assumes "0 < k"
  shows "round_even k v =
    (let w = v + 2 ^ (k - 1) in if w mod 2 ^ k = 0 then w - w mod 2 ^ Suc k else w - w mod 2 ^ k)"
proof -
  define q r h where d: "q = v div 2 ^ k" "r = v mod 2 ^ k" "h = (2::nat) ^ (k - 1)"
  have k2: "(2::nat) ^ k = 2 * h" using assms by (cases k) (auto simp: d)
  have h0: "0 < h" by (simp add: d)
  have v: "v = q * (2 * h) + r" and r: "r < 2 * h"
    unfolding k2 [symmetric] unfolding d by (rule div_mult_mod_eq [symmetric], simp)
  have vh: "v + h = (if r < h then q * (2 * h) + (r + h) else (q + 1) * (2 * h) + (r - h))"
    using v r by (auto simp: algebra_simps)
  have m1: "(v + h) mod (2 * h) = (if r < h then r + h else r - h)"
    using r by (cases "r < h") (simp_all only: vh if_True if_False mod_mult_self3, simp_all)
  have m2: "(v + h) mod (2 * (2 * h)) = (if even (q + 1) then 0 else 2 * h)" if "r = h"
  proof -
    have e: "v + h = (q + 1) * (2 * h)" using vh that by simp
    show ?thesis unfolding e using h0
      by (auto elim!: evenE oddE simp: algebra_simps mod_mult_mult1)
  qed
  have eq: "round_even k v = (if r < h then q else if r > h then q + 1 else if even q then q else q + 1) * (2 * h)"
    unfolding round_even_def Let_def d [symmetric] unfolding k2 by (rule refl)
  consider "r < h" | "r = h" | "r > h" by linarith
  then show ?thesis unfolding eq Let_def power_Suc k2 d(3) [symmetric]
  proof cases
    case 1
    then show "(if r < h then q else if r > h then q + 1 else if even q then q else q + 1) * (2 * h)
      = (if (v + h) mod (2 * h) = 0 then v + h - (v + h) mod (2 * (2 * h)) else v + h - (v + h) mod (2 * h))"
      unfolding m1 using vh by simp
  next
    case 2
    then show "(if r < h then q else if r > h then q + 1 else if even q then q else q + 1) * (2 * h)
      = (if (v + h) mod (2 * h) = 0 then v + h - (v + h) mod (2 * (2 * h)) else v + h - (v + h) mod (2 * h))"
      unfolding m1 m2 [OF 2] using vh by simp
  next
    case 3
    then show "(if r < h then q else if r > h then q + 1 else if even q then q else q + 1) * (2 * h)
      = (if (v + h) mod (2 * h) = 0 then v + h - (v + h) mod (2 * (2 * h)) else v + h - (v + h) mod (2 * h))"
      unfolding m1 using vh by simp
  qed
qed


definition round_bits :: "dsp_core_t \<Rightarrow> nat" where
  "round_bits s = (if has_bit (SR s) DSP_SR_S0 then 25 else if has_bit (SR s) DSP_SR_S1 then 23 else 24)"

lemma rnd_none:
  assumes "wf56 (d0, d1, d2)"
  defines "e1 \<equiv> (if d2 = 0 then d1 AND 0xfffffe else d1)"
  shows "wf56 (d0, e1, 0)"
    "val56 (d0, e1, 0) = (let w = val56 (d0, d1, d2) in if w mod 2 ^ 24 = 0 then w - w mod 2 ^ Suc 24 else w - w mod 2 ^ 24)"
proof -
  have l: "unat d0 < 2 ^ 8" "unat d1 < 2 ^ 24" "unat d2 < 2 ^ 24" using assms by simp_all
  have e1: "unat e1 = (if unat d2 = 0 then unat d1 - unat d1 mod 2 else unat d1)"
    using clear_low_24(1) [OF l(2)] by (auto simp: e1_def unat_eq_0)
  show "wf56 (d0, e1, 0)" using l by (auto simp: e1)
  show "val56 (d0, e1, 0) = (let w = val56 (d0, d1, d2) in if w mod 2 ^ 24 = 0 then w - w mod 2 ^ Suc 24 else w - w mod 2 ^ 24)"
    using l mod_limbs(1) [of "unat d0" "unat d1" "unat d2"] mod_limbs2(1) [OF l(3), of "unat d0" "unat d1"]
    by (cases "unat d2 = 0") (simp_all add: e1 Let_def diff_mult_distrib)
qed


lemma rnd_up:
  assumes "wf56 (d0, d1, d2)"
  defines "e1 \<equiv> (if d2 = 0 \<and> d1 AND 1 = 0 then d1 AND 0xfffffc else d1)"
  shows "wf56 (d0, e1 AND 0xfffffe, 0)"
    "val56 (d0, e1 AND 0xfffffe, 0) = (let w = val56 (d0, d1, d2) in if w mod 2 ^ 25 = 0 then w - w mod 2 ^ Suc 25 else w - w mod 2 ^ 25)"
proof -
  have l: "unat d0 < 2 ^ 8" "unat d1 < 2 ^ 24" "unat d2 < 2 ^ 24" using assms by simp_all
  have o: "d1 AND 1 = 0 \<longleftrightarrow> even (unat d1)" using bit_unat_odd [of d1 0]
    by (auto simp: and_one_eq even_iff_mod_2_eq_zero bit_0)
  have e1: "unat (e1 AND 0xfffffe) = (if unat d2 = 0 \<and> even (unat d1) then unat d1 - unat d1 mod 4 else unat d1 - unat d1 mod 2)"
  proof (cases "d2 = 0 \<and> d1 AND 1 = 0")
    case True
    then have u: "unat e1 = unat d1 - unat d1 mod 4" using clear_low_24(2) [OF l(2)] by (simp add: e1_def)
    then have "unat e1 < 2 ^ 24" using l(2) by linarith
    moreover have "(unat d1 - unat d1 mod 4) mod 2 = 0"
      unfolding minus_mod_eq_mult_div by presburger
    ultimately show ?thesis using clear_low_24(1) [of e1] True o by (simp add: u)
  next
    case False
    then show ?thesis using clear_low_24(1) [OF l(2)] o by (auto simp: e1_def unat_eq_0)
  qed
  show "wf56 (d0, e1 AND 0xfffffe, 0)" using l by (auto simp: e1)
  show "val56 (d0, e1 AND 0xfffffe, 0) = (let w = val56 (d0, d1, d2) in if w mod 2 ^ 25 = 0 then w - w mod 2 ^ Suc 25 else w - w mod 2 ^ 25)"
    using l mod_limbs2 [OF l(3), of "unat d0" "unat d1"] odd_pos [of "unat d1"]
    by (cases "unat d2 = 0"; cases "even (unat d1)") (simp_all add: e1 Let_def diff_mult_distrib mod_2_eq_odd)
qed

lemma rnd_down:
  assumes "wf56 (d0, d1, d2)"
  defines "e2 \<equiv> (if d2 AND 0x7fffff = 0 then 0 else d2)"
  shows "wf56 (d0, d1, e2 AND 0x800000)"
    "val56 (d0, d1, e2 AND 0x800000) = (let w = val56 (d0, d1, d2) in if w mod 2 ^ 23 = 0 then w - w mod 2 ^ Suc 23 else w - w mod 2 ^ 23)"
proof -
  have l: "unat d0 < 2 ^ 8" "unat d1 < 2 ^ 24" "unat d2 < 2 ^ 24" using assms by simp_all
  have o: "d2 AND 0x7fffff = 0 \<longleftrightarrow> unat d2 mod 2 ^ 23 = 0"
    using clear_low_24(4) [OF l(3)] by (metis unat_eq_0)
  have e2: "unat (e2 AND 0x800000) = (if unat d2 mod 2 ^ 23 = 0 then 0 else unat d2 - unat d2 mod 2 ^ 23)"
    using clear_low_24(3) [OF l(3)] by (simp add: e2_def o)
  show "wf56 (d0, d1, e2 AND 0x800000)" using l by (auto simp: e2)
  show "val56 (d0, d1, e2 AND 0x800000) = (let w = val56 (d0, d1, d2) in if w mod 2 ^ 23 = 0 then w - w mod 2 ^ Suc 23 else w - w mod 2 ^ 23)"
    using l mod_limbs [of "unat d0" "unat d1" "unat d2"]
    by (cases "unat d2 mod 2 ^ 23 = 0") (simp_all add: e2 Let_def)
qed

lemma round_even_mod:
  assumes "0 < k" "k < 56"
  shows "(let w = (v + 2 ^ (k - 1)) mod 2 ^ 56 in if w mod 2 ^ k = 0 then w - w mod 2 ^ Suc k else w - w mod 2 ^ k)
    = round_even k v mod 2 ^ 56"
proof -
  define u where "u = v + 2 ^ (k - 1)"
  have dv: "(2::nat) ^ k dvd 2 ^ 56" "(2::nat) ^ Suc k dvd 2 ^ 56" using assms by (intro le_imp_power_dvd; simp)+
  have m: "u mod 2 ^ 56 mod 2 ^ k = u mod 2 ^ k" "u mod 2 ^ 56 mod 2 ^ Suc k = u mod 2 ^ Suc k"
    using dv by (simp_all only: mod_mod_cancel)
  have s: "(u - u mod 2 ^ j) mod 2 ^ 56 = u mod 2 ^ 56 - u mod 2 ^ 56 mod 2 ^ j" if j: "(2::nat) ^ j dvd 2 ^ 56" for j
  proof -
    obtain c where c: "(2::nat) ^ 56 = 2 ^ j * c" using j by blast
    have "u - u mod 2 ^ j = 2 ^ j * (u div 2 ^ j)" by (simp add: minus_mod_eq_mult_div)
    then have "(u - u mod 2 ^ j) mod 2 ^ 56 = 2 ^ j * (u div 2 ^ j mod c)" by (simp only: c mod_mult_mult1)
    also have "\<dots> = u mod 2 ^ 56 - u mod 2 ^ 56 mod 2 ^ j"
      unfolding c by (simp add: mod_mult2_eq)
    finally show ?thesis .
  qed
  show ?thesis
    unfolding round_even_add_half [OF assms(1)] Let_def u_def [symmetric] m(1)
    using s [OF dv(1)] s [OF dv(2)] unfolding m by (cases "u mod 2 ^ k = 0") (simp_all only: if_True if_False simp_thms)
qed

lemma rnd56_val:
  assumes "wf56 dest"
  shows "wf56 (dsp_rnd56 dest s)"
    and "val56 (dsp_rnd56 dest s) = round_even (round_bits s) (val56 dest) mod 2 ^ 56"
proof -
  have add: "val56 (snd (dsp_add56 c dest)) = (val56 dest + val56 c) mod 2 ^ 56" if "wf56 c" for c
    using add56_val [OF that assms] that assms [THEN val56_lt] val56_lt [OF that]
    by (cases "2 ^ 56 \<le> val56 dest + val56 c") (auto simp: le_mod_geq)
  have c: "wf56 (0, 1, 0)" "wf56 (0, 0, push_bit 22 1)" "wf56 (0, 0, push_bit 23 1)"
    "val56 (0, 1, 0) = 2 ^ (25 - 1)" "val56 (0, 0, push_bit 22 1) = 2 ^ (23 - 1)"
    "val56 (0, 0, push_bit 23 1) = 2 ^ (24 - 1)" by simp_all
  note w = add56_val(1) [OF _ assms]
  obtain d0 d1 d2 where 1: "snd (dsp_add56 (0, 1, 0) dest) = (d0, d1, d2)" by (metis prod_cases3)
  obtain e0 e1 e2 where 2: "snd (dsp_add56 (0, 0, push_bit 22 1) dest) = (e0, e1, e2)" by (metis prod_cases3)
  obtain f0 f1 f2 where 3: "snd (dsp_add56 (0, 0, push_bit 23 1) dest) = (f0, f1, f2)" by (metis prod_cases3)
  note r1 = rnd_up [OF w [OF c(1), unfolded 1]] and r2 = rnd_down [OF w [OF c(2), unfolded 2]]
    and r3 = rnd_none [OF w [OF c(3), unfolded 3]]
  have m: "(0xffffff - 0x3 :: u32) = 0xfffffc" by simp
  consider (S0) "bit (SR s) DSP_SR_S0" | (S1) "\<not> bit (SR s) DSP_SR_S0" "bit (SR s) DSP_SR_S1"
    | (none) "\<not> bit (SR s) DSP_SR_S0" "\<not> bit (SR s) DSP_SR_S1" by blast
  then have "wf56 (dsp_rnd56 dest s) \<and> val56 (dsp_rnd56 dest s) =
    (let w = (val56 dest + 2 ^ (round_bits s - 1)) mod 2 ^ 56
     in if w mod 2 ^ round_bits s = 0 then w - w mod 2 ^ Suc (round_bits s) else w - w mod 2 ^ round_bits s)"
  proof cases
    case S0
    then show ?thesis using r1 add [OF c(1)]
      by (simp only: dsp_rnd56_def round_bits_def has_bit_bit if_True 1 Let_def prod.case m c simp_thms)
  next
    case S1
    then show ?thesis using r2 add [OF c(2)]
      by (simp only: dsp_rnd56_def round_bits_def has_bit_bit if_True if_False 2 Let_def prod.case c simp_thms)
  next
    case none
    then show ?thesis using r3 add [OF c(3)]
      by (simp only: dsp_rnd56_def round_bits_def has_bit_bit if_False 3 Let_def prod.case c simp_thms)
  qed
  then show "wf56 (dsp_rnd56 dest s)"
    "val56 (dsp_rnd56 dest s) = round_even (round_bits s) (val56 dest) mod 2 ^ 56"
    using round_even_mod [of "round_bits s" "val56 dest"] by (auto simp: round_bits_def)
qed

text \<open>Status register bits after an update.\<close>

lemma sr_and_SR [simp]: "SR (sr_and m s) = SR s AND m"
  by (simp add: sr_and_def)

lemma sr_or_SR [simp]: "SR (sr_or v s) = SR s OR v"
  by (simp add: sr_or_def)

text \<open>
  The sixteen conditions of the processor on the condition code register: the first eight and
  their complements.
\<close>

definition cond_flags :: "u32 \<Rightarrow> bool list" where
  "cond_flags sr =
     (let c = bit sr DSP_SR_C; v = bit sr DSP_SR_V; z = bit sr DSP_SR_Z; n = bit sr DSP_SR_N;
          u = bit sr DSP_SR_U; e = bit sr DSP_SR_E; l = bit sr DSP_SR_L
      in [c, n \<noteq> v, z, n, z \<or> (\<not> u \<and> \<not> e), e, l, z \<or> n \<noteq> v])"

lemma calc_cc_flags:
  assumes "cc_code < 16"
  shows "dsp_calc_cc cc_code s \<longleftrightarrow> (cond_flags (SR s) ! (unat cc_code mod 8)) = (8 \<le> cc_code)"
proof -
  have c: "CCR_BIT v n = of_flag (bit v n)" for v n by (simp add: CCR_BIT_def and_one_flag)
  have n1: "(of_flag a OR (NOT (of_flag b) AND NOT (of_flag c))) AND 1 = (of_flag (a \<or> (\<not> b \<and> \<not> c)) :: u16)" for a b c
    by (cases a; cases b; cases c) simp_all
  have p: "bit (push_bit n (of_flag b :: u16)) k \<longleftrightarrow> b \<and> k = n \<and> n < 16" for b n k
    by (auto simp: bit_simps)
  have b: "bit (ucast (SR s AND BITMASK 8) :: u16) k \<longleftrightarrow> k < 8 \<and> bit (SR s) k" for k
    by (auto simp: and_BITMASK bit_simps)
  have top: "drop_bit 3 cc_code AND 1 = of_flag (8 \<le> cc_code)"
    using assms bit_unat_top [of cc_code 3] by (simp add: and_one_flag word_le_nat_alt word_less_nat_alt)
  have idx: "unat (cc_code AND BITMASK 3) = unat cc_code mod 8" by (simp add: and_BITMASK unat_take_bit_mod)
  define i where "i = unat cc_code mod 8"
  have i: "i = 0 \<or> i = 1 \<or> i = 2 \<or> i = 3 \<or> i = 4 \<or> i = 5 \<or> i = 6 \<or> i = 7" by (auto simp: i_def)
  show ?thesis
    unfolding dsp_calc_cc_def Let_def c top idx i_def [symmetric] n1 flag_xor flag_or cond_flags_def
      cc_code_map_def ucast_flag flag_eq
    using i by (elim disjE) (simp_all only: nth_Cons_0 nth_Cons_numeral nth_Cons_Suc One_nat_def bit_or_iff p b, simp_all)
qed

text \<open>The four condition code updates, each a single bit of SR; the scaling bits are kept.\<close>

lemma ccr_bits:
  "bit (SR (dsp_ccr_negative r0 s)) k \<longleftrightarrow> k < 16 \<and> (if k = DSP_SR_N then bit r0 7 else bit (SR s) k)"
  "bit (SR (dsp_ccr_zero r0 r1 r2 s)) k \<longleftrightarrow> k < 16 \<and>
     (if k = DSP_SR_Z then take_bit 24 r2 = 0 \<and> take_bit 24 r1 = 0 \<and> take_bit 8 r0 = 0 else bit (SR s) k)"
proof -
  show "bit (SR (dsp_ccr_negative r0 s)) k \<longleftrightarrow> k < 16 \<and> (if k = DSP_SR_N then bit r0 7 else bit (SR s) k)"
    by (simp only: dsp_ccr_negative_def sr_or_SR sr_and_SR and_one_flag bit_or_iff bit_and_iff
        bit_push_flag bit_mask16_minus) auto
  have z: "(if r2 AND BITMASK 24 \<noteq> 0 then 0 else if r1 AND BITMASK 24 \<noteq> 0 then 0
     else if r0 AND BITMASK 8 \<noteq> 0 then 0 else 1) =
     (of_flag (take_bit 24 r2 = 0 \<and> take_bit 24 r1 = 0 \<and> take_bit 8 r0 = 0) :: u32)"
    by (simp add: and_BITMASK)
  show "bit (SR (dsp_ccr_zero r0 r1 r2 s)) k \<longleftrightarrow> k < 16 \<and>
     (if k = DSP_SR_Z then take_bit 24 r2 = 0 \<and> take_bit 24 r1 = 0 \<and> take_bit 8 r0 = 0 else bit (SR s) k)"
    by (simp only: dsp_ccr_zero_def Let_def z sr_or_SR sr_and_SR bit_or_iff bit_and_iff
        bit_push_flag bit_mask16_minus) auto
qed

definition ext_pos :: "dsp_core_t \<Rightarrow> nat" where
  "ext_pos s = (if scaling_mode s = 0 then 47 else if scaling_mode s = 1 then 48 else 46)"

lemma ext_top:
  assumes "wf56 (d0, d1, d2)"
  shows "unat (push_bit 1 (d0 AND 0xff) OR (drop_bit 23 d1 AND 1)) = val56 (d0, d1, d2) div 2 ^ 47"
    "unat (d0 AND 0xff) = val56 (d0, d1, d2) div 2 ^ 48"
    "unat (push_bit 2 (d0 AND 0xff) OR (drop_bit 22 d1 AND 3)) = val56 (d0, d1, d2) div 2 ^ 46"
proof -
  have l: "unat d0 < 2 ^ 8" "unat d1 < 2 ^ 24" "unat d2 < 2 ^ 24" using assms by simp_all
  have m: "d0 AND 0xff = take_bit 8 d0" by (simp add: take_bit_eq_mask mask_eq_exp_minus_1)
  have t: "unat (d0 AND 0xff) = unat d0" using l by (simp add: m unat_take_bit_mod)
  then show "unat (d0 AND 0xff) = val56 (d0, d1, d2) div 2 ^ 48" using l by simp
  have a: "drop_bit 23 d1 AND 1 = take_bit 1 (drop_bit 23 d1)" by (simp add: take_bit_eq_mask)
  have u: "unat (drop_bit 23 d1 AND 1) = unat d1 div 2 ^ 23" "unat (drop_bit 22 d1 AND 3) = unat d1 div 2 ^ 22"
    using l unfolding a and_mask3 unat_take_bit_mod unat_drop_bit_div by simp_all
  show "unat (push_bit 1 (d0 AND 0xff) OR (drop_bit 23 d1 AND 1)) = val56 (d0, d1, d2) div 2 ^ 47"
    by (subst or_shift) (use l in \<open>simp_all add: u t\<close>)
  show "unat (push_bit 2 (d0 AND 0xff) OR (drop_bit 22 d1 AND 3)) = val56 (d0, d1, d2) div 2 ^ 46"
    by (subst or_shift) (use l in \<open>simp_all add: u t\<close>)
qed


lemma ext_range:
  assumes "v < 2 ^ 56" "k = 46 \<or> k = 47 \<or> k = 48"
  shows "(v div 2 ^ k = 0 \<or> v div 2 ^ k = 2 ^ (56 - k) - 1) \<longleftrightarrow> (- (2 ^ k) \<le> sgn_of 56 v \<and> sgn_of 56 v < 2 ^ k)"
  using assms by (elim disjE) (auto simp: sgn_of_def)

lemma unnorm_range:
  assumes "v < 2 ^ 56" "k = 46 \<or> k = 47 \<or> k = 48" "- (2 ^ k) \<le> sgn_of 56 v" "sgn_of 56 v < 2 ^ k"
  shows "(v div 2 ^ (k - 1) mod 4 = 0 \<or> v div 2 ^ (k - 1) mod 4 = 3) \<longleftrightarrow>
    (- (2 ^ (k - 1)) \<le> sgn_of 56 v \<and> sgn_of 56 v < 2 ^ (k - 1))"
proof -
  have "v div 2 ^ (k - 1) = 0 \<or> v div 2 ^ (k - 1) = 1 \<or> v div 2 ^ (k - 1) = 2 ^ (57 - k) - 2 \<or> v div 2 ^ (k - 1) = 2 ^ (57 - k) - 1"
    using assms by (elim disjE) (auto simp: sgn_of_def split: if_splits)
  then show ?thesis using assms(1,2) by (elim disjE) (auto simp: sgn_of_def split: if_splits)
qed

lemma scaling_cases:
  "scaling_mode s \<noteq> 3 \<Longrightarrow> scaling_mode s = 0 \<or> scaling_mode s = 1 \<or> scaling_mode s = 2"
proof -
  assume a: "scaling_mode s \<noteq> 3"
  have "unat (scaling_mode s) < 4" by (simp add: scaling_mode_def and_BITMASK unat_take_bit_mod)
  moreover have "unat (scaling_mode s) \<noteq> unat (3::u32)" using a unfolding word_unat_eq_iff .
  ultimately show ?thesis by (auto simp: word_unat_eq_iff)
qed

lemma ext_pos_cases: "ext_pos s = 46 \<or> ext_pos s = 47 \<or> ext_pos s = 48"
  by (simp add: ext_pos_def)

lemma ccr_extension_bit:
  assumes "wf56 (d0, d1, d2)" "scaling_mode s \<noteq> 3"
  shows "bit (SR (dsp_ccr_extension d0 d1 s)) k \<longleftrightarrow> k < 16 \<and>
    (if k = DSP_SR_E then \<not> (- (2 ^ ext_pos s) \<le> sval56 (d0, d1, d2) \<and> sval56 (d0, d1, d2) < 2 ^ ext_pos s)
     else bit (SR s) k)"
proof -
  have f: "bit (SR (sr_or (if c then 0 else push_bit DSP_SR_E 1) (sr_and (BITMASK 16 - push_bit DSP_SR_E 1) s))) k \<longleftrightarrow>
     k < 16 \<and> (if k = DSP_SR_E then \<not> c else bit (SR s) k)" for c
  proof -
    have "(if c then 0 else push_bit DSP_SR_E 1) = push_bit DSP_SR_E (of_flag (\<not> c) :: u32)"
      by (simp only: of_flag_def push_bit_of_0 if_not_P split: if_splits) simp
    then show ?thesis
      by (simp only: sr_or_SR sr_and_SR bit_or_iff bit_and_iff bit_mask16_minus bit_push_flag) auto
  qed
  have B: "unat (BITMASK 9) = 511" "unat (BITMASK 8) = 255" "unat (BITMASK 10) = 1023"
    by (simp_all add: BITMASK_mask mask_eq_exp_minus_1)
  note r = ext_range [OF val56_lt [OF assms(1)] ext_pos_cases [of s], folded sval56_def]
  have w: "(w = 0 \<or> w = BITMASK n) \<longleftrightarrow> (unat w = 0 \<or> unat w = unat (BITMASK n))" for w n
    by (simp only: word_unat_eq_iff unsigned_0)
  have sc: "(1::u32) \<noteq> 0" "(2::u32) \<noteq> 0" "(2::u32) \<noteq> 1" by simp_all
  note sm = scaling_cases [OF assms(2)]
  show ?thesis
    unfolding dsp_ccr_extension_def Let_def r [symmetric]
    using sm by (elim disjE)
      (simp_all only: ext_pos_def f w ext_top [OF assms(1)] B sc if_True if_False simp_thms, simp_all)
qed


lemma val56_div:
  assumes "wf56 (d0, d1, d2)"
  shows "val56 (d0, d1, d2) div 2 ^ 45 mod 4 = unat d1 div 2 ^ 21 mod 4"
    and "val56 (d0, d1, d2) div 2 ^ 46 mod 4 = unat d1 div 2 ^ 22 mod 4"
    and "val56 (d0, d1, d2) div 2 ^ 47 mod 4 = unat d0 mod 2 * 2 + unat d1 div 2 ^ 23"
proof -
  have l: "unat d0 < 2 ^ 8" "unat d1 < 2 ^ 24" "unat d2 < 2 ^ 24" using assms by simp_all
  define x y where "x = unat d0" and "y = unat d1"
  have "val56 (d0, d1, d2) div 2 ^ 24 = x * 2 ^ 24 + y" using l by (simp add: x_def y_def)
  then have v: "val56 (d0, d1, d2) div (2 ^ 24 * n) = (x * 2 ^ 24 + y) div n" for n
    unfolding div_mult2_eq by (simp only:)
  have p: "(2::nat) ^ 45 = 2 ^ 24 * 2 ^ 21" "(2::nat) ^ 46 = 2 ^ 24 * 2 ^ 22" "(2::nat) ^ 47 = 2 ^ 24 * 2 ^ 23"
    by simp_all
  have s: "(x * 2 ^ 24 + y) div 2 ^ 21 = x * 2 * 4 + y div 2 ^ 21" "(x * 2 ^ 24 + y) div 2 ^ 22 = x * 4 + y div 2 ^ 22"
    "(x * 2 ^ 24 + y) div 2 ^ 23 = x * 2 + y div 2 ^ 23"
    using div_mult_self3 [of "2 ^ 21" "x * 8" y] div_mult_self3 [of "2 ^ 22" "x * 4" y]
      div_mult_self3 [of "2 ^ 23" "x * 2" y] by simp_all
  show "val56 (d0, d1, d2) div 2 ^ 45 mod 4 = unat d1 div 2 ^ 21 mod 4"
    "val56 (d0, d1, d2) div 2 ^ 46 mod 4 = unat d1 div 2 ^ 22 mod 4"
    unfolding p v s y_def [symmetric] by (rule mod_mult_self3)+
  have q: "(x * 2 + q) mod 4 = x mod 2 * 2 + q" if "q = 0 \<or> q = 1" for q :: nat
    using that by presburger
  have "y div 2 ^ 23 = 0 \<or> y div 2 ^ 23 = 1" using l by (auto simp: y_def)
  then have "(x * 2 + y div 2 ^ 23) mod 4 = x mod 2 * 2 + y div 2 ^ 23"
    by (rule q)
  then show "val56 (d0, d1, d2) div 2 ^ 47 mod 4 = unat d0 mod 2 * 2 + unat d1 div 2 ^ 23"
    unfolding p v s y_def [symmetric] x_def [symmetric] .
qed

lemma ccr_unnormalized_bit:
  assumes "wf56 (d0, d1, d2)" "scaling_mode s \<noteq> 3"
  shows "bit (SR (dsp_ccr_unnormalized d0 d1 s)) k \<longleftrightarrow> k < 16 \<and>
    (if k = DSP_SR_U then val56 (d0, d1, d2) div 2 ^ (ext_pos s - 1) mod 4 \<in> {0, 3} else bit (SR s) k)"
proof -
  have l: "unat d0 < 2 ^ 8" "unat d1 < 2 ^ 24" "unat d2 < 2 ^ 24" using assms by simp_all
  have f: "bit (SR (sr_or (push_bit DSP_SR_U (of_flag c)) (sr_and (BITMASK 16 - push_bit DSP_SR_U 1) s))) k \<longleftrightarrow>
     k < 16 \<and> (if k = DSP_SR_U then c else bit (SR s) k)" for c
    by (simp only: sr_or_SR sr_and_SR bit_or_iff bit_and_iff bit_mask16_minus bit_push_flag) auto
  have B: "unat (BITMASK 2) = 3" by (simp add: BITMASK_mask mask_eq_exp_minus_1)
  have u: "unat (drop_bit 22 d1 AND 3) = val56 (d0, d1, d2) div 2 ^ 46 mod 4"
    "unat (drop_bit 21 d1 AND 3) = val56 (d0, d1, d2) div 2 ^ 45 mod 4"
    using l unfolding and_mask3 unat_take_bit_mod unat_drop_bit_div val56_div [OF assms(1)] by simp_all
  have t1: "unat (take_bit 1 (w::u32)) \<le> 1" for w
    by (simp only: unat_take_bit_mod) simp
  have "push_bit 1 d0 AND 2 = push_bit 1 (take_bit 1 d0)"
  proof -
    have "(2::u32) = push_bit 1 1" "take_bit 1 d0 = d0 AND 1" by (simp_all add: take_bit_eq_mask)
    then show ?thesis by (simp only: push_bit_and)
  qed
  moreover have "drop_bit 23 d1 AND 1 = take_bit 1 (drop_bit 23 d1)" by (simp add: take_bit_eq_mask)
  ultimately have "unat (push_bit 1 d0 AND 2 OR (drop_bit 23 d1 AND 1)) = unat (take_bit 1 d0) * 2 ^ 1 + unat (take_bit 1 (drop_bit 23 d1))"
    by (simp only:) (rule or_shift, use t1 [of d0] t1 [of "drop_bit 23 d1"] in simp_all)
  then have u1: "unat (push_bit 1 d0 AND 2 OR (drop_bit 23 d1 AND 1)) = val56 (d0, d1, d2) div 2 ^ 47 mod 4"
    using l unfolding unat_take_bit_mod unat_drop_bit_div val56_div [OF assms(1)] by simp
  have w: "(w = 0 \<or> w = BITMASK n) \<longleftrightarrow> (unat w = 0 \<or> unat w = unat (BITMASK n))" for w n
    by (simp only: word_unat_eq_iff unsigned_0)
  have sc: "(1::u32) \<noteq> 0" "(2::u32) \<noteq> 0" "(2::u32) \<noteq> 1" by simp_all
  note sm = scaling_cases [OF assms(2)]
  show ?thesis
    unfolding dsp_ccr_unnormalized_def Let_def
    using sm by (elim disjE)
      (simp_all only: ext_pos_def f w u u1 B sc if_True if_False simp_thms, simp_all)
qed


lemma scaling_mode_cong:
  "bit (SR s) DSP_SR_S0 = bit (SR s') DSP_SR_S0 \<Longrightarrow> bit (SR s) DSP_SR_S1 = bit (SR s') DSP_SR_S1 \<Longrightarrow>
    scaling_mode s = scaling_mode s'"
  unfolding scaling_mode_def and_BITMASK
  by (rule bit_word_eqI) (auto simp: bit_simps less_2_cases_iff)

text \<open>An update \<open>&= BITMASK(16)-(1<<n)\<close>, \<open>|= v<<n\<close> changes bit \<open>n\<close> only, and clears bits 16 and above.\<close>

lemma sr_update_bit:
  "n < 16 \<Longrightarrow> bit (SR (sr_or (push_bit n (of_flag c)) (sr_and (BITMASK 16 - push_bit n 1) s))) k \<longleftrightarrow>
     k < 16 \<and> (if k = n then c else bit (SR s) k)"
  by (simp only: sr_or_SR sr_and_SR bit_or_iff bit_and_iff bit_mask16_minus bit_push_flag) auto

lemma scaling_ccr [simp]:
  "scaling_mode (dsp_ccr_extension r0 r1 s) = scaling_mode s"
  "scaling_mode (dsp_ccr_unnormalized r0 r1 s) = scaling_mode s"
  "scaling_mode (dsp_ccr_negative r0 s) = scaling_mode s"
  "scaling_mode (dsp_ccr_zero r0 r1 r2 s) = scaling_mode s"
proof -
  have u: "scaling_mode (sr_or (push_bit n (of_flag c)) (sr_and (BITMASK 16 - push_bit n 1) s)) = scaling_mode s"
    if "n < 10" for n c
    by (rule scaling_mode_cong) (use that in \<open>simp_all only: sr_update_bit\<close>, simp_all)
  show "scaling_mode (dsp_ccr_extension r0 r1 s) = scaling_mode s"
    unfolding dsp_ccr_extension_def Let_def if_push_flag using u [of DSP_SR_E] by (auto simp del: push_bit_of_1)
  show "scaling_mode (dsp_ccr_unnormalized r0 r1 s) = scaling_mode s"
    unfolding dsp_ccr_unnormalized_def Let_def using u [of DSP_SR_U] by auto
  show "scaling_mode (dsp_ccr_negative r0 s) = scaling_mode s"
    unfolding dsp_ccr_negative_def and_one_flag by (rule u) simp
  show "scaling_mode (dsp_ccr_zero r0 r1 r2 s) = scaling_mode s"
    by (rule scaling_mode_cong) (simp_all only: ccr_bits, simp_all)
qed

lemma ccr_all_bits:
  fixes d0 d1 d2 :: u32
  assumes "wf56 (d0, d1, d2)" "scaling_mode s \<noteq> 3"
  defines "v \<equiv> sval56 (d0, d1, d2)"
  defines "sr \<equiv> SR (dsp_ccr_all d0 d1 d2 s)"
  shows "bit sr DSP_SR_N \<longleftrightarrow> v < 0"
    and "bit sr DSP_SR_Z \<longleftrightarrow> v = 0"
    and "bit sr DSP_SR_E \<longleftrightarrow> \<not> (- (2 ^ ext_pos s) \<le> v \<and> v < 2 ^ ext_pos s)"
    and "\<not> bit sr DSP_SR_E \<Longrightarrow> bit sr DSP_SR_U \<longleftrightarrow> (- (2 ^ (ext_pos s - 1)) \<le> v \<and> v < 2 ^ (ext_pos s - 1))"
    and "k < 16 \<Longrightarrow> k \<notin> {DSP_SR_N, DSP_SR_Z, DSP_SR_E, DSP_SR_U} \<Longrightarrow> bit sr k \<longleftrightarrow> bit (SR s) k"
proof -
  note b = ccr_bits ccr_extension_bit [OF assms(1)] ccr_unnormalized_bit [OF assms(1)]
  have e: "ext_pos (dsp_ccr_extension d0 d1 s) = ext_pos s" by (simp add: ext_pos_def)
  have sr: "bit sr k \<longleftrightarrow> k < 16 \<and>
     (if k = DSP_SR_Z then take_bit 24 d2 = 0 \<and> take_bit 24 d1 = 0 \<and> take_bit 8 d0 = 0
      else if k = DSP_SR_N then bit d0 7
      else if k = DSP_SR_U then val56 (d0, d1, d2) div 2 ^ (ext_pos s - 1) mod 4 \<in> {0, 3}
      else if k = DSP_SR_E then \<not> (- (2 ^ ext_pos s) \<le> v \<and> v < 2 ^ ext_pos s)
      else bit (SR s) k)" for k
    unfolding sr_def dsp_ccr_all_def v_def by (simp only: b assms(2) scaling_ccr e simp_thms) auto
  have l: "unat d0 < 2 ^ 8" "unat d1 < 2 ^ 24" "unat d2 < 2 ^ 24" using assms(1) by simp_all
  show "bit sr DSP_SR_N \<longleftrightarrow> v < 0"
    using sr [of DSP_SR_N] sign56 [OF assms(1)] val56_lt [OF assms(1)]
    by (auto simp: v_def sval56_def sgn_of_def simp del: val56.simps)
  have "take_bit 24 d2 = d2" "take_bit 24 d1 = d1" "take_bit 8 d0 = d0"
    using l by (simp_all add: word_unat_eq_iff unat_take_bit_mod)
  moreover have "v = 0 \<longleftrightarrow> val56 (d0, d1, d2) = 0"
    using val56_lt [OF assms(1)] by (auto simp: v_def sval56_def sgn_of_def simp del: val56.simps)
  ultimately show "bit sr DSP_SR_Z \<longleftrightarrow> v = 0"
    using sr [of DSP_SR_Z] by (auto simp: unat_eq_0)
  show E: "bit sr DSP_SR_E \<longleftrightarrow> \<not> (- (2 ^ ext_pos s) \<le> v \<and> v < 2 ^ ext_pos s)"
    using sr [of DSP_SR_E] by simp
  show "k < 16 \<Longrightarrow> k \<notin> {DSP_SR_N, DSP_SR_Z, DSP_SR_E, DSP_SR_U} \<Longrightarrow> bit sr k \<longleftrightarrow> bit (SR s) k"
    using sr [of k] by simp
  show "\<not> bit sr DSP_SR_E \<Longrightarrow> bit sr DSP_SR_U \<longleftrightarrow> (- (2 ^ (ext_pos s - 1)) \<le> v \<and> v < 2 ^ (ext_pos s - 1))"
    using sr [of DSP_SR_U] E unnorm_range [OF val56_lt [OF assms(1)] ext_pos_cases [of s], folded sval56_def v_def]
    by simp
qed

text \<open>
  C4. Rounding is convergent rounding: \<open>dsp_rnd56\<close> returns the nearest multiple of 2^24 (2^25
  and 2^23 in the two scaling modes), ties to the even multiple, modulo 2^56.
\<close>

theorem dsp_rnd56_correct:
  assumes "wf56 dest"
  shows "wf56 (dsp_rnd56 dest s)
    \<and> val56 (dsp_rnd56 dest s) = round_even (round_bits s) (val56 dest) mod 2 ^ 56"
  using rnd56_val [OF assms] by simp

theorem dsp_rnd56_witness:
  "val56 (dsp_rnd56 (0, 3, 0x800000) cleared_core) = 4 * 2 ^ 24"
  using dsp_rnd56_correct [of "(0, 3, 0x800000)" cleared_core]
  by (simp add: round_bits_def round_even_def)

text \<open>
  C5. The condition codes after an arithmetic result: N is the sign, Z is zero, E says that the
  value does not fit below the extension register under the current scaling mode, U that a value
  without extension is not normalised; no other bit of the status register changes.
\<close>

theorem dsp_ccr_correct:
  assumes "wf56 (d0, d1, d2)" "scaling_mode s \<noteq> 3"
    and "v = sval56 (d0, d1, d2)" "sr = SR (dsp_ccr_all d0 d1 d2 s)"
  shows "(bit sr DSP_SR_N \<longleftrightarrow> v < 0) \<and> (bit sr DSP_SR_Z \<longleftrightarrow> v = 0)
    \<and> (bit sr DSP_SR_E \<longleftrightarrow> \<not> (- (2 ^ ext_pos s) \<le> v \<and> v < 2 ^ ext_pos s))
    \<and> (\<not> bit sr DSP_SR_E \<longrightarrow>
        (bit sr DSP_SR_U \<longleftrightarrow> - (2 ^ (ext_pos s - 1)) \<le> v \<and> v < 2 ^ (ext_pos s - 1)))
    \<and> (\<forall>k<16. k \<notin> {DSP_SR_N, DSP_SR_Z, DSP_SR_E, DSP_SR_U} \<longrightarrow> bit sr k = bit (SR s) k)"
  using ccr_all_bits [OF assms(1,2)] unfolding assms(3,4) by blast

theorem dsp_ccr_witness:
  "bit (SR (dsp_ccr_all 0xff 0x800000 0 cleared_core)) DSP_SR_N
    \<and> \<not> bit (SR (dsp_ccr_all 0xff 0x800000 0 cleared_core)) DSP_SR_Z
    \<and> \<not> bit (SR (dsp_ccr_all 0xff 0x800000 0 cleared_core)) DSP_SR_E"
  using dsp_ccr_correct [of "0xff" "0x800000" 0 cleared_core, OF _ _ refl refl]
  by (simp add: sval56_def sgn_of_def ext_pos_def scaling_mode_def)

text \<open>
  C6. \<open>dsp_calc_cc\<close> decides the sixteen conditions: codes 8 to 15 test a condition of the
  condition code register (C, N xor V, Z, N, Z or neither U nor E, E, L, Z or N xor V), codes 0
  to 7 its complement.
\<close>

theorem dsp_calc_cc_correct:
  assumes "cc_code < 16"
  shows "dsp_calc_cc cc_code s \<longleftrightarrow> (cond_flags (SR s) ! (unat cc_code mod 8)) = (8 \<le> cc_code)"
  by (rule calc_cc_flags [OF assms])

theorem dsp_calc_cc_witness:
  "\<not> dsp_calc_cc 9 cleared_core \<and> dsp_calc_cc 1 cleared_core"
  using dsp_calc_cc_correct [of 9 cleared_core] dsp_calc_cc_correct [of 1 cleared_core]
  by (simp add: cond_flags_def word_le_nat_alt)

end
