(* ===== verification/Dsp_Channel.thy ===== *)
theory Dsp_Channel
  imports Dsp_Ccr
begin

text \<open>
  The host port as a channel between the m68k side and the DSP, and the bootstrap. The interface
  of a one-word mailbox is the locale \<open>mailbox\<close>; both directions of the host port are
  interpretations of it.
\<close>

text \<open>A sender and a receiver that alternate.\<close>

primrec transfer :: "('w \<Rightarrow> 's \<Rightarrow> 's) \<Rightarrow> ('s \<Rightarrow> 'w \<times> 's) \<Rightarrow> 'w list \<Rightarrow> 's \<Rightarrow> 'w list \<times> 's" where
  "transfer put get [] s = ([], s)"
| "transfer put get (w # ws) s =
     (let (v, s) = get (put w s);
          (vs, s) = transfer put get ws s
      in (v # vs, s))"

locale mailbox =
  fixes ready :: "'s \<Rightarrow> bool" and valid :: "'w \<Rightarrow> bool"
    and put :: "'w \<Rightarrow> 's \<Rightarrow> 's" and get :: "'s \<Rightarrow> 'w \<times> 's"
  assumes delivered: "ready s \<Longrightarrow> valid w \<Longrightarrow> fst (get (put w s)) = w"
    and ready_again: "ready s \<Longrightarrow> valid w \<Longrightarrow> ready (snd (get (put w s)))"
begin

lemma transfer_all:
  "ready s \<Longrightarrow> list_all valid ws \<Longrightarrow>
    fst (transfer put get ws s) = ws \<and> ready (snd (transfer put get ws s))"
proof (induction ws arbitrary: s)
  case (Cons w ws)
  obtain v t where g: "get (put w s) = (v, t)" by fastforce
  have "v = w" "ready t" using delivered [of s w] ready_again [of s w] Cons.prems by (auto simp: g)
  with Cons.IH [of t] Cons.prems show ?case by (simp add: g split_beta)
qed simp

end

text \<open>The four ends of the host port.\<close>

definition host_send :: "u32 \<Rightarrow> dsp_core_t \<Rightarrow> dsp_core_t" where
  "host_send w s =
     (let s = dsp_core_write_host CPU_HOST_TXH (ucast (drop_bit 16 w)) s;
          s = dsp_core_write_host CPU_HOST_TXM (ucast (drop_bit 8 w)) s
      in dsp_core_write_host CPU_HOST_TXL (ucast w) s)"

definition host_receive :: "dsp_core_t \<Rightarrow> u32 \<times> dsp_core_t" where
  "host_receive s =
     (let (b2, s) = dsp_core_read_host CPU_HOST_RXH s;
          (b1, s) = dsp_core_read_host CPU_HOST_RXM s;
          (b0, s) = dsp_core_read_host CPU_HOST_RXL s
      in (push_bit 16 (ucast b2) OR push_bit 8 (ucast b1) OR ucast b0, s))"

definition dsp_send :: "u32 \<Rightarrow> dsp_core_t \<Rightarrow> dsp_core_t" where
  "dsp_send w s = write_memory DSP_SPACE_X (0xffc0 + of_nat DSP_HOST_HTX) w s"

definition dsp_receive :: "dsp_core_t \<Rightarrow> u32 \<times> dsp_core_t" where
  "dsp_receive s = read_memory DSP_SPACE_X (0xffc0 + of_nat DSP_HOST_HRX) s"

definition word24 :: "u32 \<Rightarrow> bool" where
  "word24 w \<longleftrightarrow> unat w < 2 ^ 24"

text \<open>A channel is ready when both its registers are empty.\<close>

definition h2d_ready :: "dsp_core_t \<Rightarrow> bool" where
  "h2d_ready s \<longleftrightarrow> running s \<and> bit (ISR s) CPU_HOST_ISR_TXDE \<and> \<not> bit (HSR s) DSP_HOST_HSR_HRDF"

definition d2h_ready :: "dsp_core_t \<Rightarrow> bool" where
  "d2h_ready s \<longleftrightarrow> \<not> bit (ISR s) CPU_HOST_ISR_RXDF \<and> bit (HSR s) DSP_HOST_HSR_HTDE"

lemma compose_bytes:
  assumes "word24 w"
  shows "push_bit 16 (ucast (ucast (drop_bit 16 w) :: u8)) OR push_bit 8 (ucast (ucast (drop_bit 8 w) :: u8))
      OR ucast (ucast w :: u8) = w"
    and "(ucast (ucast w :: u8) OR push_bit 8 (ucast (ucast (drop_bit 8 w) :: u8)))
      OR push_bit 16 (ucast (ucast (drop_bit 16 w) :: u8)) = w"
proof -
  have b: "\<not> bit w k" if "24 \<le> k" for k
  proof -
    have "unat w < 2 ^ k" using assms that unfolding word24_def
      by (meson less_le_trans one_le_numeral power_increasing)
    then show ?thesis by (simp add: bit_unat_odd)
  qed
  show "push_bit 16 (ucast (ucast (drop_bit 16 w) :: u8)) OR push_bit 8 (ucast (ucast (drop_bit 8 w) :: u8))
      OR ucast (ucast w :: u8) = w"
  proof (rule bit_word_eqI)
    fix n assume "n < LENGTH(32)"
    consider "n < 8" | "8 \<le> n" "n < 16" | "16 \<le> n" "n < 24" | "24 \<le> n" by linarith
    then show "bit (push_bit 16 (ucast (ucast (drop_bit 16 w) :: u8)) OR push_bit 8 (ucast (ucast (drop_bit 8 w) :: u8))
      OR ucast (ucast w :: u8) :: u32) n \<longleftrightarrow> bit w n"
      using \<open>n < LENGTH(32)\<close> b by cases (auto simp: bit_simps)
  qed
  then show "(ucast (ucast w :: u8) OR push_bit 8 (ucast (ucast (drop_bit 8 w) :: u8)))
      OR push_bit 16 (ucast (ucast (drop_bit 16 w) :: u8)) = w"
    by (simp only: ac_simps)
qed


text \<open>Clearing one bit of an 8-bit register.\<close>

lemma bit_ff_minus8: "n < 8 \<Longrightarrow> bit (0xff - push_bit n 1 :: u8) k \<longleftrightarrow> k < 8 \<and> k \<noteq> n"
proof -
  assume n: "n < 8"
  have "(0xff::u8) = NOT (push_bit n 1) + push_bit n 1"
    by (simp add: not_eq_complement)
  then have "0xff - push_bit n 1 = (NOT (push_bit n 1) :: u8)" by (simp add: algebra_simps)
  then show ?thesis using n by (auto simp: bit_simps bit_1_iff)
qed

lemma bit_ff_minus32: "n < 8 \<Longrightarrow> bit (0xff - push_bit n 1 :: u32) k \<longleftrightarrow> k < 8 \<and> k \<noteq> n"
proof -
  assume n: "n < 8"
  have "mask 8 = (mask 8 AND NOT (push_bit n 1)) OR push_bit n (1::u32)"
    using n by (intro bit_word_eqI) (auto simp: bit_simps bit_1_iff)
  also have "\<dots> = (mask 8 AND NOT (push_bit n 1)) + push_bit n (1::u32)"
    by (rule disjunctive_add [symmetric]) (auto simp: bit_simps bit_1_iff)
  finally have "0xff - push_bit n 1 = mask 8 AND NOT (push_bit n (1::u32))"
    by (simp add: mask_eq_exp_minus_1 algebra_simps)
  then show ?thesis using n by (auto simp: bit_simps bit_1_iff)
qed


text \<open>The transfers by their effect on the two status registers and the data registers.\<close>

lemma or_bit: "bit (w OR push_bit n 1) k \<longleftrightarrow> bit (w::'a::len word) k \<or> (k = n \<and> n < LENGTH('a))"
  by (auto simp: bit_simps bit_1_iff)

lemma trdy_other [simp]:
  "a \<noteq> CPU_HOST_ISR \<Longrightarrow> hostport (dsp_core_hostport_update_trdy s) a = hostport s a"
  "periph (dsp_core_hostport_update_trdy s) = periph s"
  "running (dsp_core_hostport_update_trdy s) = running s"
  "ramint (dsp_core_hostport_update_trdy s) = ramint s"
  by (simp_all add: dsp_core_hostport_update_trdy_def Let_def)

lemma trdy_ISR:
  "bit (ISR (dsp_core_hostport_update_trdy s)) k \<longleftrightarrow>
     (if k = CPU_HOST_ISR_TRDY then bit (ISR s) CPU_HOST_ISR_TXDE \<and> \<not> bit (HSR s) DSP_HOST_HSR_HRDF
      else bit (ISR s) k)"
proof (cases "k < 8")
  case True
  have m: "bit (ISR s AND (0xff - push_bit CPU_HOST_ISR_TRDY 1)) j \<longleftrightarrow> j < 8 \<and> j \<noteq> CPU_HOST_ISR_TRDY \<and> bit (ISR s) j" for j
    by (simp only: bit_and_iff bit_ff_minus8) auto
  have a: "x AND 1 = of_flag (bit x 0)" for x :: u32 using and_one_flag [of 0 x] by simp
  have f: "bit (ucast (push_bit CPU_HOST_ISR_TRDY (of_flag b :: u32)) :: u8) k \<longleftrightarrow> b \<and> k = CPU_HOST_ISR_TRDY" for b
    using True by (auto simp: bit_simps)
  have x0: "bit (ucast (drop_bit CPU_HOST_ISR_TXDE v) AND NOT (drop_bit DSP_HOST_HSR_HRDF h) :: u32) 0 \<longleftrightarrow>
    bit v CPU_HOST_ISR_TXDE \<and> \<not> bit h DSP_HOST_HSR_HRDF" for v :: u8 and h :: u32
    by (simp add: bit_simps)
  have "ISR (dsp_core_hostport_update_trdy s) =
    (let v = ISR s AND (0xff - push_bit CPU_HOST_ISR_TRDY 1)
     in v OR ucast (push_bit CPU_HOST_ISR_TRDY (of_flag (bit v CPU_HOST_ISR_TXDE \<and> \<not> bit (HSR s) DSP_HOST_HSR_HRDF) :: u32)))"
    unfolding dsp_core_hostport_update_trdy_def Let_def a x0 [symmetric] by simp
  then show ?thesis using True by (simp only: Let_def bit_or_iff f m) auto
next
  case False
  then show ?thesis by (auto dest: bit_imp_le_length)
qed


lemma cpuwrite_step:
  assumes "bit (ISR s) CPU_HOST_ISR_TXDE" "\<not> bit (HSR s) DSP_HOST_HSR_HRDF"
  shows "bit (ISR (dsp_core_hostport_cpuwrite s)) k \<longleftrightarrow> k \<noteq> CPU_HOST_ISR_TRDY \<and> bit (ISR s) k"
    and "bit (HSR (dsp_core_hostport_cpuwrite s)) k \<longleftrightarrow> k = DSP_HOST_HSR_HRDF \<or> bit (HSR s) k"
    and "periph (dsp_core_hostport_cpuwrite s) DSP_SPACE_X DSP_HOST_HRX =
      (ucast (hostport s CPU_HOST_TXL) OR push_bit 8 (ucast (hostport s CPU_HOST_TXM)))
        OR push_bit 16 (ucast (hostport s CPU_HOST_TXH))"
    and "running (dsp_core_hostport_cpuwrite s) = running s"
    and "a \<noteq> CPU_HOST_ISR \<Longrightarrow> hostport (dsp_core_hostport_cpuwrite s) a = hostport s a"
proof -
  define s1 where "s1 = set_hostport CPU_HOST_ISR (ISR s AND (0xff - push_bit CPU_HOST_ISR_TXDE 1)) s"
  define s2 where "s2 = dsp_core_hostport_update_trdy s1"
  have s1: "bit (ISR s1) k \<longleftrightarrow> k \<noteq> CPU_HOST_ISR_TXDE \<and> bit (ISR s) k" for k
    unfolding s1_def by (simp add: bit_and_iff bit_ff_minus8 [of CPU_HOST_ISR_TXDE, simplified]) (auto dest: bit_imp_le_length)
  have o1: "periph s1 = periph s" "hostport s1 a = (if a = CPU_HOST_ISR then ISR s1 else hostport s a)" "running s1 = running s" for a
    by (simp_all add: s1_def)
  have s2: "bit (ISR s2) k \<longleftrightarrow> k \<noteq> CPU_HOST_ISR_TRDY \<and> k \<noteq> CPU_HOST_ISR_TXDE \<and> bit (ISR s) k" for k
    unfolding s2_def trdy_ISR s1 by auto
  have e: "dsp_core_hostport_cpuwrite s = dsp_core_host2dsp s2"
    by (simp add: dsp_core_hostport_cpuwrite_def s1_def s2_def Let_def)
  have o2: "periph s2 = periph s" "hostport s2 CPU_HOST_TXL = hostport s CPU_HOST_TXL"
    "hostport s2 CPU_HOST_TXM = hostport s CPU_HOST_TXM" "hostport s2 CPU_HOST_TXH = hostport s CPU_HOST_TXH"
    "running s2 = running s"
    by (simp_all add: s2_def o1)
  define hrx where "hrx = (ucast (hostport s CPU_HOST_TXL) OR push_bit 8 (ucast (hostport s CPU_HOST_TXM)))
    OR push_bit 16 (ucast (hostport s CPU_HOST_TXH) :: u32)"
  define s5 where "s5 = set_hostport CPU_HOST_ISR (ISR s2 OR push_bit CPU_HOST_ISR_TXDE 1)
    (set_periph DSP_SPACE_X DSP_HOST_HSR (HSR s2 OR push_bit DSP_HOST_HSR_HRDF 1)
      (set_periph DSP_SPACE_X DSP_HOST_HRX hrx s2))"
  have e: "dsp_core_hostport_cpuwrite s = dsp_core_hostport_update_trdy s5"
    unfolding e dsp_core_host2dsp_def using s2 [of CPU_HOST_ISR_TXDE] assms(2)
    by (simp add: Let_def o2 s5_def hrx_def comp_def)
  have i5: "bit (ISR s5) k \<longleftrightarrow> k = CPU_HOST_ISR_TXDE \<or> bit (ISR s2) k"
    and h5: "bit (HSR s5) k \<longleftrightarrow> k = DSP_HOST_HSR_HRDF \<or> bit (HSR s) k" for k
    using or_bit [of "ISR s2" CPU_HOST_ISR_TXDE k] or_bit [of "HSR s" DSP_HOST_HSR_HRDF k]
    by (auto simp: s5_def o2)
  show "bit (ISR (dsp_core_hostport_cpuwrite s)) k \<longleftrightarrow> k \<noteq> CPU_HOST_ISR_TRDY \<and> bit (ISR s) k"
    unfolding e trdy_ISR i5 h5 s2 using assms by auto
  show "bit (HSR (dsp_core_hostport_cpuwrite s)) k \<longleftrightarrow> k = DSP_HOST_HSR_HRDF \<or> bit (HSR s) k"
    unfolding e trdy_other h5 by (rule refl)
  show "periph (dsp_core_hostport_cpuwrite s) DSP_SPACE_X DSP_HOST_HRX =
      (ucast (hostport s CPU_HOST_TXL) OR push_bit 8 (ucast (hostport s CPU_HOST_TXM)))
        OR push_bit 16 (ucast (hostport s CPU_HOST_TXH))"
    unfolding e trdy_other by (simp add: s5_def hrx_def)
  show "running (dsp_core_hostport_cpuwrite s) = running s"
    unfolding e trdy_other by (simp add: s5_def o2)
  show "a \<noteq> CPU_HOST_ISR \<Longrightarrow> hostport (dsp_core_hostport_cpuwrite s) a = hostport s a"
    unfolding e by (simp add: s5_def s2_def s1_def)
qed

lemma hsr_clear:
  "n < 8 \<Longrightarrow> bit (w AND (0xff - push_bit n 1)) k \<longleftrightarrow> k < 8 \<and> k \<noteq> n \<and> bit (w::u32) k"
  by (simp only: bit_and_iff bit_ff_minus32) auto

lemma isr_clear:
  "n < 8 \<Longrightarrow> bit (w AND (0xff - push_bit n 1)) k \<longleftrightarrow> k \<noteq> n \<and> bit (w::u8) k"
  by (simp only: bit_and_iff bit_ff_minus8) (auto dest: bit_imp_le_length)

text \<open>The DSP reads HRX while no second word is pending.\<close>

lemma dspread_step:
  assumes "bit (ISR s) CPU_HOST_ISR_TXDE"
  shows "bit (ISR (dsp_core_hostport_dspread s)) k \<longleftrightarrow> k = CPU_HOST_ISR_TRDY \<or> bit (ISR s) k"
    and "bit (HSR (dsp_core_hostport_dspread s)) k \<longleftrightarrow> k < 8 \<and> k \<noteq> DSP_HOST_HSR_HRDF \<and> bit (HSR s) k"
    and "periph (dsp_core_hostport_dspread s) DSP_SPACE_X DSP_HOST_HRX = periph s DSP_SPACE_X DSP_HOST_HRX"
    and "running (dsp_core_hostport_dspread s) = running s"
proof -
  define s1 where "s1 = set_periph DSP_SPACE_X DSP_HOST_HSR (HSR s AND (0xff - push_bit DSP_HOST_HSR_HRDF 1)) s"
  have s1: "bit (HSR s1) k \<longleftrightarrow> k < 8 \<and> k \<noteq> DSP_HOST_HSR_HRDF \<and> bit (HSR s) k" for k
    using hsr_clear [of DSP_HOST_HSR_HRDF "HSR s" k] by (simp add: s1_def)
  have o1: "hostport s1 = hostport s" "running s1 = running s"
     "periph s1 DSP_SPACE_X DSP_HOST_HRX = periph s DSP_SPACE_X DSP_HOST_HRX"
    by (simp_all add: s1_def)
  have i: "bit (ISR (dsp_core_hostport_update_trdy s1)) k \<longleftrightarrow> k = CPU_HOST_ISR_TRDY \<or> bit (ISR s) k" for k
    unfolding trdy_ISR o1 s1 using assms by auto
  have e: "dsp_core_hostport_dspread s = dsp_core_hostport_update_trdy s1"
    using i [of CPU_HOST_ISR_TXDE] assms
    by (simp add: dsp_core_hostport_dspread_def s1_def dsp_core_host2dsp_def Let_def)
  show "bit (ISR (dsp_core_hostport_dspread s)) k \<longleftrightarrow> k = CPU_HOST_ISR_TRDY \<or> bit (ISR s) k"
    "bit (HSR (dsp_core_hostport_dspread s)) k \<longleftrightarrow> k < 8 \<and> k \<noteq> DSP_HOST_HSR_HRDF \<and> bit (HSR s) k"
    "periph (dsp_core_hostport_dspread s) DSP_SPACE_X DSP_HOST_HRX = periph s DSP_SPACE_X DSP_HOST_HRX"
    "running (dsp_core_hostport_dspread s) = running s"
    unfolding e using i s1 o1 by simp_all
qed

lemma resume_frame [simp]:
  "hostport (resumeThread s) = hostport s" "periph (resumeThread s) = periph s"
  "running (resumeThread s) = running s" "ramint (resumeThread s) = ramint s"
  "pc (resumeThread s) = pc s" "bootstrap_pos (resumeThread s) = bootstrap_pos s"
  "fault (resumeThread s) = fault s" "registers (resumeThread s) = registers s"
  by (simp_all add: resumeThread_def split: option.splits)

lemma dsp_receive_eq:
  "dsp_receive s = (let s = dsp_core_hostport_dspread s in (periph s DSP_SPACE_X DSP_HOST_HRX AND BITMASK 24, s))"
  by (simp add: dsp_receive_def read_memory_def word_le_nat_alt word_less_nat_alt)

lemma dsp_send_eq:
  "dsp_send w s = dsp_core_hostport_dspwrite (set_periph DSP_SPACE_X DSP_HOST_HTX (w AND BITMASK 24) s)"
  by (simp add: dsp_send_def write_memory_def write_periph_x_def word_le_nat_alt word_less_nat_alt Let_def)

lemma word24_mask: "word24 w \<Longrightarrow> w AND BITMASK 24 = w"
  by (simp add: word24_def and_BITMASK word_unat_eq_iff unat_take_bit_mod)

lemma host_send_ready:
  assumes "h2d_ready s" "word24 w"
  shows "bit (ISR (host_send w s)) k \<longleftrightarrow> k \<noteq> CPU_HOST_ISR_TRDY \<and> bit (ISR s) k"
    and "bit (HSR (host_send w s)) k \<longleftrightarrow> k = DSP_HOST_HSR_HRDF \<or> bit (HSR s) k"
    and "periph (host_send w s) DSP_SPACE_X DSP_HOST_HRX = w"
    and "running (host_send w s)"
    and "hostport (host_send w s) CPU_HOST_RXL = ucast w"
    and "hostport (host_send w s) CPU_HOST_RXM = ucast (drop_bit 8 w)"
    and "hostport (host_send w s) CPU_HOST_RXH = ucast (drop_bit 16 w)"
proof -
  define s1 where "s1 = set_hostport CPU_HOST_TXL (ucast w) (set_hostport CPU_HOST_TXM (ucast (drop_bit 8 w))
    (set_hostport CPU_HOST_TXH (ucast (drop_bit 16 w)) s))"
  have o: "ISR s1 = ISR s" "HSR s1 = HSR s" "running s1" "bit (ISR s1) CPU_HOST_ISR_TXDE"
     "\<not> bit (HSR s1) DSP_HOST_HSR_HRDF"
    using assms(1) by (simp_all add: s1_def h2d_ready_def)
  have e: "host_send w s = resumeThread (dsp_core_hostport_cpuwrite s1)"
    using assms(1) by (simp add: host_send_def dsp_core_write_host_def s1_def h2d_ready_def Let_def)
  note c = cpuwrite_step [OF o(4,5)]
  show "bit (ISR (host_send w s)) k \<longleftrightarrow> k \<noteq> CPU_HOST_ISR_TRDY \<and> bit (ISR s) k"
    "bit (HSR (host_send w s)) k \<longleftrightarrow> k = DSP_HOST_HSR_HRDF \<or> bit (HSR s) k"
    "running (host_send w s)"
    unfolding e resume_frame c using o by simp_all
  show "periph (host_send w s) DSP_SPACE_X DSP_HOST_HRX = w"
    unfolding e resume_frame c using compose_bytes(2) [OF assms(2)] by (simp add: s1_def)
  show "hostport (host_send w s) CPU_HOST_RXL = ucast w"
    "hostport (host_send w s) CPU_HOST_RXM = ucast (drop_bit 8 w)"
    "hostport (host_send w s) CPU_HOST_RXH = ucast (drop_bit 16 w)"
    unfolding e by (simp_all add: c) (simp_all add: s1_def)
qed

lemma h2d_delivery:
  assumes "h2d_ready s" "word24 w"
  shows "fst (dsp_receive (host_send w s)) = w" and "h2d_ready (snd (dsp_receive (host_send w s)))"
proof -
  note h = host_send_ready [OF assms]
  have t: "bit (ISR (host_send w s)) CPU_HOST_ISR_TXDE" using h(1) assms(1) by (simp add: h2d_ready_def)
  note d = dspread_step [OF t]
  show "fst (dsp_receive (host_send w s)) = w"
    by (simp add: dsp_receive_eq Let_def d h word24_mask [OF assms(2)])
  show "h2d_ready (snd (dsp_receive (host_send w s)))"
    using t by (simp add: dsp_receive_eq Let_def h2d_ready_def d h)
qed

interpretation h2d: mailbox h2d_ready word24 host_send dsp_receive
  by (rule mailbox.intro) (simp_all only: h2d_delivery)


text \<open>The other direction.\<close>

lemma dsp_send_ready:
  assumes "d2h_ready s" "word24 w"
  shows "bit (ISR (dsp_send w s)) k \<longleftrightarrow> k = CPU_HOST_ISR_RXDF \<or> bit (ISR s) k"
    and "bit (HSR (dsp_send w s)) k \<longleftrightarrow> k < 8 \<and> bit (HSR s) k"
    and "hostport (dsp_send w s) CPU_HOST_RXL = ucast w"
    and "hostport (dsp_send w s) CPU_HOST_RXM = ucast (drop_bit 8 w)"
    and "hostport (dsp_send w s) CPU_HOST_RXH = ucast (drop_bit 16 w)"
    and "running (dsp_send w s) = running s"
proof -
  define s1 where "s1 = set_periph DSP_SPACE_X DSP_HOST_HSR (HSR s AND (0xff - push_bit DSP_HOST_HSR_HTDE 1))
    (set_periph DSP_SPACE_X DSP_HOST_HTX w s)"
  have h1: "bit (HSR s1) k \<longleftrightarrow> k < 8 \<and> k \<noteq> DSP_HOST_HSR_HTDE \<and> bit (HSR s) k" for k
    using hsr_clear [of DSP_HOST_HSR_HTDE "HSR s" k] by (simp add: s1_def)
  have o1: "hostport s1 = hostport s" "periph s1 DSP_SPACE_X DSP_HOST_HTX = w" "running s1 = running s"
    by (simp_all add: s1_def)
  define s2 where "s2 = set_hostport CPU_HOST_ISR (ISR s OR push_bit CPU_HOST_ISR_RXDF 1)
    (set_periph DSP_SPACE_X DSP_HOST_HSR (HSR s1 OR push_bit DSP_HOST_HSR_HTDE 1)
      (set_hostport CPU_HOST_RXH (ucast (drop_bit 16 w)) (set_hostport CPU_HOST_RXM (ucast (drop_bit 8 w))
        (set_hostport CPU_HOST_RXL (ucast w) s1))))"
  have "dsp_send w s = dsp_core_dsp2host s1"
    by (simp add: dsp_send_eq word24_mask [OF assms(2)] dsp_core_hostport_dspwrite_def s1_def Let_def)
  also have "\<dots> = s2"
    using assms(1) h1 [of DSP_HOST_HSR_HTDE]
    by (simp add: dsp_core_dsp2host_def d2h_ready_def o1 Let_def s2_def)
  finally have e: "dsp_send w s = s2" .
  show "bit (ISR (dsp_send w s)) k \<longleftrightarrow> k = CPU_HOST_ISR_RXDF \<or> bit (ISR s) k"
    using or_bit [of "ISR s" CPU_HOST_ISR_RXDF k] by (auto simp: e s2_def)
  show "bit (HSR (dsp_send w s)) k \<longleftrightarrow> k < 8 \<and> bit (HSR s) k"
    using or_bit [of "HSR s1" DSP_HOST_HSR_HTDE k] h1 [of k] assms(1) by (auto simp: e s2_def d2h_ready_def)
  show "hostport (dsp_send w s) CPU_HOST_RXL = ucast w"
    "hostport (dsp_send w s) CPU_HOST_RXM = ucast (drop_bit 8 w)"
    "hostport (dsp_send w s) CPU_HOST_RXH = ucast (drop_bit 16 w)"
    "running (dsp_send w s) = running s"
    unfolding e by (simp_all add: s2_def o1)
qed

lemma host_receive_eq:
  "host_receive s =
    (push_bit 16 (ucast (hostport s CPU_HOST_RXH)) OR push_bit 8 (ucast (hostport s CPU_HOST_RXM))
       OR ucast (hostport s CPU_HOST_RXL),
     resumeThread (dsp_core_hostport_cpuread s))"
  by (simp add: host_receive_def dsp_core_read_host_def Let_def)

lemma cpuread_step:
  assumes "bit (HSR s) DSP_HOST_HSR_HTDE"
  shows "bit (ISR (dsp_core_hostport_cpuread s)) k \<longleftrightarrow> k \<noteq> CPU_HOST_ISR_RXDF \<and> bit (ISR s) k"
    and "periph (dsp_core_hostport_cpuread s) = periph s"
  using assms isr_clear [of CPU_HOST_ISR_RXDF "ISR s" k]
  by (simp_all add: dsp_core_hostport_cpuread_def dsp_core_dsp2host_def Let_def)

lemma d2h_delivery:
  assumes "d2h_ready s" "word24 w"
  shows "fst (host_receive (dsp_send w s)) = w" and "d2h_ready (snd (host_receive (dsp_send w s)))"
proof -
  note d = dsp_send_ready [OF assms]
  show "fst (host_receive (dsp_send w s)) = w"
    using compose_bytes(1) [OF assms(2)] by (simp add: host_receive_eq d)
  have h: "bit (HSR (dsp_send w s)) DSP_HOST_HSR_HTDE" using assms(1) by (simp add: d2h_ready_def d)
  note c = cpuread_step [OF h]
  show "d2h_ready (snd (host_receive (dsp_send w s)))"
    using h by (simp add: host_receive_eq d2h_ready_def c)
qed

interpretation d2h: mailbox d2h_ready word24 dsp_send host_receive
  by (rule mailbox.intro) (simp_all only: d2h_delivery)

text \<open>
  The host sends a second word before the DSP has read the first, as TXDE allows.
\<close>

lemma cpuwrite_pending:
  assumes "bit (HSR s) DSP_HOST_HSR_HRDF"
  shows "\<not> bit (ISR (dsp_core_hostport_cpuwrite s)) CPU_HOST_ISR_TXDE"
    and "periph (dsp_core_hostport_cpuwrite s) = periph s"
    and "a \<noteq> CPU_HOST_ISR \<Longrightarrow> hostport (dsp_core_hostport_cpuwrite s) a = hostport s a"
    and "running (dsp_core_hostport_cpuwrite s) = running s"
proof -
  define s1 where "s1 = set_hostport CPU_HOST_ISR (ISR s AND (0xff - push_bit CPU_HOST_ISR_TXDE 1)) s"
  have s1: "bit (ISR s1) k \<longleftrightarrow> k \<noteq> CPU_HOST_ISR_TXDE \<and> bit (ISR s) k" for k
    using isr_clear [of CPU_HOST_ISR_TXDE "ISR s" k] by (simp add: s1_def)
  have o: "periph s1 = periph s" "running s1 = running s" "a \<noteq> CPU_HOST_ISR \<Longrightarrow> hostport s1 a = hostport s a" for a
    by (simp_all add: s1_def)
  have t: "bit (ISR (dsp_core_hostport_update_trdy s1)) CPU_HOST_ISR_TXDE \<longleftrightarrow> False"
    unfolding trdy_ISR s1 by simp
  have e: "dsp_core_hostport_cpuwrite s = dsp_core_hostport_update_trdy s1"
    using t assms by (simp add: dsp_core_hostport_cpuwrite_def s1_def dsp_core_host2dsp_def Let_def)
  show "\<not> bit (ISR (dsp_core_hostport_cpuwrite s)) CPU_HOST_ISR_TXDE"
    "periph (dsp_core_hostport_cpuwrite s) = periph s"
    "running (dsp_core_hostport_cpuwrite s) = running s"
    unfolding e trdy_other using t by (simp_all add: o)
  show "a \<noteq> CPU_HOST_ISR \<Longrightarrow> hostport (dsp_core_hostport_cpuwrite s) a = hostport s a"
    unfolding e by (simp add: o)
qed

lemma dspread_pending:
  assumes "\<not> bit (ISR s) CPU_HOST_ISR_TXDE"
  shows "periph (dsp_core_hostport_dspread s) DSP_SPACE_X DSP_HOST_HRX =
      (ucast (hostport s CPU_HOST_TXL) OR push_bit 8 (ucast (hostport s CPU_HOST_TXM)))
        OR push_bit 16 (ucast (hostport s CPU_HOST_TXH))"
    and "bit (ISR (dsp_core_hostport_dspread s)) CPU_HOST_ISR_TXDE"
    and "bit (HSR (dsp_core_hostport_dspread s)) DSP_HOST_HSR_HRDF"
proof -
  define s1 where "s1 = set_periph DSP_SPACE_X DSP_HOST_HSR (HSR s AND (0xff - push_bit DSP_HOST_HSR_HRDF 1)) s"
  define s2 where "s2 = dsp_core_hostport_update_trdy s1"
  have "bit (HSR s1) DSP_HOST_HSR_HRDF \<longleftrightarrow> False"
    using hsr_clear [of DSP_HOST_HSR_HRDF "HSR s" DSP_HOST_HSR_HRDF] by (simp add: s1_def)
  then have s2: "\<not> bit (HSR s2) DSP_HOST_HSR_HRDF" "\<not> bit (ISR s2) CPU_HOST_ISR_TXDE"
    using assms unfolding s2_def trdy_ISR by (simp_all add: s1_def)
  have o: "hostport s2 a = hostport s a" if "a \<noteq> CPU_HOST_ISR" for a using that by (simp add: s2_def s1_def)
  have e: "dsp_core_hostport_dspread s = dsp_core_host2dsp s2"
    by (simp add: dsp_core_hostport_dspread_def s1_def s2_def Let_def)
  note h = or_bit [of "ISR s2" CPU_HOST_ISR_TXDE CPU_HOST_ISR_TXDE] or_bit [of "HSR s2" DSP_HOST_HSR_HRDF DSP_HOST_HSR_HRDF]
  show "periph (dsp_core_hostport_dspread s) DSP_SPACE_X DSP_HOST_HRX =
      (ucast (hostport s CPU_HOST_TXL) OR push_bit 8 (ucast (hostport s CPU_HOST_TXM)))
        OR push_bit 16 (ucast (hostport s CPU_HOST_TXH))"
    unfolding e dsp_core_host2dsp_def using s2 by (simp add: Let_def o)
  show "bit (ISR (dsp_core_hostport_dspread s)) CPU_HOST_ISR_TXDE"
    "bit (HSR (dsp_core_hostport_dspread s)) DSP_HOST_HSR_HRDF"
    unfolding e dsp_core_host2dsp_def using s2 h by (simp_all add: Let_def trdy_ISR)
qed

lemma second_word_lost:
  assumes "h2d_ready s" "word24 w1" "word24 w2"
  shows "bit (ISR (host_send w1 s)) CPU_HOST_ISR_TXDE"
    and "fst (dsp_receive (host_send w2 (host_send w1 s))) = w2"
    and "fst (dsp_receive (snd (dsp_receive (host_send w2 (host_send w1 s))))) = w2"
proof -
  define s1 where "s1 = host_send w1 s"
  note h = host_send_ready [OF assms(1,2), folded s1_def]
  show "bit (ISR (host_send w1 s)) CPU_HOST_ISR_TXDE"
    using assms(1) h(1) by (simp add: h2d_ready_def s1_def [symmetric])
  define s2 where "s2 = set_hostport CPU_HOST_TXL (ucast w2) (set_hostport CPU_HOST_TXM (ucast (drop_bit 8 w2))
    (set_hostport CPU_HOST_TXH (ucast (drop_bit 16 w2)) s1))"
  have "bit (HSR s2) DSP_HOST_HSR_HRDF" by (simp add: s2_def h)
  note c = cpuwrite_pending [OF this]
  define s3 where "s3 = host_send w2 s1"
  have e: "s3 = resumeThread (dsp_core_hostport_cpuwrite s2)"
    using h(4) by (simp add: s3_def host_send_def dsp_core_write_host_def s2_def Let_def)
  have t: "\<not> bit (ISR s3) CPU_HOST_ISR_TXDE" using c(1) by (simp add: e)
  note p = dspread_pending [OF t]
  have b: "hostport s3 CPU_HOST_TXL = ucast w2" "hostport s3 CPU_HOST_TXM = ucast (drop_bit 8 w2)"
    "hostport s3 CPU_HOST_TXH = ucast (drop_bit 16 w2)"
    unfolding e by (simp_all add: c) (simp_all add: s2_def)
  have r: "periph (dsp_core_hostport_dspread s3) DSP_SPACE_X DSP_HOST_HRX = w2"
    unfolding p b by (rule compose_bytes(2) [OF assms(3)])
  have "fst (dsp_receive s3) = w2" "snd (dsp_receive s3) = dsp_core_hostport_dspread s3"
    by (simp_all add: dsp_receive_eq Let_def r word24_mask [OF assms(3)])
  moreover have "fst (dsp_receive (dsp_core_hostport_dspread s3)) = w2"
    using dspread_step(3) [OF p(2)] by (simp add: dsp_receive_eq Let_def r word24_mask [OF assms(3)])
  ultimately show "fst (dsp_receive (host_send w2 (host_send w1 s))) = w2"
    "fst (dsp_receive (snd (dsp_receive (host_send w2 (host_send w1 s))))) = w2"
    by (simp_all add: s3_def s1_def)
qed

text \<open>A word the DSP has sent, and a word the host sends before it has read that one.\<close>

lemma unread_word_overwritten:
  assumes "h2d_ready s" "d2h_ready s" "word24 w" "word24 x"
  shows "fst (host_receive (host_send x (dsp_send w s))) = x"
proof -
  note d = dsp_send_ready [OF assms(2,3)]
  have "h2d_ready (dsp_send w s)" using assms(1) by (simp add: h2d_ready_def d)
  note h = host_send_ready [OF this assms(4)]
  show ?thesis using compose_bytes(1) [OF assms(4)] by (simp add: host_receive_eq h)
qed


text \<open>TRDY is TXDE and not HRDF.\<close>

definition trdy_inv :: "dsp_core_t \<Rightarrow> bool" where
  "trdy_inv s \<longleftrightarrow>
     (bit (ISR s) CPU_HOST_ISR_TRDY \<longleftrightarrow> bit (ISR s) CPU_HOST_ISR_TXDE \<and> \<not> bit (HSR s) DSP_HOST_HSR_HRDF)"

lemma trdy_inv_update: "trdy_inv (dsp_core_hostport_update_trdy s)"
  unfolding trdy_inv_def trdy_ISR trdy_other by simp

lemma trdy_inv_host2dsp: "trdy_inv s \<Longrightarrow> trdy_inv (dsp_core_host2dsp s)"
  by (simp add: dsp_core_host2dsp_def trdy_inv_update Let_def)

lemma trdy_inv_cong:
  "trdy_inv s \<Longrightarrow> (\<And>k. k = CPU_HOST_ISR_TRDY \<or> k = CPU_HOST_ISR_TXDE \<Longrightarrow> bit (ISR t) k = bit (ISR s) k) \<Longrightarrow>
    bit (HSR t) DSP_HOST_HSR_HRDF = bit (HSR s) DSP_HOST_HSR_HRDF \<Longrightarrow> trdy_inv t"
  by (simp add: trdy_inv_def)

lemma trdy_inv_dsp2host: "trdy_inv s \<Longrightarrow> trdy_inv (dsp_core_dsp2host s)"
  using or_bit [of "ISR s" CPU_HOST_ISR_RXDF CPU_HOST_ISR_TRDY] or_bit [of "ISR s" CPU_HOST_ISR_RXDF CPU_HOST_ISR_TXDE]
    or_bit [of "HSR s" DSP_HOST_HSR_HTDE DSP_HOST_HSR_HRDF]
  by (simp add: dsp_core_dsp2host_def trdy_inv_def Let_def)

lemma trdy_inv_dspread: "trdy_inv (dsp_core_hostport_dspread s)"
  by (simp add: dsp_core_hostport_dspread_def Let_def trdy_inv_host2dsp trdy_inv_update)

lemma trdy_inv_cpuwrite: "trdy_inv (dsp_core_hostport_cpuwrite s)"
  by (simp add: dsp_core_hostport_cpuwrite_def Let_def trdy_inv_host2dsp trdy_inv_update)

lemma trdy_inv_dspwrite: "trdy_inv s \<Longrightarrow> trdy_inv (dsp_core_hostport_dspwrite s)"
  unfolding dsp_core_hostport_dspwrite_def Let_def
  by (rule trdy_inv_dsp2host, erule trdy_inv_cong)
    (simp_all add: hsr_clear [of DSP_HOST_HSR_HTDE, simplified])

lemma trdy_inv_cpuread: "trdy_inv s \<Longrightarrow> trdy_inv (dsp_core_hostport_cpuread s)"
  unfolding dsp_core_hostport_cpuread_def Let_def
  by (rule trdy_inv_dsp2host, erule trdy_inv_cong)
    (auto simp add: isr_clear [of CPU_HOST_ISR_RXDF, simplified])

lemma trdy_inv_frame:
  "trdy_inv s \<Longrightarrow> hostport t CPU_HOST_ISR = ISR s \<Longrightarrow> periph t DSP_SPACE_X DSP_HOST_HSR = HSR s \<Longrightarrow> trdy_inv t"
  by (simp add: trdy_inv_def)

lemma trdy_inv_resume: "trdy_inv s \<Longrightarrow> trdy_inv (resumeThread s)"
  by (erule trdy_inv_frame) simp_all

lemma trdy_inv_bootstrap: "trdy_inv s \<Longrightarrow> trdy_inv (bootstrap_word s)"
  by (erule trdy_inv_frame) (simp_all add: bootstrap_word_def Let_def raise_fault_def split: option.splits)

lemma trdy_inv_fault: "trdy_inv s \<Longrightarrow> trdy_inv (raise_fault e s)"
  by (erule trdy_inv_frame) (simp_all add: raise_fault_def split: option.splits)

lemma trdy_inv_write_host:
  assumes "trdy_inv s"
  shows "trdy_inv (dsp_core_write_host addr value s)"
proof -
  have hf: "bit ((HSR s AND (0xff - (push_bit DSP_HOST_HSR_HF1 1 OR push_bit DSP_HOST_HSR_HF0 1)))
      OR (x AND (push_bit DSP_HOST_HSR_HF1 1 OR push_bit DSP_HOST_HSR_HF0 1))) DSP_HOST_HSR_HRDF = bit (HSR s) DSP_HOST_HSR_HRDF" for x
    by (simp add: even_and_iff even_or_iff bit_0)
  have icr: "trdy_inv (dsp_core_write_host CPU_HOST_ICR value s)"
    using assms hf by (simp add: dsp_core_write_host_def trdy_inv_def Let_def)
  have cvr: "trdy_inv (dsp_core_write_host CPU_HOST_CVR value s)"
    using assms or_bit [of "HSR s" DSP_HOST_HSR_HCP DSP_HOST_HSR_HRDF]
    by (simp add: dsp_core_write_host_def trdy_inv_def Let_def)
  have txl: "trdy_inv (dsp_core_write_host CPU_HOST_TXL value s)"
    unfolding dsp_core_write_host_def using trdy_inv_frame [OF assms, of "set_hostport CPU_HOST_TXL value s"]
    by (simp add: Let_def trdy_inv_bootstrap trdy_inv_resume trdy_inv_cpuwrite)
  have data: "trdy_inv (dsp_core_write_host a value s)" if "a = CPU_HOST_IVR \<or> a = CPU_HOST_TXH \<or> a = CPU_HOST_TXM" for a
    using that assms by (auto simp: dsp_core_write_host_def intro: trdy_inv_frame)
  show ?thesis
  proof (cases "addr = CPU_HOST_ICR \<or> addr = CPU_HOST_CVR \<or> addr = CPU_HOST_TXL \<or>
      addr = CPU_HOST_IVR \<or> addr = CPU_HOST_TXH \<or> addr = CPU_HOST_TXM")
    case True then show ?thesis using icr cvr txl data by blast
  next
    case False then show ?thesis using assms by (simp add: dsp_core_write_host_def)
  qed
qed

lemma trdy_inv_read_host: "trdy_inv s \<Longrightarrow> trdy_inv (snd (dsp_core_read_host addr s))"
  by (simp add: dsp_core_read_host_def Let_def trdy_inv_resume trdy_inv_cpuread trdy_inv_fault)

lemma trdy_inv_host_access: "trdy_inv s \<Longrightarrow> trdy_inv (host_access h s)"
  by (cases h) (simp_all add: trdy_inv_read_host trdy_inv_write_host)

lemma trdy_inv_read_memory: "trdy_inv s \<Longrightarrow> trdy_inv (snd (read_memory space address s))"
  by (simp add: read_memory_def Let_def trdy_inv_dspread)

lemma trdy_inv_write_periph: 
  assumes "trdy_inv s"
  shows "trdy_inv (write_periph_x a value s)"
proof -
  have hf: "bit ((ISR s AND ucast (BITMASK 8 - (push_bit CPU_HOST_ISR_HF3 1 OR push_bit CPU_HOST_ISR_HF2 1 :: u32)))
      OR ucast (x AND (push_bit CPU_HOST_ISR_HF3 1 OR push_bit CPU_HOST_ISR_HF2 1 :: u32))) k = bit (ISR s) k"
    if "k = CPU_HOST_ISR_TRDY \<or> k = CPU_HOST_ISR_TXDE" for x k
    using that by (auto simp: BITMASK_def bit_and_iff bit_or_iff bit_unsigned_iff)
  show ?thesis
    using trdy_inv_dspwrite [OF trdy_inv_frame [OF assms, of "set_periph DSP_SPACE_X DSP_HOST_HTX value s"]] assms hf
      trdy_inv_frame [OF assms, of "set_periph DSP_SPACE_X a value s"]
    by (simp add: write_periph_x_def trdy_inv_def Let_def)
qed

lemma trdy_inv_write_memory: "trdy_inv s \<Longrightarrow> trdy_inv (write_memory space address value s)"
  unfolding write_memory_def Let_def
  by (auto intro: trdy_inv_frame trdy_inv_write_periph)

text \<open>The state after reset: the channels are empty and the DSP waits for its bootstrap program.\<close>

lemma fold_setreg:
  "fold (\<lambda>i. setreg (r + i) v) xs s = registers_update (\<lambda>f k. if k \<in> (\<lambda>i. r + i) ` set xs then v else f k) s"
proof (induction xs arbitrary: s)
  case (Cons x xs)
  have e: "(\<lambda>f k. if k \<in> (\<lambda>i. r + i) ` set xs then v else f k) \<circ> (\<lambda>f. f(r + x := v))
    = (\<lambda>f k. if k \<in> (\<lambda>i. r + i) ` set (x # xs) then v else f k)"
    by (auto simp: fun_eq_iff)
  show ?case unfolding fold_Cons comp_apply Cons.IH e [symmetric] by simp
qed simp

lemma shutdown_frame [simp]:
  "running (dsp_core_shutdown s) = False" "thread (dsp_core_shutdown s) = False"
  "semaphore (dsp_core_shutdown s) = None" "mutex (dsp_core_shutdown s) = False"
  "use_thread (dsp_core_shutdown s) = use_thread s" "fault (dsp_core_shutdown s) = fault s"
  "ramint (dsp_core_shutdown s) = ramint s" "ram (dsp_core_shutdown s) = ram s" "rom (dsp_core_shutdown s) = rom s"
  by (auto simp: dsp_core_shutdown_def resumeThread_def Let_def split: option.splits)

lemma reset_state:
  "running (dsp_core_reset s) = False" "pc (dsp_core_reset s) = 0" "bootstrap_pos (dsp_core_reset s) = 0"
  "ISR (dsp_core_reset s) = push_bit CPU_HOST_ISR_TRDY 1 OR push_bit CPU_HOST_ISR_TXDE 1"
  "HSR (dsp_core_reset s) = push_bit DSP_HOST_HSR_HTDE 1"
  "fault (dsp_core_reset s) = fault s"
  "registers (dsp_core_reset s) r = (if r = DSP_REG_OMR then 2 else if DSP_REG_M0 \<le> r \<and> r < DSP_REG_M0 + 8 then 0xffff else 0)"
proof -
  have m: "r \<in> (\<lambda>i. DSP_REG_M0 + i) ` set [0..<8] \<longleftrightarrow> DSP_REG_M0 \<le> r \<and> r < DSP_REG_M0 + 8" for r
    by (auto simp: image_iff Bex_def intro: exI [of _ "r - 32"])
  show "running (dsp_core_reset s) = False" "pc (dsp_core_reset s) = 0" "bootstrap_pos (dsp_core_reset s) = 0"
    "ISR (dsp_core_reset s) = push_bit CPU_HOST_ISR_TRDY 1 OR push_bit CPU_HOST_ISR_TXDE 1"
    "HSR (dsp_core_reset s) = push_bit DSP_HOST_HSR_HTDE 1"
    "fault (dsp_core_reset s) = fault s"
    "registers (dsp_core_reset s) r = (if r = DSP_REG_OMR then 2 else if DSP_REG_M0 \<le> r \<and> r < DSP_REG_M0 + 8 then 0xffff else 0)"
    unfolding dsp_core_reset_def Let_def fold_setreg m by simp_all
qed

lemma trdy_inv_reset: "trdy_inv (dsp_core_reset s)"
  by (simp add: trdy_inv_def reset_state bit_or_iff)


text \<open>The bootstrap: words sent while the DSP is not running fill its internal program memory.\<close>

lemma host_send_boot:
  assumes "\<not> running s" "unat (bootstrap_pos s) < 512" "word24 w"
  shows "unat (bootstrap_pos (host_send w s)) = unat (bootstrap_pos s) + 1"
    and "running (host_send w s) \<longleftrightarrow> unat (bootstrap_pos s) = 511"
    and "ramint (host_send w s) = upd2 (ramint s) DSP_SPACE_P (unat (bootstrap_pos s)) w"
    and "pc (host_send w s) = pc s" "fault (host_send w s) = fault s"
proof -
  have l: "bootstrap_pos s < 0x200" using assms(2) by (simp add: word_less_nat_alt)
  have u: "unat (bootstrap_pos s + 1) = unat (bootstrap_pos s) + 1"
    using assms(2) by (subst unat_plus_small) simp_all
  then have r: "bootstrap_pos s + 1 = 0x200 \<longleftrightarrow> unat (bootstrap_pos s) = 511"
    by (simp add: word_unat_eq_iff)
  define s1 where "s1 = set_hostport CPU_HOST_TXL (ucast w) (set_hostport CPU_HOST_TXM (ucast (drop_bit 8 w))
    (set_hostport CPU_HOST_TXH (ucast (drop_bit 16 w)) s))"
  define s2 where "s2 = set_ramint DSP_SPACE_P (unat (bootstrap_pos s)) w s1\<lparr>bootstrap_pos := bootstrap_pos s + 1\<rparr>"
  have "host_send w s = bootstrap_word s1"
    using assms(1) by (simp add: host_send_def dsp_core_write_host_def s1_def Let_def)
  also have "\<dots> = (if unat (bootstrap_pos s) = 511 then resumeThread (s2\<lparr>running := True\<rparr>) else s2)"
    using l r compose_bytes(1) [OF assms(3)] by (simp add: bootstrap_word_def s1_def s2_def Let_def)
  finally have e: "host_send w s = (if unat (bootstrap_pos s) = 511 then resumeThread (s2\<lparr>running := True\<rparr>) else s2)" .
  show "unat (bootstrap_pos (host_send w s)) = unat (bootstrap_pos s) + 1"
    "running (host_send w s) \<longleftrightarrow> unat (bootstrap_pos s) = 511"
    "ramint (host_send w s) = upd2 (ramint s) DSP_SPACE_P (unat (bootstrap_pos s)) w"
    "pc (host_send w s) = pc s" "fault (host_send w s) = fault s"
    unfolding e using u assms(1) by (simp_all add: s2_def s1_def)
qed

lemma boot_fold:
  assumes "\<not> running s" "unat (bootstrap_pos s) < 512" "unat (bootstrap_pos s) + length ws \<le> 512" "list_all word24 ws"
  shows "(running (fold host_send ws s) \<longleftrightarrow> unat (bootstrap_pos s) + length ws = 512)
    \<and> (\<forall>j. ramint (fold host_send ws s) DSP_SPACE_P j =
          (if unat (bootstrap_pos s) \<le> j \<and> j < unat (bootstrap_pos s) + length ws
           then ws ! (j - unat (bootstrap_pos s)) else ramint s DSP_SPACE_P j))
    \<and> pc (fold host_send ws s) = pc s \<and> fault (fold host_send ws s) = fault s"
  using assms
proof (induction ws arbitrary: s)
  case (Cons w ws)
  note h = host_send_boot [OF Cons.prems(1,2), of w]
  have w: "word24 w" using Cons.prems by simp
  show ?case
  proof (cases "unat (bootstrap_pos s) = 511")
    case True
    then have "ws = []" using Cons.prems(3) by simp
    then show ?thesis using h [OF w] True by (auto simp: upd2_apply)
  next
    case False
    have p: "\<not> running (host_send w s)" "unat (bootstrap_pos (host_send w s)) < 512"
      using h(1,2) [OF w] False Cons.prems(2) by simp_all
    have "unat (bootstrap_pos (host_send w s)) + length ws \<le> 512" "list_all word24 ws"
      using Cons.prems(3,4) h(1) [OF w] by simp_all
    note I = Cons.IH [OF p this]
    show ?thesis
      using I h [OF w] by (auto simp: upd2_apply nth_Cons' Suc_le_eq)
  qed
qed auto

text \<open>Interleavings of accesses: the m68k side through its eight registers, the DSP through its memory.\<close>

inductive bus_reach :: "dsp_core_t \<Rightarrow> dsp_core_t \<Rightarrow> bool" for s0 where
  start: "bus_reach s0 s0"
| host: "bus_reach s0 s \<Longrightarrow> bus_reach s0 (host_access h s)"
| dsp_read: "bus_reach s0 s \<Longrightarrow> bus_reach s0 (snd (read_memory space address s))"
| dsp_write: "bus_reach s0 s \<Longrightarrow> bus_reach s0 (write_memory space address value s)"

lemma bus_reach_send: "bus_reach s0 s \<Longrightarrow> bus_reach s0 (host_send w s)"
  using bus_reach.host [of s0 _ "HostWrite _ _"] by (simp add: host_send_def Let_def)

lemma bus_reach_trdy: "bus_reach (dsp_core_reset s0) s \<Longrightarrow> trdy_inv s"
  by (induction rule: bus_reach.induct)
    (simp_all add: trdy_inv_reset trdy_inv_host_access trdy_inv_read_memory trdy_inv_write_memory)

text \<open>A state in which the DSP runs with both channels empty.\<close>

definition idle_core :: dsp_core_t where
  "idle_core = dsp_core_reset cleared_core\<lparr>running := True\<rparr>"

lemma idle_core_ready: "h2d_ready idle_core" "d2h_ready idle_core"
  by (simp_all add: idle_core_def h2d_ready_def d2h_ready_def reset_state bit_or_iff)

section \<open>Properties\<close>

text \<open>
  C7. Host to DSP: when the DSP runs, the transmit register is empty and the DSP has no unread word,
  every sequence of 24-bit words that the m68k side writes to TXH, TXM, TXL, each followed by one read
  of X:HRX on the DSP side, arrives unchanged and in order, and the channel is ready again.
\<close>
theorem host_to_dsp_transfer:
  assumes "h2d_ready s" and "list_all word24 ws"
  shows "fst (transfer host_send dsp_receive ws s) = ws \<and> h2d_ready (snd (transfer host_send dsp_receive ws s))"
  using assms by (rule h2d.transfer_all)

theorem host_to_dsp_transfer_witness:
  "fst (transfer host_send dsp_receive [0x123456, 0xffffff] idle_core) = [0x123456, 0xffffff]"
  using host_to_dsp_transfer [OF idle_core_ready(1), of "[0x123456, 0xffffff]"] by (simp add: word24_def)

text \<open>
  C8. DSP to host: when the receive register of the host is empty and the DSP's transmit register
  is empty, every sequence of 24-bit words the DSP writes to X:HTX, each followed by a read of RXH, RXM
  and RXL by the m68k side, arrives unchanged and in order, and the channel is ready again.
\<close>
theorem dsp_to_host_transfer:
  assumes "d2h_ready s" and "list_all word24 ws"
  shows "fst (transfer dsp_send host_receive ws s) = ws \<and> d2h_ready (snd (transfer dsp_send host_receive ws s))"
  using assms by (rule d2h.transfer_all)

theorem dsp_to_host_transfer_witness:
  "fst (transfer dsp_send host_receive [0xabcdef, 1] idle_core) = [0xabcdef, 1]"
  using dsp_to_host_transfer [OF idle_core_ready(2), of "[0xabcdef, 1]"] by (simp add: word24_def)

text \<open>
  C9. In every state reached from reset by any interleaving of host port accesses of the m68k side
  and memory accesses of the DSP, the TRDY bit of the ISR says that both TX and HRX are empty.
\<close>
theorem trdy_invariant:
  assumes "bus_reach (dsp_core_reset s0) s"
  shows "bit (ISR s) CPU_HOST_ISR_TRDY \<longleftrightarrow> bit (ISR s) CPU_HOST_ISR_TXDE \<and> \<not> bit (HSR s) DSP_HOST_HSR_HRDF"
  using bus_reach_trdy [OF assms] by (simp add: trdy_inv_def)

theorem trdy_invariant_witness:
  "bus_reach (dsp_core_reset cleared_core) (host_send 0x123456 (dsp_core_reset cleared_core))
   \<and> (bit (ISR (host_send 0x123456 (dsp_core_reset cleared_core))) CPU_HOST_ISR_TRDY
       \<longleftrightarrow> bit (ISR (host_send 0x123456 (dsp_core_reset cleared_core))) CPU_HOST_ISR_TXDE
           \<and> \<not> bit (HSR (host_send 0x123456 (dsp_core_reset cleared_core))) DSP_HOST_HSR_HRDF)"
  using trdy_invariant [OF bus_reach_send [OF bus_reach.start]] bus_reach_send [OF bus_reach.start] by blast

text \<open>
  C10. The bootstrap: after a reset, 512 words written by the m68k side to TXH, TXM, TXL fill the
  internal program memory in order, and the DSP starts to run at address 0 exactly with the last one.
\<close>
theorem bootstrap_loads:
  assumes "length ws = 512" and "list_all word24 ws"
  shows "running (fold host_send ws (dsp_core_reset s)) \<and> pc (fold host_send ws (dsp_core_reset s)) = 0
    \<and> (\<forall>j < 512. ramint (fold host_send ws (dsp_core_reset s)) DSP_SPACE_P j = ws ! j)
    \<and> (\<forall>n < 512. \<not> running (fold host_send (take n ws) (dsp_core_reset s)))
    \<and> fault (fold host_send ws (dsp_core_reset s)) = fault s"
proof -
  have "list_all word24 (take n ws)" for n
    using assms(2) by (meson in_set_takeD list_all_iff)
  then show ?thesis
    using boot_fold [of "dsp_core_reset s" ws] boot_fold [of "dsp_core_reset s" "take n ws" for n] assms
    by (simp add: reset_state)
qed

theorem bootstrap_loads_witness:
  "running (fold host_send (replicate 512 0x0c0000) (dsp_core_reset cleared_core))"
  using bootstrap_loads [of "replicate 512 0x0c0000" cleared_core] by (simp add: word24_def list_all_iff)

text \<open>
  C11. A second word lost: after one word the transmit register reads empty (TXDE), and if the
  m68k side then writes a second word before the DSP has read the first, the DSP's next read returns the
  second word and the one after it the second word again; the first one is never delivered.
\<close>
theorem pending_word_replaces_unread:
  assumes "h2d_ready s" and "word24 w1" and "word24 w2"
  shows "bit (ISR (host_send w1 s)) CPU_HOST_ISR_TXDE
    \<and> fst (dsp_receive (host_send w2 (host_send w1 s))) = w2
    \<and> fst (dsp_receive (snd (dsp_receive (host_send w2 (host_send w1 s))))) = w2"
  using second_word_lost [OF assms] by blast

theorem pending_word_replaces_unread_witness:
  "fst (dsp_receive (host_send 2 (host_send 1 idle_core))) = 2"
  using pending_word_replaces_unread [OF idle_core_ready(1), of 1 2] by (simp add: word24_def)

text \<open>
  C12. The receive and transmit registers of the host share their storage: a word the DSP has sent
  and the m68k side has not read is replaced by the next word the m68k side sends.
\<close>
theorem host_write_replaces_received:
  assumes "h2d_ready s" and "d2h_ready s" and "word24 w" and "word24 x"
  shows "bit (ISR (dsp_send w s)) CPU_HOST_ISR_RXDF \<and> fst (host_receive (host_send x (dsp_send w s))) = x"
  using dsp_send_ready [OF assms(2,3)] unread_word_overwritten [OF assms] by blast

theorem host_write_replaces_received_witness:
  "fst (host_receive (host_send 2 (dsp_send 1 idle_core))) = 2"
  using host_write_replaces_received [OF idle_core_ready, of 1 2] by (simp add: word24_def)

end
