(* ===== verification/Dsp_Address.thy ===== *)
theory Dsp_Address
  imports Dsp_Ccr
begin

text \<open>
  Effective addresses and address register updates (\<open>src/src/dsp_cpu.c\<close>, section
  ``Effective address calculation''): linear, modulo and bit-reversed addressing. A C
  \<open>Sint16\<close> is a 16-bit word read with \<open>sint\<close>; a comparison of \<open>Sint16\<close> with
  \<open>Uint16\<close> takes place in \<open>int\<close>, as after the C integer promotions.
\<close>

text \<open>The loop that mirrors the low \<open>revbits\<close> bits of \<open>r\<close> into \<open>value\<close>.\<close>

definition reverse_bits :: "nat \<Rightarrow> u32 \<Rightarrow> u32 \<Rightarrow> u32" where
  "reverse_bits revbits r value =
     fold (\<lambda>i value. if has_bit r i then value OR push_bit (revbits - i - 1) 1 else value) [0..<revbits] value"

definition dsp_update_rn_bitreverse :: "nat \<Rightarrow> dsp_core_t \<Rightarrow> dsp_core_t" where
  "dsp_update_rn_bitreverse numreg s =
     (let value = registers s (DSP_REG_N0 + numreg);
          revbits = (case find (has_bit value) [0..<16] of Some i \<Rightarrow> i | None \<Rightarrow> 16);
          revbits = revbits + 1;
          r_reg = registers s (DSP_REG_R0 + numreg);
          value = reverse_bits revbits r_reg (r_reg AND (BITMASK 16 - BITMASK revbits));
          value = value + 1;
          value = value AND BITMASK revbits;
          r_reg = r_reg AND (BITMASK 16 - BITMASK revbits);
          r_reg = r_reg OR value;
          value = reverse_bits revbits r_reg (r_reg AND (BITMASK 16 - BITMASK revbits))
      in setreg (DSP_REG_R0 + numreg) value s)"

text \<open>
  The three loops of the modulo update. The first argument bounds the number of iterations: 16
  doublings reach any buffer size, and 65536 steps of at least 1 cross the range of a
  \<open>Sint16\<close>.
\<close>

primrec bufsize_loop :: "nat \<Rightarrow> u16 \<Rightarrow> u16 \<Rightarrow> u16 \<Rightarrow> u16 \<times> u16" where
  "bufsize_loop 0 modulus bufsize bufmask = (bufsize, bufmask)"
| "bufsize_loop (Suc n) modulus bufsize bufmask =
     (if bufsize < modulus then bufsize_loop n modulus (push_bit 1 bufsize) (push_bit 1 bufmask)
      else (bufsize, bufmask))"

primrec shrink_up :: "nat \<Rightarrow> u16 \<Rightarrow> u16 \<Rightarrow> u16 \<Rightarrow> u16 \<times> u16" where
  "shrink_up 0 bufsize r_reg modifier = (r_reg, modifier)"
| "shrink_up (Suc n) bufsize r_reg modifier =
     (if sint modifier > uint bufsize then shrink_up n bufsize (r_reg + bufsize) (modifier - bufsize)
      else (r_reg, modifier))"

primrec shrink_down :: "nat \<Rightarrow> u16 \<Rightarrow> u16 \<Rightarrow> u16 \<Rightarrow> u16 \<times> u16" where
  "shrink_down 0 bufsize r_reg modifier = (r_reg, modifier)"
| "shrink_down (Suc n) bufsize r_reg modifier =
     (if sint modifier < - uint bufsize then shrink_down n bufsize (r_reg - bufsize) (modifier + bufsize)
      else (r_reg, modifier))"

definition dsp_update_rn_modulo :: "nat \<Rightarrow> u16 \<Rightarrow> dsp_core_t \<Rightarrow> dsp_core_t" where
  "dsp_update_rn_modulo numreg modifier s =
     (let orig_modifier = modifier;
          modulus = ucast (registers s (DSP_REG_M0 + numreg) + 1) :: u16;
          (bufsize, bufmask) = bufsize_loop 16 modulus 1 (ucast (BITMASK 16));
          lobound = ucast (registers s (DSP_REG_R0 + numreg) AND ucast bufmask) :: u16;
          hibound = lobound + modulus - 1;
          r_reg = ucast (registers s (DSP_REG_R0 + numreg)) :: u16;
          (r_reg, modifier) =
            (if sint orig_modifier > uint modulus then
               (let (r_reg, modifier) = shrink_up 65536 bufsize r_reg modifier
                in shrink_down 65536 bufsize r_reg modifier)
             else (r_reg, modifier));
          r_reg = r_reg + modifier;
          r_reg =
            (if sint orig_modifier \<noteq> uint modulus then
               (if sint r_reg > uint hibound then r_reg - modulus
                else if sint r_reg < uint lobound then r_reg + modulus
                else r_reg)
             else r_reg)
      in setreg (DSP_REG_R0 + numreg) (scast r_reg AND BITMASK 16) s)"

definition dsp_update_rn :: "nat \<Rightarrow> u16 \<Rightarrow> dsp_core_t \<Rightarrow> dsp_core_t" where
  "dsp_update_rn numreg modifier s =
     (let m_reg = ucast (registers s (DSP_REG_M0 + numreg)) :: u16
      in if m_reg = 0 then dsp_update_rn_bitreverse numreg s
         else if m_reg \<ge> 1 \<and> m_reg \<le> 32767 then dsp_update_rn_modulo numreg modifier s
         else if m_reg = 65535 then
           (let value = ucast (registers s (DSP_REG_R0 + numreg)) :: u16;
                value = value + modifier
            in setreg (DSP_REG_R0 + numreg) (scast value AND BITMASK 16) s)
         else s)"

text \<open>The result is the return value, the address stored through \<open>dst_addr\<close> and the state.\<close>

definition dsp_calc_ea :: "u32 \<Rightarrow> dsp_core_t \<Rightarrow> bool \<times> u32 \<times> dsp_core_t" where
  "dsp_calc_ea ea_mode s =
     (let value = drop_bit 3 ea_mode AND BITMASK 3;
          numreg = unat (ea_mode AND BITMASK 3);
          rn = (\<lambda>s. registers s (DSP_REG_R0 + numreg));
          nn = registers s (DSP_REG_N0 + numreg)
      in if value = 0 then (False, rn s, dsp_update_rn numreg (ucast (- nn)) s)
         else if value = 1 then (False, rn s, dsp_update_rn numreg (ucast nn) s)
         else if value = 2 then (False, rn s, dsp_update_rn numreg (- 1) s)
         else if value = 3 then (False, rn s, dsp_update_rn numreg 1 s)
         else if value = 4 then (False, rn s, s)
         else if value = 5 then
           (let curreg = rn s;
                s = dsp_update_rn numreg (ucast nn) s;
                dst_addr = rn s
            in (False, dst_addr, setreg (DSP_REG_R0 + numreg) curreg s))
         else if value = 6 then
           (let dst_addr = read_memory_p (pc s + 1) s;
                s = s\<lparr>cur_inst_len := cur_inst_len s + 1\<rparr>
            in (numreg \<noteq> 0, dst_addr, s))
         else
           (let s = dsp_update_rn numreg (- 1) s
            in (False, rn s, s)))"

section \<open>Modulo addressing\<close>

lemma bufsize_loop_pow:
  assumes "n + j = 16" "j \<le> k" "k < 16" "\<forall>i<k. 2 ^ i < unat modulus" "unat modulus \<le> 2 ^ k"
  shows "bufsize_loop n modulus (push_bit j 1) (push_bit j m) = (push_bit k 1, push_bit k m)"
  using assms
proof (induction n arbitrary: j)
  case (Suc n)
  have u: "unat (push_bit i 1 :: u16) = 2 ^ i" if "i < 16" for i
  proof -
    have "(2::nat) ^ i < 2 ^ 16" using that by (intro power_strict_increasing) auto
    then have "unat (of_nat (2 ^ i) :: u16) = 2 ^ i"
      by (simp only: unsigned_of_nat take_bit_eq_mod) simp
    then show ?thesis by (simp add: push_bit_eq_mult)
  qed
  show ?case
  proof (cases "j = k")
    case True
    then show ?thesis using Suc.prems u [of k] by (simp add: word_less_nat_alt)
  next
    case False
    then have "push_bit j 1 < modulus" using Suc.prems u [of j] by (simp add: word_less_nat_alt)
    then show ?thesis using Suc.IH [of "Suc j"] Suc.prems False by (simp add: push_bit_push_bit mult.commute)
  qed
qed simp









lemma setreg_same: "registers s r = v \<Longrightarrow> setreg r v s = s"
  by (cases s) (auto simp: fun_upd_idem)

lemma setreg_setreg: "setreg r v (setreg r w s) = setreg r v s"
  by (simp add: comp_def)




section \<open>Bit-reversed addressing\<close>

text \<open>The mirror image of the low \<open>k\<close> bits of a number.\<close>

fun mirror :: "nat \<Rightarrow> nat \<Rightarrow> nat" where
  "mirror 0 i = 0"
| "mirror (Suc k) i = 2 ^ k * (i mod 2) + mirror k (i div 2)"

lemma mirror_less: "mirror k i < 2 ^ k"
proof (induction k arbitrary: i)
  case (Suc k)
  have "i mod 2 \<le> 1" by simp
  then have "2 ^ k * (i mod 2) \<le> 2 ^ k * 1" by (rule mult_le_mono2)
  then show ?case using Suc.IH [of "i div 2"] by (simp only: mirror.simps power_Suc)
qed simp

lemma bit_mirror: "bit (mirror k i) j \<longleftrightarrow> j < k \<and> bit i (k - 1 - j)"
proof (induction k arbitrary: i j)
  case (Suc k)
  have "bit (2 ^ k * (i mod 2) + mirror k (i div 2)) j \<longleftrightarrow> bit (push_bit k (i mod 2) OR mirror k (i div 2)) j"
  proof -
    have "bit (mirror k (i div 2)) n \<longrightarrow> n < k" for n by (simp add: Suc.IH)
    then have "push_bit k (i mod 2) + mirror k (i div 2) = push_bit k (i mod 2) OR mirror k (i div 2)"
      by (intro disjunctive_add) (auto simp: bit_simps)
    then show ?thesis by (simp add: push_bit_eq_mult mult.commute)
  qed
  also have "\<dots> \<longleftrightarrow> j < Suc k \<and> bit i (Suc k - 1 - j)"
  proof -
    have "bit (i mod 2) n \<longleftrightarrow> n = 0 \<and> odd i" for n
      using bit_take_bit_iff [of 1 i n] by (auto simp: take_bit_eq_mod bit_0)
    moreover have "bit (i div 2) (k - 1 - j) = bit i (k - j)" if "j < k"
      using that by (simp add: Suc_diff_Suc flip: bit_Suc)
    ultimately show ?thesis using Suc.IH [of "i div 2" j]
      by (cases j k rule: linorder_cases) (simp_all add: bit_or_iff bit_push_bit_iff_nat bit_0)
  qed
  finally show ?case by simp
qed simp

lemma bit_reverse_bits:
  assumes "k \<le> 32"
  shows "bit (reverse_bits k r v) j \<longleftrightarrow> bit v j \<or> (j < k \<and> bit r (k - 1 - j))"
proof -
  have "bit (fold (\<lambda>i value. if has_bit r i then value OR push_bit (k - i - 1) 1 else value) [0..<n] v) j
    \<longleftrightarrow> bit v j \<or> (\<exists>i<n. j = k - i - 1 \<and> bit r i)" if "n \<le> k" for n
    using that
  proof (induction n)
    case (Suc n)
    then show ?case using assms by (auto simp: bit_simps less_Suc_eq)
  qed simp
  from this [of k] show ?thesis
    unfolding reverse_bits_def by (auto intro: exI [of _ "k - 1 - j"])
qed

lemma find_lowest: "t < 16 \<Longrightarrow> find (has_bit (push_bit t 1 :: u32)) [0..<16] = Some t"
proof -
  assume t: "t < 16"
  have "find (has_bit (push_bit t 1 :: u32)) [0..<16] = Some ([0..<16] ! t)"
    unfolding find_Some_iff by (intro exI [of _ t]) (use t in \<open>auto simp: bit_simps\<close>)
  then show ?thesis using t by simp
qed

lemma bit_high_mask: "k \<le> 16 \<Longrightarrow> bit (BITMASK 16 - BITMASK k) j \<longleftrightarrow> k \<le> j \<and> j < 16"
proof -
  assume k: "k \<le> 16"
  have "BITMASK 16 - BITMASK k = mask 16 AND NOT (mask k)"
  proof -
    have "mask 16 AND NOT (mask k) = mask 16 - take_bit k (mask 16 :: u32)" by (rule and_not_mask_minus)
    also have "take_bit k (mask 16 :: u32) = mask k"
      by (rule bit_word_eqI) (use k in \<open>auto simp: bit_simps\<close>)
    finally show ?thesis by (simp add: BITMASK_mask)
  qed
  then show ?thesis by (auto simp: bit_simps)
qed

lemma bit_limb: "m < 2 ^ k \<Longrightarrow> bit (2 ^ k * b + m) j \<longleftrightarrow> (if j < k then bit m j else bit b (j - k))" for m :: nat
proof -
  assume m: "m < 2 ^ k"
  then have "take_bit k m = m" by (rule take_bit_nat_eq_self)
  then have mk: "bit m n \<longrightarrow> n < k" for n using bit_take_bit_iff [of k m n] by metis
  then have "push_bit k b + m = push_bit k b OR m"
    by (intro disjunctive_add) (meson bit_push_bit_iff_nat leD)
  then have "2 ^ k * b + m = push_bit k b OR m" by (simp add: push_bit_eq_mult mult.commute)
  then show ?thesis using mk by (auto simp: bit_simps)
qed

lemma bit_bound: "m < 2 ^ k \<Longrightarrow> bit m j \<Longrightarrow> j < k" for m :: nat
  using bit_take_bit_iff [of k m j] by (simp add: take_bit_nat_eq_self)

lemma bit_of_nat32: "bit (of_nat m :: u32) j \<longleftrightarrow> j < 32 \<and> bit m j"
  by (simp add: bit_unat unsigned_of_nat bit_take_bit_iff)

text \<open>One update: the low \<open>k\<close> bits, mirrored, count up by one.\<close>

lemma bitreverse_step:
  assumes n: "registers s (DSP_REG_N0 + n) = push_bit t 1" "t < 16"
    and r: "unat (registers s (DSP_REG_R0 + n)) = 2 ^ Suc t * b + mirror (Suc t) i"
      "2 ^ Suc t * b < 65536" "i < 2 ^ Suc t"
  shows "dsp_update_rn_bitreverse n s =
    setreg (DSP_REG_R0 + n) (of_nat (2 ^ Suc t * b + mirror (Suc t) ((i + 1) mod 2 ^ Suc t))) s"
proof -
  define k where "k = Suc t"
  define r0 where "r0 = registers s (DSP_REG_R0 + n)"
  define hi where "hi = r0 AND (BITMASK 16 - BITMASK k)"
  have k: "k \<le> 16" and i: "i < 2 ^ k" using n(2) r(3) by (simp_all add: k_def)
  have b: "k + j < 16" if "bit b j" for j
    using bit_bound [of "2 ^ k * b" 16 "k + j"] bit_limb [of 0 k b "k + j"] r(2) that by (simp add: k_def)
  have rb: "bit r0 j \<longleftrightarrow> (if j < k then bit i (k - 1 - j) else bit b (j - k))" for j
    unfolding bit_unat r0_def r(1) k_def [symmetric] bit_limb [OF mirror_less] by (simp add: bit_mirror)
  have hi: "bit hi j \<longleftrightarrow> k \<le> j \<and> bit b (j - k)" for j
    using b [of "j - k"] by (auto simp: hi_def bit_and_iff bit_high_mask [OF k] rb)
  have rev: "take_bit k (reverse_bits k r0 hi) = of_nat i"
  proof (rule bit_word_eqI)
    fix j
    show "bit (take_bit k (reverse_bits k r0 hi)) j \<longleftrightarrow> bit (of_nat i :: u32) j"
      using k bit_bound [OF i, of j]
      by (cases "j < k") (auto simp: bit_take_bit_iff bit_reverse_bits hi rb bit_of_nat32)
  qed
  define c where "c = (i + 1) mod 2 ^ k"
  have c: "c < 2 ^ k" by (simp add: c_def)
  have u32: "unat (of_nat m :: u32) = m" if "m < 2 ^ k" for m
  proof -
    have "(2::nat) ^ k \<le> 2 ^ 16" using k by (intro power_increasing) auto
    then show ?thesis using that by (simp add: unsigned_of_nat take_bit_nat_eq_self)
  qed
  have inc: "(reverse_bits k r0 hi + 1) AND BITMASK k = of_nat c"
  proof (rule word_unat_eq_iff [THEN iffD2])
    define x where "x = unat (reverse_bits k r0 hi)"
    have "x mod 2 ^ k = i"
      using arg_cong [OF rev, of unat] unfolding unat_take_bit_mod u32 [OF i] x_def .
    have "unat (reverse_bits k r0 hi + 1) = (x + 1) mod 2 ^ 32" by (simp add: x_def unat_word_ariths)
    then have "unat ((reverse_bits k r0 hi + 1) AND BITMASK k) = (x + 1) mod 2 ^ 32 mod 2 ^ k"
      by (simp only: and_BITMASK unat_take_bit_mod)
    also have "\<dots> = (x + 1) mod 2 ^ k"
      using k by (intro mod_mod_cancel le_imp_power_dvd) simp
    also have "\<dots> = c" unfolding c_def by (metis \<open>x mod 2 ^ k = i\<close> mod_add_left_eq)
    finally show "unat ((reverse_bits k r0 hi + 1) AND BITMASK k) = unat (of_nat c :: u32)" by (simp only: u32 [OF c])
  qed
  define r1 where "r1 = hi OR of_nat c"
  have r1: "bit r1 j \<longleftrightarrow> (if j < k then bit c j else bit b (j - k))" for j
    using k bit_bound [OF c, of j] by (auto simp: r1_def bit_or_iff hi bit_of_nat32)
  have hi1: "r1 AND (BITMASK 16 - BITMASK k) = hi"
  proof (rule bit_word_eqI)
    fix j
    show "bit (r1 AND (BITMASK 16 - BITMASK k)) j \<longleftrightarrow> bit hi j"
      using b [of "j - k"] by (cases "j < k") (auto simp: bit_and_iff bit_high_mask [OF k] r1 hi)
  qed
  have fin: "reverse_bits k r1 hi = of_nat (2 ^ k * b + mirror k c)"
  proof (rule bit_word_eqI)
    fix j
    assume "j < LENGTH(32)"
    then show "bit (reverse_bits k r1 hi) j \<longleftrightarrow> bit (of_nat (2 ^ k * b + mirror k c) :: u32) j"
      unfolding bit_of_nat32 bit_limb [OF mirror_less] bit_mirror
      using k by (cases "j < k") (auto simp: bit_reverse_bits hi r1)
  qed
  show ?thesis
    unfolding dsp_update_rn_bitreverse_def Let_def n(1) find_lowest [OF n(2)] option.case Suc_eq_plus1 [symmetric]
      k_def [symmetric] r0_def [symmetric] hi_def [symmetric] inc r1_def [symmetric] hi1 fin by (simp only: c_def Suc_eq_plus1)
qed

lemma bitreverse_scan:
  assumes n: "registers s (DSP_REG_N0 + n) = push_bit t 1" "t < 16" "n < 8" "registers s (DSP_REG_M0 + n) = 0"
    and r: "registers s (DSP_REG_R0 + n) = of_nat (2 ^ Suc t * b)" "2 ^ Suc t * b < 65536"
  shows "(dsp_update_rn n d ^^ i) s = setreg (DSP_REG_R0 + n) (of_nat (2 ^ Suc t * b + mirror (Suc t) (i mod 2 ^ Suc t))) s"
proof (induction i)
  case 0
  have "mirror k 0 = 0" for k by (induction k) simp_all
  then have e: "2 ^ Suc t * b + mirror (Suc t) (0 mod 2 ^ Suc t) = 2 ^ Suc t * b" by simp
  show ?case unfolding e r(1) [symmetric] using setreg_same [OF refl, of "DSP_REG_R0 + n" s]
    by (simp only: funpow.simps id_apply)
next
  case (Suc i)
  define j where "j = i mod 2 ^ Suc t"
  define m where "m = 2 ^ Suc t * b + mirror (Suc t) j"
  define u where "u = setreg (DSP_REG_R0 + n) (of_nat m) s"
  have j: "j < 2 ^ Suc t" by (simp add: j_def)
  have "(2::nat) ^ Suc t \<le> 2 ^ 16" using n(2) by (intro power_increasing) auto
  then have "mirror (Suc t) j < 2 ^ 16" by (rule less_le_trans [OF mirror_less])
  then have "m < 2 ^ 32" using r(2) unfolding m_def by (auto simp del: mirror.simps power_Suc)
  then have um: "unat (registers u (DSP_REG_R0 + n)) = 2 ^ Suc t * b + mirror (Suc t) j"
    unfolding m_def [symmetric] by (simp add: u_def unsigned_of_nat take_bit_nat_eq_self)
  have un: "registers u (DSP_REG_N0 + n) = push_bit t 1" "registers u (DSP_REG_M0 + n) = 0"
    using n by (simp_all add: u_def)
  have e: "(j + 1) mod 2 ^ Suc t = Suc i mod 2 ^ Suc t" unfolding j_def by (simp only: mod_add_left_eq Suc_eq_plus1)
  have "(dsp_update_rn n d ^^ Suc i) s = dsp_update_rn n d u"
    by (simp only: funpow.simps comp_apply Suc.IH j_def [symmetric] m_def [symmetric] u_def)
  also have "\<dots> = dsp_update_rn_bitreverse n u" by (simp add: dsp_update_rn_def un)
  also have "\<dots> = setreg (DSP_REG_R0 + n) (of_nat (2 ^ Suc t * b + mirror (Suc t) ((j + 1) mod 2 ^ Suc t))) u"
    by (rule bitreverse_step [OF un(1) n(2) um r(2) j])
  finally show ?case unfolding e u_def setreg_setreg .
qed

text \<open>A buffer in the upper half of the address space: the signed comparison sends the first step out of it.\<close>

lemma modulo_high_buffer:
  "registers (dsp_update_rn 0 1 (setreg DSP_REG_M0 3 (setreg DSP_REG_R0 0x8000 cleared_core))) DSP_REG_R0 = 0x8005"
proof -
  have "2 ^ i < unat (4 :: u16)" if "i < 2" for i
    using that by (cases i) auto
  then have b: "bufsize_loop 16 4 1 (ucast (BITMASK 16)) = (push_bit 2 1, push_bit 2 (ucast (BITMASK 16)))"
    using bufsize_loop_pow [of 16 0 2 4 "ucast (BITMASK 16)"] by auto
  show ?thesis
    by (simp add: dsp_update_rn_def dsp_update_rn_modulo_def Let_def b) (simp add: BITMASK_def)
qed

section \<open>Properties of address registers\<close>



text \<open>
  C19. Bit-reversed addressing: with a modifier of 0 and an offset register of \<open>2 ^ t\<close>, the i-th update
  of an address register whose low \<open>t + 1\<close> bits are zero adds to its base the bit reversal of \<open>i\<close> over
  \<open>t + 1\<close> bits, the order in which a fast Fourier transform visits its data.
\<close>
theorem bit_reversed_scan:
  assumes "registers s (DSP_REG_N0 + n) = push_bit t 1" and "t < 16" and "n < 8" and "registers s (DSP_REG_M0 + n) = 0"
    and "registers s (DSP_REG_R0 + n) = of_nat (2 ^ Suc t * b)" and "2 ^ Suc t * b < 65536"
  shows "(dsp_update_rn n d ^^ i) s =
    setreg (DSP_REG_R0 + n) (of_nat (2 ^ Suc t * b + mirror (Suc t) (i mod 2 ^ Suc t))) s"
  using assms by (rule bitreverse_scan)

theorem bit_reversed_scan_witness:
  "map (\<lambda>i. registers ((dsp_update_rn 0 1 ^^ i) (setreg DSP_REG_N0 4 (setreg DSP_REG_R0 16 cleared_core))) DSP_REG_R0)
     [0, 1, 2, 3, 8] = [16, 20, 18, 22, 16]"
proof -
  have "(dsp_update_rn 0 1 ^^ i) (setreg DSP_REG_N0 4 (setreg DSP_REG_R0 16 cleared_core)) =
    setreg DSP_REG_R0 (of_nat (2 ^ Suc 2 * 2 + mirror (Suc 2) (i mod 2 ^ Suc 2))) (setreg DSP_REG_N0 4 (setreg DSP_REG_R0 16 cleared_core))" for i
    using bit_reversed_scan [where s = "setreg DSP_REG_N0 4 (setreg DSP_REG_R0 16 cleared_core)" and n = 0 and t = 2 and b = 2 and d = 1 and i = i]
    by (simp del: mirror.simps)
  moreover have "mirror (Suc 2) 0 = 0" "mirror (Suc 2) 1 = 4" "mirror (Suc 2) 2 = 2" "mirror (Suc 2) 3 = 6"
    by code_simp+
  ultimately show ?thesis by (simp del: mirror.simps)
qed

end
