(* ===== verification/Dsp_Parmove.thy ===== *)
theory Dsp_Parmove
  imports Dsp_Address
begin

text \<open>
  Parallel moves (\<open>src/src/dsp_cpu.c\<close>, section ``Parallel moves instructions dispatcher''):
  \<open>dsp_parmove_read\<close> collects up to two transfers in the \<open>tmp_parmove\<close> variables before
  the arithmetic part of an instruction executes, \<open>dsp_parmove_write\<close> performs them afterwards.
  A register pointer is the number of the register.
\<close>

abbreviation set_src :: "nat \<Rightarrow> nat \<Rightarrow> u32 \<Rightarrow> dsp_core_t \<Rightarrow> dsp_core_t" where
  "set_src i j v \<equiv> tmp_parmove_src_update (\<lambda>f. upd2 f i j v)"

abbreviation set_dest :: "nat \<Rightarrow> nat \<Rightarrow> parmove_dest_u \<Rightarrow> dsp_core_t \<Rightarrow> dsp_core_t" where
  "set_dest i j d \<equiv> tmp_parmove_dest_update (\<lambda>f. upd2 f i j d)"

abbreviation set_start :: "nat \<Rightarrow> u32 \<Rightarrow> dsp_core_t \<Rightarrow> dsp_core_t" where
  "set_start i v \<equiv> tmp_parmove_start_update (\<lambda>f. f(i := v))"

abbreviation set_len :: "nat \<Rightarrow> u32 \<Rightarrow> dsp_core_t \<Rightarrow> dsp_core_t" where
  "set_len i v \<equiv> tmp_parmove_len_update (\<lambda>f. f(i := v))"

abbreviation set_type :: "nat \<Rightarrow> u32 \<Rightarrow> dsp_core_t \<Rightarrow> dsp_core_t" where
  "set_type i v \<equiv> tmp_parmove_type_update (\<lambda>f. f(i := v))"

abbreviation set_space :: "nat \<Rightarrow> u32 \<Rightarrow> dsp_core_t \<Rightarrow> dsp_core_t" where
  "set_space i v \<equiv> tmp_parmove_space_update (\<lambda>f. f(i := v))"

text \<open>Field extraction from the current instruction: \<open>(cur_inst>>n) & BITMASK(w)\<close>.\<close>

definition ibits :: "nat \<Rightarrow> nat \<Rightarrow> dsp_core_t \<Rightarrow> u32" where
  "ibits n w s = drop_bit n (cur_inst s) AND BITMASK w"

definition registers_mask :: "nat list" where
  "registers_mask =
    [0, 0, 0, 0,  24, 24, 24, 24,  24, 24, 8, 8,  24, 24, 24, 24,
     16, 16, 16, 16,  16, 16, 16, 16,  16, 16, 16, 16,  16, 16, 16, 16,
     16, 16, 16, 16,  16, 16, 16, 16,  0, 0, 0, 0,  0, 0, 0, 0,
     0, 0, 0, 0,  0, 0, 0, 0,  0, 16, 8, 6,  6, 6, 16, 16]"

definition registers_lmove :: "(nat \<times> nat) list" where
  "registers_lmove =
    [(DSP_REG_A1, DSP_REG_A0), (DSP_REG_B1, DSP_REG_B0),
     (DSP_REG_X1, DSP_REG_X0), (DSP_REG_Y1, DSP_REG_Y0),
     (DSP_REG_A, DSP_REG_A), (DSP_REG_B, DSP_REG_B),
     (DSP_REG_A, DSP_REG_B), (DSP_REG_B, DSP_REG_A)]"

definition is_accu :: "nat \<Rightarrow> bool" where
  "is_accu numreg \<longleftrightarrow> numreg = DSP_REG_A \<or> numreg = DSP_REG_B"

text \<open>
  Reading an accumulator through the limiter. \<open>accu24_limit\<close> is the value and whether it was
  limited; \<open>dsp_pm_read_accu24\<close> stores the value through the pointer \<open>dest\<close>, given as the
  assignment it stands for, then sets the L bit, and returns \<open>got_limited\<close>.
\<close>

definition accu24_limit :: "nat \<Rightarrow> dsp_core_t \<Rightarrow> bool \<times> u32" where
  "accu24_limit numreg s =
     (let scaling = scaling_mode s;
          numreg = numreg mod 2;
          value = registers s (DSP_REG_A2 + numreg) AND 0xff;
          (value, numbits) =
            (if scaling = 0 then
               (push_bit 1 value OR (drop_bit 23 (registers s (DSP_REG_A1 + numreg)) AND 1), 9)
             else if scaling = 2 then
               (push_bit 2 value OR (drop_bit 22 (registers s (DSP_REG_A1 + numreg)) AND 3), 10)
             else (value, 8))
      in if value = 0 \<or> value = BITMASK numbits then (False, registers s (DSP_REG_A1 + numreg))
         else if has_bit (registers s (DSP_REG_A2 + numreg)) 7 then (True, 0x00800000)
         else (True, 0x007fffff))"

definition dsp_pm_read_accu24 ::
    "nat \<Rightarrow> (u32 \<Rightarrow> dsp_core_t \<Rightarrow> dsp_core_t) \<Rightarrow> dsp_core_t \<Rightarrow> bool \<times> dsp_core_t" where
  "dsp_pm_read_accu24 numreg dest s =
     (let (got_limited, value) = accu24_limit numreg s;
          s = dest value s;
          s = (if got_limited then sr_or (push_bit DSP_SR_L 1) s else s)
      in (got_limited, s))"

text \<open>\<open>dsp_pm_read_accu24(numreg, &tmp_parmove_src[i][1])\<close>.\<close>

definition pm_accu_src :: "nat \<Rightarrow> nat \<Rightarrow> dsp_core_t \<Rightarrow> bool \<times> dsp_core_t" where
  "pm_accu_src numreg i s = dsp_pm_read_accu24 numreg (\<lambda>v. set_src i 1 v) s"

definition dsp_pm_writereg :: "nat \<Rightarrow> nat \<Rightarrow> dsp_core_t \<Rightarrow> dsp_core_t" where
  "dsp_pm_writereg numreg position s =
     (if is_accu numreg then
        (let s = set_dest position 0 (host_pointer (DSP_REG_A2 + numreg mod 2)) s;
             s = set_dest position 1 (host_pointer (DSP_REG_A1 + numreg mod 2)) s;
             s = set_dest position 2 (host_pointer (DSP_REG_A0 + numreg mod 2)) s;
             s = set_start position 0 s
         in set_len position 3 s)
      else
        (let s = set_dest position 1 (host_pointer numreg) s;
             s = set_start position 1 s
         in set_len position 1 s))"

text \<open>\<open>value & (1<<23) ? 0xff : 0\<close>, the sign extension of a 24-bit value.\<close>

definition sign_ext :: "u32 \<Rightarrow> u32" where
  "sign_ext value = (if has_bit value 23 then 0x0000ff else 0)"

text \<open>
  The two halves every memory move consists of: \<open>pm_load\<close> sets up the write of a value to a
  register (``Write D''), \<open>pm_store\<close> the write of a register to memory (``Read S'').
\<close>

definition pm_load :: "nat \<Rightarrow> nat \<Rightarrow> u32 \<Rightarrow> dsp_core_t \<Rightarrow> dsp_core_t" where
  "pm_load i numreg value s =
     (let s = set_src i 0 (sign_ext value) s;
          s = set_src i 1 (value AND BITMASK (registers_mask ! numreg)) s;
          s = set_src i 2 0 s;
          s = dsp_pm_writereg numreg i s
      in set_type i 0 s)"

definition pm_to_mem :: "nat \<Rightarrow> u32 \<Rightarrow> u32 \<Rightarrow> dsp_core_t \<Rightarrow> dsp_core_t" where
  "pm_to_mem i memspace addr s =
     (let s = set_dest i 1 (dsp_address addr) s;
          s = set_start i 1 s;
          s = set_len i 1 s;
          s = set_type i 1 s
      in set_space i memspace s)"

definition pm_store :: "nat \<Rightarrow> nat \<Rightarrow> u32 \<Rightarrow> u32 \<Rightarrow> dsp_core_t \<Rightarrow> dsp_core_t" where
  "pm_store i numreg memspace addr s =
     (let s = (if is_accu numreg then snd (pm_accu_src numreg i s)
               else set_src i 1 (registers s numreg) s)
      in pm_to_mem i memspace addr s)"

definition dsp_pm_0 :: "dsp_core_t \<Rightarrow> dsp_core_t" where
  "dsp_pm_0 s =
     (let memspace = drop_bit 15 (cur_inst s) AND 1;
          numreg = unat (drop_bit 16 (cur_inst s) AND 1);
          (_, dummy, s) = dsp_calc_ea (ibits 8 6 s) s;
          (_, s) = pm_accu_src numreg 0 s;
          s = pm_to_mem 0 memspace dummy s;
          value = registers s (DSP_REG_X0 + unat (push_bit 1 memspace));
          s = set_src 1 0 (sign_ext value) s;
          s = set_src 1 1 value s;
          s = set_src 1 2 0 s;
          s = set_dest 1 0 (host_pointer (DSP_REG_A2 + numreg)) s;
          s = set_dest 1 1 (host_pointer (DSP_REG_A1 + numreg)) s;
          s = set_dest 1 2 (host_pointer (DSP_REG_A0 + numreg)) s;
          s = set_start 1 0 s;
          s = set_len 1 3 s
      in set_type 1 0 s)"

text \<open>The register selections of \<open>dsp_pm_1\<close> and \<open>dsp_pm_8\<close>.\<close>

definition pm_reg_x :: "u32 \<Rightarrow> nat" where
  "pm_reg_x v = (if v = 0 then DSP_REG_X0 else if v = 1 then DSP_REG_X1
     else if v = 2 then DSP_REG_A else if v = 3 then DSP_REG_B else DSP_REG_NULL)"

definition pm_reg_y :: "u32 \<Rightarrow> nat" where
  "pm_reg_y v = (if v = 0 then DSP_REG_Y0 else if v = 1 then DSP_REG_Y1
     else if v = 2 then DSP_REG_A else if v = 3 then DSP_REG_B else DSP_REG_NULL)"

definition dsp_pm_1 :: "dsp_core_t \<Rightarrow> dsp_core_t" where
  "dsp_pm_1 s =
     (let value = ibits 8 6 s;
          (retour, xy_addr, s) = dsp_calc_ea value s;
          memspace = drop_bit 14 (cur_inst s) AND 1;
          numreg = (if memspace \<noteq> 0 then pm_reg_y (ibits 16 2 s) else pm_reg_x (ibits 18 2 s));
          s = (if has_bit (cur_inst s) 15 then
                 (let (value, s) = (if retour then (xy_addr, s)
                                    else read_memory (unat memspace) (ucast xy_addr) s)
                  in pm_load 0 numreg value s)
               else pm_store 0 numreg memspace xy_addr s);
          numreg = DSP_REG_A + unat (if memspace \<noteq> 0 then drop_bit 19 (cur_inst s) AND 1
                                     else drop_bit 17 (cur_inst s) AND 1);
          (_, s) = pm_accu_src numreg 1 s;
          numreg = (if memspace \<noteq> 0 then DSP_REG_X0 + unat (drop_bit 18 (cur_inst s) AND 1)
                    else DSP_REG_Y0 + unat (drop_bit 16 (cur_inst s) AND 1));
          s = set_src 1 1 (tmp_parmove_src s 1 1 AND BITMASK (registers_mask ! numreg)) s;
          s = set_dest 1 1 (host_pointer numreg) s;
          s = set_start 1 1 s;
          s = set_len 1 1 s
      in set_type 1 0 s)"

definition dsp_pm_2_2 :: "dsp_core_t \<Rightarrow> dsp_core_t" where
  "dsp_pm_2_2 s =
     (let srcreg = unat (ibits 13 5 s);
          dstreg = unat (ibits 8 5 s);
          s = set_src 0 0 0 (set_src 0 1 0 (set_src 0 2 0 s));
          s = (if is_accu srcreg then
                 (let (_, s) = pm_accu_src srcreg 0 s
                  in if has_bit (tmp_parmove_src s 0 1) 23 then set_src 0 0 0x0000ff s else s)
               else if is_accu dstreg then
                 (let s = set_src 0 1 (registers s srcreg AND BITMASK (registers_mask ! srcreg)) s
                  in if has_bit (tmp_parmove_src s 0 1) 23 then set_src 0 0 0x0000ff s else s)
               else set_src 0 1 (registers s srcreg AND BITMASK (registers_mask ! srcreg)) s);
          s = dsp_pm_writereg dstreg 0 s
      in set_type 0 0 s)"

definition dsp_pm_3 :: "dsp_core_t \<Rightarrow> dsp_core_t" where
  "dsp_pm_3 s =
     (let dest = unat (ibits 16 5 s);
          srcvalue = ibits 8 8 s;
          srcvalue = (if dest = DSP_REG_X0 \<or> dest = DSP_REG_X1 \<or> dest = DSP_REG_Y0
                        \<or> dest = DSP_REG_Y1 \<or> dest = DSP_REG_A \<or> dest = DSP_REG_B
                      then push_bit 16 srcvalue else srcvalue);
          s = set_src 0 0 (if is_accu dest \<and> has_bit srcvalue 23 then 0x0000ff else 0) s;
          s = set_src 0 1 (srcvalue AND BITMASK (registers_mask ! dest)) s;
          s = set_src 0 2 0 s;
          s = dsp_pm_writereg dest 0 s
      in set_type 0 0 s)"

definition dsp_pm_2 :: "dsp_core_t \<Rightarrow> dsp_core_t" where
  "dsp_pm_2 s =
     (if drop_bit 8 (cur_inst s) AND 0xffff = 0x2000 then s
      else if drop_bit 8 (cur_inst s) AND 0xffe0 = 0x2040 then snd (snd (dsp_calc_ea (ibits 8 5 s) s))
      else if drop_bit 8 (cur_inst s) AND 0xfc00 = 0x2000 then dsp_pm_2_2 s
      else dsp_pm_3 s)"

definition dsp_pm_4x :: "u32 \<Rightarrow> dsp_core_t \<Rightarrow> dsp_core_t" where
  "dsp_pm_4x l_addr s =
     (let l_addr = l_addr AND BITMASK 16;
          numreg = ibits 16 2 s OR (drop_bit 17 (cur_inst s) AND push_bit 2 1);
          (l0, l1) = registers_lmove ! unat numreg
      in if has_bit (cur_inst s) 15 then
           (let (value, s) = read_memory DSP_SPACE_X (ucast l_addr) s;
                s = set_src 0 0 (sign_ext value) s;
                s = set_src 0 1 (value AND BITMASK (registers_mask ! l0)) s;
                s = set_src 0 2 0 s;
                (value, s) = read_memory DSP_SPACE_Y (ucast l_addr) s;
                s = (if l0 = l1 then set_src 0 2 (value AND BITMASK (registers_mask ! l1)) s
                     else
                       (let s = set_src 1 0 (sign_ext value) s;
                            s = set_src 1 1 (value AND BITMASK (registers_mask ! l1)) s
                        in set_src 1 2 0 s));
                s = dsp_pm_writereg l0 0 s;
                s = set_type 0 0 s
            in if l0 \<noteq> l1 then set_type 1 0 (dsp_pm_writereg l1 1 s) else s)
         else
           (let s = (if numreg < 4 then
                       set_src 1 1 (registers s l1) (set_src 0 1 (registers s l0) s)
                     else if numreg < 6 then
                       (let (limited, s) = pm_accu_src l0 0 s
                        in if limited
                           then set_src 1 1 (if has_bit (tmp_parmove_src s 0 1) 23 then 0 else 0xffffff) s
                           else set_src 1 1 (registers s (DSP_REG_A0 + l0 mod 2)) s)
                     else
                       (let (_, s) = pm_accu_src l0 0 s;
                            (_, s) = pm_accu_src l1 1 s
                        in s));
                s = pm_to_mem 0 (of_nat DSP_SPACE_X) l_addr s
            in pm_to_mem 1 (of_nat DSP_SPACE_Y) l_addr s))"

definition dsp_pm_5 :: "dsp_core_t \<Rightarrow> dsp_core_t" where
  "dsp_pm_5 s =
     (let value = ibits 8 6 s;
          (retour, xy_addr, s) =
            (if has_bit (cur_inst s) 14 then dsp_calc_ea value s else (False, value, s));
          memspace = drop_bit 19 (cur_inst s) AND 1;
          numreg = unat (ibits 16 3 s OR (drop_bit 17 (cur_inst s) AND push_bit 3 (BITMASK 2)))
      in if has_bit (cur_inst s) 15 then
           (let (value, s) = (if retour then (xy_addr, s)
                              else read_memory (unat memspace) (ucast xy_addr) s)
            in pm_load 0 numreg value s)
         else pm_store 0 numreg memspace xy_addr s)"

definition dsp_pm_4 :: "dsp_core_t \<Rightarrow> dsp_core_t" where
  "dsp_pm_4 s =
     (let value = ibits 16 3 s OR (drop_bit 17 (cur_inst s) AND push_bit 3 (BITMASK 2))
      in if drop_bit 2 value = 0 then
           (let value = ibits 8 6 s;
                (_, l_addr, s) =
                  (if has_bit (cur_inst s) 14 then dsp_calc_ea value s else (False, value, s))
            in dsp_pm_4x l_addr s)
         else dsp_pm_5 s)"

definition dsp_pm_8 :: "dsp_core_t \<Rightarrow> dsp_core_t" where
  "dsp_pm_8 s =
     (let ea1 = ibits 8 5 s;
          ea1 = (if drop_bit 3 ea1 = 0 then ea1 OR push_bit 5 1 else ea1);
          ea2 = ibits 13 2 s OR (drop_bit 17 (cur_inst s) AND push_bit 3 (BITMASK 2));
          ea2 = (if \<not> has_bit ea1 2 then ea2 OR push_bit 2 1 else ea2);
          ea2 = (if drop_bit 3 ea2 = 0 then ea2 OR push_bit 5 1 else ea2);
          (_, dummy1, s) = dsp_calc_ea ea1 s;
          (_, dummy2, s) = dsp_calc_ea ea2 s;
          numreg1 = pm_reg_x (ibits 18 2 s);
          numreg2 = pm_reg_y (ibits 16 2 s);
          s = (if has_bit (cur_inst s) 15 then
                 (let (value, s) = read_memory DSP_SPACE_X (ucast dummy1) s
                  in pm_load 0 numreg1 value s)
               else pm_store 0 numreg1 (of_nat DSP_SPACE_X) dummy1 s)
      in if has_bit (cur_inst s) 22 then
           (let (value, s) = read_memory DSP_SPACE_Y (ucast dummy2) s
            in pm_load 1 numreg2 value s)
         else pm_store 1 numreg2 (of_nat DSP_SPACE_Y) dummy2 s)"

definition opcodes_parmove :: "(dsp_core_t \<Rightarrow> dsp_core_t) list" where
  "opcodes_parmove =
    [dsp_pm_0, dsp_pm_1, dsp_pm_2, dsp_pm_3, dsp_pm_4, dsp_pm_5, dsp_pm_5, dsp_pm_5,
     dsp_pm_8, dsp_pm_8, dsp_pm_8, dsp_pm_8, dsp_pm_8, dsp_pm_8, dsp_pm_8, dsp_pm_8]"

definition dsp_parmove_read :: "dsp_core_t \<Rightarrow> dsp_core_t" where
  "dsp_parmove_read s =
     (let s = set_len 0 0 (set_len 1 0 s);
          value = ibits 20 4 s
      in (opcodes_parmove ! unat value) s)"

definition pm_write_one :: "nat \<Rightarrow> nat \<Rightarrow> dsp_core_t \<Rightarrow> dsp_core_t" where
  "pm_write_one i j s =
     (if tmp_parmove_type s i \<noteq> 0 then
        (case tmp_parmove_dest s i j of
           dsp_address a \<Rightarrow> write_memory (unat (tmp_parmove_space s i)) (ucast a) (tmp_parmove_src s i j) s
         | host_pointer _ \<Rightarrow> raise_fault UnionMember s)
      else
        (case tmp_parmove_dest s i j of
           host_pointer r \<Rightarrow> setreg r (tmp_parmove_src s i j) s
         | dsp_address _ \<Rightarrow> raise_fault UnionMember s))"

definition dsp_parmove_write :: "dsp_core_t \<Rightarrow> dsp_core_t" where
  "dsp_parmove_write s =
     fold (\<lambda>i s.
       if tmp_parmove_len s i = 0 then s
       else fold (pm_write_one i)
              [unat (tmp_parmove_start s i)..<unat (tmp_parmove_start s i + tmp_parmove_len s i)] s)
     [0..<2] s"

end
