(* ===== verification/Dsp_Alu.thy ===== *)
theory Dsp_Alu
  imports Dsp_Parmove
begin

text \<open>
  The arithmetic and logical instructions that run together with parallel moves
  (\<open>src/src/dsp_cpu.c\<close>, section ``Parallel moves instructions''), one definition per C
  function. The accumulator A or B is selected by bit 3 of the instruction.
\<close>

definition accu :: "nat \<Rightarrow> dsp_core_t \<Rightarrow> acc" where
  "accu n s = (registers s (DSP_REG_A2 + n), registers s (DSP_REG_A1 + n), registers s (DSP_REG_A0 + n))"

definition set_accu :: "nat \<Rightarrow> acc \<Rightarrow> dsp_core_t \<Rightarrow> dsp_core_t" where
  "set_accu n = (\<lambda>(d0, d1, d2) s.
     setreg (DSP_REG_A0 + n) d2 (setreg (DSP_REG_A1 + n) d1 (setreg (DSP_REG_A2 + n) d0 s)))"

text \<open>\<open>(cur_inst>>3) & 1\<close>, and the other accumulator, \<open>numreg ^ 1\<close>.\<close>

definition alu_dest :: "dsp_core_t \<Rightarrow> nat" where
  "alu_dest s = unat (drop_bit 3 (cur_inst s) AND 1)"

definition other_accu :: "nat \<Rightarrow> nat" where
  "other_accu n = (if n = 0 then 1 else 0)"

text \<open>A 24-bit register, or a 48-bit register pair, sign-extended to 56 bits.\<close>

definition ext24 :: "nat \<Rightarrow> dsp_core_t \<Rightarrow> acc" where
  "ext24 r s = (sign_ext (registers s r), registers s r, 0)"

definition ext48 :: "nat \<Rightarrow> nat \<Rightarrow> dsp_core_t \<Rightarrow> acc" where
  "ext48 r1 r0 s = (sign_ext (registers s r1), registers s r1, registers s r0)"

text \<open>The source operand switch of \<open>dsp_cmp\<close>, \<open>dsp_cmpm\<close> and \<open>dsp_tfr\<close>.\<close>

definition cmp_source :: "dsp_core_t \<Rightarrow> acc option" where
  "cmp_source s =
     (let srcreg = ibits 4 3 s
      in if srcreg = 0 then Some (accu (other_accu (alu_dest s)) s)
         else if srcreg = 4 then Some (ext24 DSP_REG_X0 s)
         else if srcreg = 5 then Some (ext24 DSP_REG_Y0 s)
         else if srcreg = 6 then Some (ext24 DSP_REG_X1 s)
         else if srcreg = 7 then Some (ext24 DSP_REG_Y1 s)
         else None)"

text \<open>The source operand switch of \<open>dsp_add\<close> and \<open>dsp_sub\<close>.\<close>

definition add_source :: "dsp_core_t \<Rightarrow> acc option" where
  "add_source s =
     (let srcreg = ibits 4 3 s
      in if srcreg = 1 then Some (accu (other_accu (alu_dest s)) s)
         else if srcreg = 2 then Some (ext48 DSP_REG_X1 DSP_REG_X0 s)
         else if srcreg = 3 then Some (ext48 DSP_REG_Y1 DSP_REG_Y0 s)
         else if srcreg = 4 then Some (ext24 DSP_REG_X0 s)
         else if srcreg = 5 then Some (ext24 DSP_REG_Y0 s)
         else if srcreg = 6 then Some (ext24 DSP_REG_X1 s)
         else if srcreg = 7 then Some (ext24 DSP_REG_Y1 s)
         else None)"

text \<open>The source operand of \<open>dsp_adc\<close> and \<open>dsp_sbc\<close>.\<close>

definition adc_source :: "dsp_core_t \<Rightarrow> acc" where
  "adc_source s =
     (if drop_bit 4 (cur_inst s) AND 1 = 0 then ext48 DSP_REG_X1 DSP_REG_X0 s
      else ext48 DSP_REG_Y1 DSP_REG_Y0 s)"

definition ccr_acc :: "acc \<Rightarrow> dsp_core_t \<Rightarrow> dsp_core_t" where
  "ccr_acc = (\<lambda>(d0, d1, d2). dsp_ccr_all d0 d1 d2)"

text \<open>The mask \<open>BITMASK(16)-m\<close> of the status register updates.\<close>

definition sr_clear :: "u32 \<Rightarrow> dsp_core_t \<Rightarrow> dsp_core_t" where
  "sr_clear m = sr_and (BITMASK 16 - m)"

text \<open>The common end of the additive instructions: condition codes, then V, C and L from \<open>newsr\<close>.\<close>

definition alu_finish :: "nat \<Rightarrow> acc \<Rightarrow> u16 \<Rightarrow> dsp_core_t \<Rightarrow> dsp_core_t" where
  "alu_finish n dest newsr s =
     (let s = set_accu n dest s;
          s = ccr_acc dest s;
          s = sr_clear (push_bit DSP_SR_V 1 OR push_bit DSP_SR_C 1) s
      in sr_or (ucast newsr) s)"

definition dsp_abs :: "dsp_core_t \<Rightarrow> dsp_core_t" where
  "dsp_abs s =
     (let numreg = alu_dest s;
          dest = accu numreg s;
          overflowed = of_flag (snd (snd dest) = 0 \<and> fst (snd dest) = 0 \<and> fst dest = 0x80) :: u32;
          dest = snd (dsp_abs56 dest);
          s = set_accu numreg dest s;
          s = sr_clear (push_bit DSP_SR_V 1) s;
          s = sr_or (push_bit DSP_SR_L overflowed OR push_bit DSP_SR_V overflowed) s
      in ccr_acc dest s)"

definition dsp_adc :: "dsp_core_t \<Rightarrow> dsp_core_t" where
  "dsp_adc s =
     (let curcarry = drop_bit DSP_SR_C (SR s) AND 1;
          destreg = alu_dest s;
          dest = accu destreg s;
          source = adc_source s;
          (newsr, dest) = dsp_add56 source dest;
          (newsr, dest) =
            (if curcarry \<noteq> 0 then
               (let (newsr2, dest) = dsp_add56 (0, 0, 1) dest in (newsr OR newsr2, dest))
             else (newsr, dest))
      in alu_finish destreg dest newsr s)"

definition dsp_add :: "dsp_core_t \<Rightarrow> dsp_core_t" where
  "dsp_add s =
     (let destreg = alu_dest s;
          dest = accu destreg s
      in case add_source s of
           None \<Rightarrow> s
         | Some source \<Rightarrow>
             (let (newsr, dest) = dsp_add56 source dest in alu_finish destreg dest newsr s))"

definition dsp_addl :: "dsp_core_t \<Rightarrow> dsp_core_t" where
  "dsp_addl s =
     (let numreg = alu_dest s;
          (newsr, dest) = dsp_asl56 (accu numreg s);
          (newsr2, dest) = dsp_add56 (accu (other_accu numreg) s) dest
      in alu_finish numreg dest (newsr OR newsr2) s)"

definition dsp_addr :: "dsp_core_t \<Rightarrow> dsp_core_t" where
  "dsp_addr s =
     (let numreg = alu_dest s;
          (newsr, dest) = dsp_asr56 (accu numreg s);
          (newsr2, dest) = dsp_add56 (accu (other_accu numreg) s) dest
      in alu_finish numreg dest (newsr OR newsr2) s)"

text \<open>The source register switch of the logical instructions.\<close>

definition logic_source :: "dsp_core_t \<Rightarrow> nat" where
  "logic_source s =
     (let v = ibits 4 2 s
      in if v = 1 then DSP_REG_Y0 else if v = 2 then DSP_REG_X1 else if v = 3 then DSP_REG_Y1
         else DSP_REG_X0)"

text \<open>The N and Z bits of the logical instructions, from the register \<open>r\<close> just written.\<close>

definition flag_n :: "nat \<Rightarrow> dsp_core_t \<Rightarrow> dsp_core_t" where
  "flag_n r s = sr_or (push_bit DSP_SR_N (drop_bit 23 (registers s r) AND 1)) s"

definition flag_z :: "nat \<Rightarrow> dsp_core_t \<Rightarrow> dsp_core_t" where
  "flag_z r s = sr_or (push_bit DSP_SR_Z (of_flag (registers s r = 0))) s"

definition nzv :: u32 where
  "nzv = push_bit DSP_SR_N 1 OR push_bit DSP_SR_Z 1 OR push_bit DSP_SR_V 1"

definition logic_finish :: "nat \<Rightarrow> dsp_core_t \<Rightarrow> dsp_core_t" where
  "logic_finish dstreg s =
     (let s = setreg dstreg (registers s dstreg AND BITMASK 24) s;
          s = sr_clear nzv s
      in flag_z dstreg (flag_n dstreg s))"

definition dsp_and :: "dsp_core_t \<Rightarrow> dsp_core_t" where
  "dsp_and s =
     (let srcreg = logic_source s;
          dstreg = DSP_REG_A1 + alu_dest s;
          s = setreg dstreg (registers s dstreg AND registers s srcreg) s
      in logic_finish dstreg s)"

definition dsp_asl :: "dsp_core_t \<Rightarrow> dsp_core_t" where
  "dsp_asl s =
     (let numreg = alu_dest s;
          (newsr, dest) = dsp_asl56 (accu numreg s);
          s = set_accu numreg dest s;
          s = sr_clear (push_bit DSP_SR_C 1 OR push_bit DSP_SR_V 1) s;
          s = sr_or (ucast newsr) s
      in ccr_acc dest s)"

definition dsp_asr :: "dsp_core_t \<Rightarrow> dsp_core_t" where
  "dsp_asr s =
     (let numreg = alu_dest s;
          (newsr, dest) = dsp_asr56 (accu numreg s);
          s = set_accu numreg dest s;
          s = sr_clear (push_bit DSP_SR_C 1 OR push_bit DSP_SR_V 1) s;
          s = sr_or (ucast newsr) s
      in ccr_acc dest s)"

definition dsp_clr :: "dsp_core_t \<Rightarrow> dsp_core_t" where
  "dsp_clr s =
     (let s = set_accu (alu_dest s) (0, 0, 0) s;
          s = sr_clear (push_bit DSP_SR_E 1 OR push_bit DSP_SR_N 1 OR push_bit DSP_SR_V 1) s
      in sr_or (push_bit DSP_SR_U 1 OR push_bit DSP_SR_Z 1) s)"

text \<open>The end of the comparisons: as \<open>alu_finish\<close>, but the accumulator is not written.\<close>

definition cmp_finish :: "acc \<Rightarrow> u16 \<Rightarrow> dsp_core_t \<Rightarrow> dsp_core_t" where
  "cmp_finish dest newsr s =
     (let s = ccr_acc dest s;
          s = sr_clear (push_bit DSP_SR_V 1 OR push_bit DSP_SR_C 1) s
      in sr_or (ucast newsr) s)"

definition dsp_cmp :: "dsp_core_t \<Rightarrow> dsp_core_t" where
  "dsp_cmp s =
     (let dest = accu (alu_dest s) s
      in case cmp_source s of
           None \<Rightarrow> s
         | Some source \<Rightarrow>
             (let (newsr, dest) = dsp_sub56 source dest in cmp_finish dest newsr s))"

definition dsp_cmpm :: "dsp_core_t \<Rightarrow> dsp_core_t" where
  "dsp_cmpm s =
     (let dest = snd (dsp_abs56 (accu (alu_dest s) s))
      in case cmp_source s of
           None \<Rightarrow> s
         | Some source \<Rightarrow>
             (let source = snd (dsp_abs56 source);
                  (newsr, dest) = dsp_sub56 source dest
              in cmp_finish dest newsr s))"

definition dsp_eor :: "dsp_core_t \<Rightarrow> dsp_core_t" where
  "dsp_eor s =
     (let srcreg = logic_source s;
          dstreg = DSP_REG_A1 + alu_dest s;
          s = setreg dstreg (registers s dstreg XOR registers s srcreg) s
      in logic_finish dstreg s)"

definition dsp_lsl :: "dsp_core_t \<Rightarrow> dsp_core_t" where
  "dsp_lsl s =
     (let numreg = DSP_REG_A1 + alu_dest s;
          newcarry = drop_bit 23 (registers s numreg) AND 1;
          s = setreg numreg (push_bit 1 (registers s numreg)) s;
          s = setreg numreg (registers s numreg AND BITMASK 24) s;
          s = sr_clear (push_bit DSP_SR_C 1 OR nzv) s;
          s = sr_or newcarry s
      in flag_z numreg (flag_n numreg s))"

definition dsp_lsr :: "dsp_core_t \<Rightarrow> dsp_core_t" where
  "dsp_lsr s =
     (let numreg = DSP_REG_A1 + alu_dest s;
          newcarry = registers s numreg AND 1;
          s = setreg numreg (drop_bit 1 (registers s numreg)) s;
          s = sr_clear (push_bit DSP_SR_C 1 OR nzv) s;
          s = sr_or newcarry s
      in flag_z numreg s)"

definition registers_mpy :: "(nat \<times> nat) list" where
  "registers_mpy =
    [(DSP_REG_X0, DSP_REG_X0), (DSP_REG_Y0, DSP_REG_Y0), (DSP_REG_X1, DSP_REG_X0), (DSP_REG_Y1, DSP_REG_Y0),
     (DSP_REG_X0, DSP_REG_Y1), (DSP_REG_Y0, DSP_REG_X0), (DSP_REG_X1, DSP_REG_Y0), (DSP_REG_Y1, DSP_REG_X1)]"

text \<open>The product of the multiply instructions, negated when bit 2 of the instruction is set.\<close>

definition mpy_source :: "dsp_core_t \<Rightarrow> acc" where
  "mpy_source s =
     (let value = ibits 4 3 s;
          (srcreg1, srcreg2) = registers_mpy ! unat value;
          source = dsp_mul56 (registers s srcreg1) (registers s srcreg2)
      in if has_bit (cur_inst s) 2 then snd (dsp_sub56 source (0, 0, 0)) else source)"

definition mac_finish :: "nat \<Rightarrow> acc \<Rightarrow> u16 \<Rightarrow> dsp_core_t \<Rightarrow> dsp_core_t" where
  "mac_finish n dest newsr s =
     (let s = set_accu n dest s;
          s = ccr_acc dest s;
          s = sr_clear (push_bit DSP_SR_V 1) s
      in sr_or (ucast (newsr AND 0xfe)) s)"

definition dsp_mac :: "dsp_core_t \<Rightarrow> dsp_core_t" where
  "dsp_mac s =
     (let source = mpy_source s;
          destreg = alu_dest s;
          (newsr, dest) = dsp_add56 source (accu destreg s)
      in mac_finish destreg dest newsr s)"

definition dsp_macr :: "dsp_core_t \<Rightarrow> dsp_core_t" where
  "dsp_macr s =
     (let source = mpy_source s;
          destreg = alu_dest s;
          (newsr, dest) = dsp_add56 source (accu destreg s);
          dest = dsp_rnd56 dest s
      in mac_finish destreg dest newsr s)"

definition dsp_move :: "dsp_core_t \<Rightarrow> dsp_core_t" where
  "dsp_move s = s"

definition dsp_move_pm :: "dsp_core_t \<Rightarrow> dsp_core_t" where
  "dsp_move_pm s = dsp_parmove_write (dsp_parmove_read s)"

definition dsp_mpy :: "dsp_core_t \<Rightarrow> dsp_core_t" where
  "dsp_mpy s =
     (let dest = mpy_source s;
          s = set_accu (alu_dest s) dest s;
          s = ccr_acc dest s
      in sr_clear (push_bit DSP_SR_V 1) s)"

definition dsp_mpyr :: "dsp_core_t \<Rightarrow> dsp_core_t" where
  "dsp_mpyr s =
     (let dest = dsp_rnd56 (mpy_source s) s;
          s = set_accu (alu_dest s) dest s;
          s = ccr_acc dest s
      in sr_clear (push_bit DSP_SR_V 1) s)"

definition dsp_neg :: "dsp_core_t \<Rightarrow> dsp_core_t" where
  "dsp_neg s =
     (let srcreg = alu_dest s;
          source = accu srcreg s;
          overflowed = of_flag (snd (snd source) = 0 \<and> fst (snd source) = 0 \<and> fst source = 0x80) :: u32;
          dest = snd (dsp_sub56 source (0, 0, 0));
          s = set_accu srcreg dest s;
          s = sr_clear (push_bit DSP_SR_V 1) s;
          s = sr_or (push_bit DSP_SR_L overflowed OR push_bit DSP_SR_V overflowed) s
      in ccr_acc dest s)"

definition dsp_nop :: "dsp_core_t \<Rightarrow> dsp_core_t" where
  "dsp_nop s = s"

definition dsp_not :: "dsp_core_t \<Rightarrow> dsp_core_t" where
  "dsp_not s =
     (let dstreg = DSP_REG_A1 + alu_dest s;
          s = setreg dstreg (NOT (registers s dstreg)) s
      in logic_finish dstreg s)"

definition dsp_or :: "dsp_core_t \<Rightarrow> dsp_core_t" where
  "dsp_or s =
     (let srcreg = logic_source s;
          dstreg = DSP_REG_A1 + alu_dest s;
          s = setreg dstreg (registers s dstreg OR registers s srcreg) s
      in logic_finish dstreg s)"

definition dsp_rnd :: "dsp_core_t \<Rightarrow> dsp_core_t" where
  "dsp_rnd s =
     (let numreg = alu_dest s;
          dest = dsp_rnd56 (accu numreg s) s;
          s = set_accu numreg dest s
      in ccr_acc dest s)"

definition dsp_rol :: "dsp_core_t \<Rightarrow> dsp_core_t" where
  "dsp_rol s =
     (let dstreg = DSP_REG_A1 + alu_dest s;
          newcarry = drop_bit 23 (registers s dstreg) AND 1;
          s = setreg dstreg (push_bit 1 (registers s dstreg)) s;
          s = setreg dstreg (registers s dstreg OR newcarry) s;
          s = setreg dstreg (registers s dstreg AND BITMASK 24) s;
          s = sr_clear (push_bit DSP_SR_C 1 OR nzv) s;
          s = sr_or newcarry s
      in flag_z dstreg (flag_n dstreg s))"

definition dsp_ror :: "dsp_core_t \<Rightarrow> dsp_core_t" where
  "dsp_ror s =
     (let dstreg = DSP_REG_A1 + alu_dest s;
          newcarry = registers s dstreg AND 1;
          s = setreg dstreg (drop_bit 1 (registers s dstreg)) s;
          s = setreg dstreg (registers s dstreg OR push_bit 23 newcarry) s;
          s = setreg dstreg (registers s dstreg AND BITMASK 24) s;
          s = sr_clear (push_bit DSP_SR_C 1 OR nzv) s;
          s = sr_or newcarry s
      in flag_z dstreg (flag_n dstreg s))"

definition dsp_sbc :: "dsp_core_t \<Rightarrow> dsp_core_t" where
  "dsp_sbc s =
     (let curcarry = drop_bit DSP_SR_C (SR s) AND 1;
          destreg = alu_dest s;
          dest = accu destreg s;
          source = adc_source s;
          (newsr, dest) = dsp_sub56 source dest;
          (newsr, dest) =
            (if curcarry \<noteq> 0 then
               (let (newsr2, dest) = dsp_sub56 (0, 0, 1) dest in (newsr OR newsr2, dest))
             else (newsr, dest))
      in alu_finish destreg dest newsr s)"

definition dsp_sub :: "dsp_core_t \<Rightarrow> dsp_core_t" where
  "dsp_sub s =
     (let destreg = alu_dest s;
          dest = accu destreg s
      in case add_source s of
           None \<Rightarrow> s
         | Some source \<Rightarrow>
             (let (newsr, dest) = dsp_sub56 source dest in alu_finish destreg dest newsr s))"

definition dsp_subl :: "dsp_core_t \<Rightarrow> dsp_core_t" where
  "dsp_subl s =
     (let numreg = alu_dest s;
          (newsr, dest) = dsp_asl56 (accu numreg s);
          (newsr2, dest) = dsp_sub56 (accu (other_accu numreg) s) dest
      in alu_finish numreg dest (newsr OR newsr2) s)"

definition dsp_subr :: "dsp_core_t \<Rightarrow> dsp_core_t" where
  "dsp_subr s =
     (let numreg = alu_dest s;
          (newsr, dest) = dsp_asr56 (accu numreg s);
          (newsr2, dest) = dsp_sub56 (accu (other_accu numreg) s) dest
      in alu_finish numreg dest (newsr OR newsr2) s)"

definition dsp_tfr :: "dsp_core_t \<Rightarrow> dsp_core_t" where
  "dsp_tfr s =
     (case cmp_source s of
        None \<Rightarrow> s
      | Some source \<Rightarrow> set_accu (alu_dest s) source s)"

definition dsp_tst :: "dsp_core_t \<Rightarrow> dsp_core_t" where
  "dsp_tst s = sr_clear (push_bit DSP_SR_V 1) (ccr_acc (accu (alu_dest s) s) s)"

section \<open>The data registers\<close>

text \<open>
  X0 to B1 hold 24 bits, except A2 and B2 with 8: every instruction of the parallel group keeps
  the registers inside these widths.
\<close>

definition reg_bits :: "nat \<Rightarrow> nat" where
  "reg_bits r = (if r = DSP_REG_A2 \<or> r = DSP_REG_B2 then 8 else 24)"

definition regs_wf :: "dsp_core_t \<Rightarrow> bool" where
  "regs_wf s \<longleftrightarrow> (\<forall>r. 4 \<le> r \<and> r \<le> 13 \<longrightarrow> unat (registers s r) < 2 ^ reg_bits r)"

lemma regs_wfD: "regs_wf s \<Longrightarrow> 4 \<le> r \<Longrightarrow> r \<le> 13 \<Longrightarrow> unat (registers s r) < 2 ^ reg_bits r"
  by (simp add: regs_wf_def)

lemma regs_wf24: "regs_wf s \<Longrightarrow> r \<in> {4, 5, 6, 7, 8, 9, 12, 13} \<Longrightarrow> unat (registers s r) < 2 ^ 24"
  using regs_wfD [of s r] by (auto simp: reg_bits_def)

lemma regs_wf_setreg:
  "regs_wf s \<Longrightarrow> r < 4 \<or> 13 < r \<or> unat v < 2 ^ reg_bits r \<Longrightarrow> regs_wf (setreg r v s)"
  by (auto simp: regs_wf_def)

lemma regs_wf_cong: "registers s = registers t \<Longrightarrow> regs_wf s = regs_wf t"
  by (simp add: regs_wf_def)

lemma regs_wf_sr:
  "regs_wf s \<Longrightarrow> regs_wf (sr_and m s)" "regs_wf s \<Longrightarrow> regs_wf (sr_or m s)" "regs_wf s \<Longrightarrow> regs_wf (sr_clear m s)"
  by (simp_all add: sr_clear_def sr_and_def sr_or_def regs_wf_setreg)

lemma regs_wf_ccr: "regs_wf s \<Longrightarrow> regs_wf (ccr_acc d s)"
  by (simp add: ccr_acc_def dsp_ccr_all_def dsp_ccr_zero_def dsp_ccr_negative_def dsp_ccr_unnormalized_def
      dsp_ccr_extension_def Let_def regs_wf_sr split_beta)

lemma alu_dest_less: "alu_dest s < 2"
proof -
  have "unat (drop_bit 3 (cur_inst s) AND 1) < 2" by (simp add: and_one_flag)
  then show ?thesis by (simp add: alu_dest_def)
qed

lemma other_accu_less: "other_accu n < 2"
  by (simp add: other_accu_def)

lemma accu_wf: "regs_wf s \<Longrightarrow> n < 2 \<Longrightarrow> wf56 (accu n s)"
  using regs_wfD [of s "DSP_REG_A2 + n"] regs_wfD [of s "DSP_REG_A1 + n"] regs_wfD [of s "DSP_REG_A0 + n"]
  by (cases n rule: less_2_cases [THEN disjE]) (auto simp: accu_def reg_bits_def less_2_cases_iff)

lemma regs_wf_set_accu: "regs_wf s \<Longrightarrow> n < 2 \<Longrightarrow> wf56 d \<Longrightarrow> regs_wf (set_accu n d s)"
  unfolding set_accu_def split_beta
  by (cases d, intro regs_wf_setreg) (auto simp: reg_bits_def less_2_cases_iff)

lemma accu_set_accu: "n < 2 \<Longrightarrow> accu n (set_accu n d s) = d"
  by (cases d) (auto simp: accu_def set_accu_def less_2_cases_iff)

lemma ext_wf:
  "unat (registers s r) < 2 ^ 24 \<Longrightarrow> wf56 (ext24 r s)"
  "unat (registers s r) < 2 ^ 24 \<Longrightarrow> unat (registers s r') < 2 ^ 24 \<Longrightarrow> wf56 (ext48 r r' s)"
  by (auto simp: ext24_def ext48_def sign_ext_def)

lemma ext24_val: "unat (registers s r) < 2 ^ 24 \<Longrightarrow> sval56 (ext24 r s) = sval24 (registers s r) * 2 ^ 24"
  using bit_unat_top [of "registers s r" 23]
  by (auto simp: ext24_def sign_ext_def sval56_def sval24_def sgn_of_def)

lemma ext48_val:
  "unat (registers s r) < 2 ^ 24 \<Longrightarrow> unat (registers s r') < 2 ^ 24 \<Longrightarrow>
    sval56 (ext48 r r' s) = sval24 (registers s r) * 2 ^ 24 + int (unat (registers s r'))"
  using bit_unat_top [of "registers s r" 23]
  by (auto simp: ext48_def sign_ext_def sval56_def sval24_def sgn_of_def)

lemma add_source_wf: "regs_wf s \<Longrightarrow> add_source s = Some d \<Longrightarrow> wf56 d"
  by (auto simp: add_source_def Let_def accu_wf other_accu_less split: if_splits intro!: ext_wf regs_wf24)

lemma cmp_source_wf: "regs_wf s \<Longrightarrow> cmp_source s = Some d \<Longrightarrow> wf56 d"
  by (auto simp: cmp_source_def Let_def accu_wf other_accu_less split: if_splits intro!: ext_wf regs_wf24)

lemma adc_source_wf: "regs_wf s \<Longrightarrow> wf56 (adc_source s)"
  by (auto simp: adc_source_def intro!: ext_wf regs_wf24)

lemma ibits_less: "w < 32 \<Longrightarrow> unat (ibits n w s) < 2 ^ w"
  by (simp add: ibits_def and_BITMASK unat_take_bit_mod)

lemma mpy_regs:
  assumes "i < 8"
  shows "fst (registers_mpy ! i) \<in> {4, 5, 6, 7}" "snd (registers_mpy ! i) \<in> {4, 5, 6, 7}"
  using assms by (auto simp: registers_mpy_def nth_Cons' less_Suc_eq numeral_eq_Suc)

lemma mpy_source_wf: "regs_wf s \<Longrightarrow> wf56 (mpy_source s)"
proof -
  assume r: "regs_wf s"
  obtain a b where ab: "registers_mpy ! unat (ibits 4 3 s) = (a, b)" by fastforce
  have "a \<in> {4, 5, 6, 7}" "b \<in> {4, 5, 6, 7}" using mpy_regs [of "unat (ibits 4 3 s)"] ibits_less [of 3 4 s] ab by auto
  then have "unat (registers s a) < 2 ^ 24" "unat (registers s b) < 2 ^ 24" using regs_wf24 [OF r] by auto
  then show ?thesis using mul56_sval(1) sub56_val(1) [OF _ zero56(1)] by (simp add: mpy_source_def Let_def ab)
qed

lemma alu_finish_wf: "regs_wf s \<Longrightarrow> n < 2 \<Longrightarrow> wf56 d \<Longrightarrow> regs_wf (alu_finish n d f s)"
  by (simp add: alu_finish_def Let_def regs_wf_sr regs_wf_ccr regs_wf_set_accu)

lemma mac_finish_wf: "regs_wf s \<Longrightarrow> n < 2 \<Longrightarrow> wf56 d \<Longrightarrow> regs_wf (mac_finish n d f s)"
  by (simp add: mac_finish_def Let_def regs_wf_sr regs_wf_ccr regs_wf_set_accu)

lemma cmp_finish_wf: "regs_wf s \<Longrightarrow> regs_wf (cmp_finish d f s)"
  by (simp add: cmp_finish_def Let_def regs_wf_sr regs_wf_ccr)

lemma a1_width: "n < 2 \<Longrightarrow> reg_bits (DSP_REG_A1 + n) = 24"
  by (auto simp: reg_bits_def)

lemma logic_finish_wf:
  assumes "\<And>w. unat w < 2 ^ 24 \<Longrightarrow> regs_wf (setreg r w s)"
  shows "regs_wf (logic_finish r s)"
proof -
  have "unat (registers s r AND BITMASK 24) < 2 ^ 24" by (simp add: and_BITMASK unat_take_bit_mod)
  from assms [OF this] show ?thesis
    by (simp add: logic_finish_def flag_n_def flag_z_def Let_def regs_wf_sr)
qed

lemma set_a1_wf: "regs_wf s \<Longrightarrow> n < 2 \<Longrightarrow> unat v < 2 ^ 24 \<Longrightarrow> regs_wf (setreg (DSP_REG_A1 + n) v s)"
  by (rule regs_wf_setreg) (simp_all add: a1_width)

lemma masked24: "unat (w AND BITMASK 24) < 2 ^ 24"
  by (simp add: and_BITMASK unat_take_bit_mod)

lemma logic_op_wf:
  assumes "regs_wf s" "n < 2"
  shows "regs_wf (logic_finish (DSP_REG_A1 + n) (setreg (DSP_REG_A1 + n) v s))"
  by (rule logic_finish_wf) (simp only: setreg_setreg set_a1_wf assms)

lemmas arith_wf = add56_val(1) sub56_val(1) asl56_val(1) asr56_val(1) abs56_val(1) rnd56_val(1)

lemmas alu_wf = accu_wf alu_dest_less other_accu_less add_source_wf cmp_source_wf adc_source_wf mpy_source_wf
  alu_finish_wf mac_finish_wf cmp_finish_wf regs_wf_sr regs_wf_ccr regs_wf_set_accu arith_wf

lemma additive_wf:
  assumes "regs_wf s"
  shows "regs_wf (dsp_abs s)" "regs_wf (dsp_adc s)" "regs_wf (dsp_add s)" "regs_wf (dsp_addl s)" "regs_wf (dsp_addr s)"
    "regs_wf (dsp_asl s)" "regs_wf (dsp_asr s)" "regs_wf (dsp_clr s)" "regs_wf (dsp_cmp s)" "regs_wf (dsp_cmpm s)"
    "regs_wf (dsp_neg s)" "regs_wf (dsp_rnd s)" "regs_wf (dsp_sbc s)" "regs_wf (dsp_sub s)" "regs_wf (dsp_subl s)"
    "regs_wf (dsp_subr s)" "regs_wf (dsp_tfr s)" "regs_wf (dsp_tst s)"
proof -
  have one: "wf56 (0, 0, 1)" by simp
  note w = assms alu_wf one add_source_wf [OF assms] cmp_source_wf [OF assms]
  show "regs_wf (dsp_abs s)" by (simp add: dsp_abs_def Let_def w)
  show "regs_wf (dsp_adc s)" by (simp add: dsp_adc_def Let_def split_beta w)
  show "regs_wf (dsp_add s)" by (cases "add_source s") (simp_all add: dsp_add_def Let_def split_beta w)
  show "regs_wf (dsp_addl s)" by (simp add: dsp_addl_def Let_def split_beta w)
  show "regs_wf (dsp_addr s)" by (simp add: dsp_addr_def Let_def split_beta w)
  show "regs_wf (dsp_asl s)" by (simp add: dsp_asl_def Let_def split_beta w)
  show "regs_wf (dsp_asr s)" by (simp add: dsp_asr_def Let_def split_beta w)
  show "regs_wf (dsp_clr s)" by (simp add: dsp_clr_def Let_def w)
  show "regs_wf (dsp_cmp s)" by (cases "cmp_source s") (simp_all add: dsp_cmp_def Let_def split_beta w)
  show "regs_wf (dsp_cmpm s)" by (cases "cmp_source s") (simp_all add: dsp_cmpm_def Let_def split_beta w)
  show "regs_wf (dsp_neg s)" by (simp add: dsp_neg_def Let_def w)
  show "regs_wf (dsp_rnd s)" by (simp add: dsp_rnd_def Let_def w)
  show "regs_wf (dsp_sbc s)" by (simp add: dsp_sbc_def Let_def split_beta w)
  show "regs_wf (dsp_sub s)" by (cases "add_source s") (simp_all add: dsp_sub_def Let_def split_beta w)
  show "regs_wf (dsp_subl s)" by (simp add: dsp_subl_def Let_def split_beta w)
  show "regs_wf (dsp_subr s)" by (simp add: dsp_subr_def Let_def split_beta w)
  show "regs_wf (dsp_tfr s)" by (cases "cmp_source s") (simp_all add: dsp_tfr_def w)
  show "regs_wf (dsp_tst s)" by (simp add: dsp_tst_def w)
qed

lemma multiply_wf:
  assumes "regs_wf s"
  shows "regs_wf (dsp_mac s)" "regs_wf (dsp_macr s)" "regs_wf (dsp_mpy s)" "regs_wf (dsp_mpyr s)"
  using assms by (simp_all add: dsp_mac_def dsp_macr_def dsp_mpy_def dsp_mpyr_def Let_def split_beta alu_wf)

lemma lsr_less: "unat (w :: u32) < 2 ^ 24 \<Longrightarrow> unat (drop_bit 1 w) < 2 ^ 24"
  by (simp add: unat_drop_bit_div)

lemma logic_wf:
  assumes "regs_wf s"
  shows "regs_wf (dsp_and s)" "regs_wf (dsp_eor s)" "regs_wf (dsp_or s)" "regs_wf (dsp_not s)"
    "regs_wf (dsp_lsl s)" "regs_wf (dsp_lsr s)" "regs_wf (dsp_rol s)" "regs_wf (dsp_ror s)"
proof -
  note w = assms alu_dest_less [of s]
  have a1: "unat (registers s (DSP_REG_A1 + alu_dest s)) < 2 ^ 24"
    using regs_wfD [OF assms, of "DSP_REG_A1 + alu_dest s"] w by (simp add: a1_width)
  show "regs_wf (dsp_and s)" "regs_wf (dsp_eor s)" "regs_wf (dsp_or s)" "regs_wf (dsp_not s)"
    by (simp_all only: dsp_and_def dsp_eor_def dsp_or_def dsp_not_def Let_def logic_op_wf w)
  show "regs_wf (dsp_lsl s)" "regs_wf (dsp_rol s)" "regs_wf (dsp_ror s)"
    by (simp_all only: dsp_lsl_def dsp_rol_def dsp_ror_def Let_def flag_n_def flag_z_def setreg_setreg
        regs_wf_sr set_a1_wf masked24 w)
  show "regs_wf (dsp_lsr s)"
    by (simp only: dsp_lsr_def Let_def flag_z_def regs_wf_sr set_a1_wf lsr_less a1 w)
qed

section \<open>Comparison\<close>

lemma bit_vlc:
  "bit (ucast (vlc v c) :: u32) k \<longleftrightarrow> (k = DSP_SR_L \<or> k = DSP_SR_V) \<and> v \<or> k = DSP_SR_C \<and> c"
  unfolding vlc_def bit_unsigned_iff bit_or_iff bit_push_bit_iff bit_of_flag by auto

lemma bit_clear_vc: "bit (BITMASK 16 - (push_bit DSP_SR_V 1 OR push_bit DSP_SR_C 1)) k \<longleftrightarrow> k < 16 \<and> 2 \<le> k"
proof -
  have "BITMASK 16 - (push_bit DSP_SR_V 1 OR push_bit DSP_SR_C 1) = BITMASK 16 - BITMASK 2" by (simp add: BITMASK_def)
  then show ?thesis by (simp only: bit_high_mask [of 2 k]) auto
qed

lemma cmp_finish_bits:
  assumes "wf56 r" "scaling_mode s \<noteq> 3"
  shows "bit (SR (cmp_finish r (vlc v c) s)) DSP_SR_N \<longleftrightarrow> sval56 r < 0"
    "bit (SR (cmp_finish r (vlc v c) s)) DSP_SR_Z \<longleftrightarrow> sval56 r = 0"
    "bit (SR (cmp_finish r (vlc v c) s)) DSP_SR_V \<longleftrightarrow> v"
    "bit (SR (cmp_finish r (vlc v c) s)) DSP_SR_C \<longleftrightarrow> c"
proof -
  obtain r0 r1 r2 where r: "r = (r0, r1, r2)" by (metis prod_cases3)
  have b: "bit (SR (cmp_finish r (vlc v c) s)) k \<longleftrightarrow>
    (bit (SR (dsp_ccr_all r0 r1 r2 s)) k \<and> k < 16 \<and> 2 \<le> k) \<or> (k = DSP_SR_L \<or> k = DSP_SR_V) \<and> v \<or> k = DSP_SR_C \<and> c" for k
    by (simp only: cmp_finish_def Let_def ccr_acc_def r split_conv sr_clear_def sr_or_SR sr_and_SR bit_or_iff bit_and_iff
        bit_clear_vc bit_vlc)
  show "bit (SR (cmp_finish r (vlc v c) s)) DSP_SR_N \<longleftrightarrow> sval56 r < 0"
    "bit (SR (cmp_finish r (vlc v c) s)) DSP_SR_Z \<longleftrightarrow> sval56 r = 0"
    "bit (SR (cmp_finish r (vlc v c) s)) DSP_SR_V \<longleftrightarrow> v"
    "bit (SR (cmp_finish r (vlc v c) s)) DSP_SR_C \<longleftrightarrow> c"
    using ccr_all_bits(1,2) [of r0 r1 r2 s] assms unfolding b by (simp_all add: r)
qed

lemma sub56_order:
  assumes "wf56 a" "wf56 d"
  shows "(sval56 (snd (dsp_sub56 a d)) < 0) \<noteq> out_of_range56 (sval56 d - sval56 a) \<longleftrightarrow> sval56 d < sval56 a"
    and "sval56 (snd (dsp_sub56 a d)) = 0 \<longleftrightarrow> sval56 d = sval56 a"
proof -
  note v = sub56_val(2) [OF assms] and l = assms [THEN val56_lt] val56_lt [OF sub56_val(1) [OF assms]]
  show "(sval56 (snd (dsp_sub56 a d)) < 0) \<noteq> out_of_range56 (sval56 d - sval56 a) \<longleftrightarrow> sval56 d < sval56 a"
    using v l by (cases "val56 d < val56 a") (auto simp: sval56_def sgn_of_def out_of_range56_def split: if_splits)
  show "sval56 (snd (dsp_sub56 a d)) = 0 \<longleftrightarrow> sval56 d = sval56 a"
    using v l by (cases "val56 d < val56 a") (auto simp: sval56_def sgn_of_def split: if_splits)
qed

lemma cmp_conditions:
  assumes "regs_wf s" "scaling_mode s \<noteq> 3" "cmp_source s = Some a" "d = accu (alu_dest s) s"
  shows "cond_flags (SR (dsp_cmp s)) ! 0 \<longleftrightarrow> val56 d < val56 a"
    "cond_flags (SR (dsp_cmp s)) ! 1 \<longleftrightarrow> sval56 d < sval56 a"
    "cond_flags (SR (dsp_cmp s)) ! 2 \<longleftrightarrow> sval56 d = sval56 a"
    "cond_flags (SR (dsp_cmp s)) ! 7 \<longleftrightarrow> sval56 d \<le> sval56 a"
proof -
  have w: "wf56 a" "wf56 d" using cmp_source_wf [OF assms(1,3)] accu_wf [OF assms(1) alu_dest_less] by (simp_all add: assms(4))
  have e: "dsp_cmp s = cmp_finish (snd (dsp_sub56 a d)) (vlc (out_of_range56 (sval56 d - sval56 a)) (val56 d < val56 a)) s"
    by (simp add: dsp_cmp_def assms(3,4) Let_def split_beta sub56_flags [OF w, unfolded assms(4)])
  note b = cmp_finish_bits [OF sub56_val(1) [OF w] assms(2)] and o = sub56_order [OF w]
  show "cond_flags (SR (dsp_cmp s)) ! 0 \<longleftrightarrow> val56 d < val56 a"
    "cond_flags (SR (dsp_cmp s)) ! 1 \<longleftrightarrow> sval56 d < sval56 a"
    "cond_flags (SR (dsp_cmp s)) ! 2 \<longleftrightarrow> sval56 d = sval56 a"
    "cond_flags (SR (dsp_cmp s)) ! 7 \<longleftrightarrow> sval56 d \<le> sval56 a"
    unfolding e cond_flags_def Let_def using b o by auto
qed

section \<open>Multiply-accumulate\<close>

lemma sval24_bound: "unat x < 2 ^ 24 \<Longrightarrow> \<bar>sval24 x\<bar> \<le> 2 ^ 23"
proof -
  have "n < 2 ^ 24 \<Longrightarrow> \<bar>sgn_of 24 n\<bar> \<le> 2 ^ 23" for n by (auto simp: sgn_of_def abs_if)
  then show "unat x < 2 ^ 24 \<Longrightarrow> ?thesis" by (simp only: sval24_def)
qed

lemma product_bound:
  assumes "unat x < 2 ^ 24" "unat y < 2 ^ 24"
  shows "\<bar>2 * sval24 x * sval24 y\<bar> \<le> 2 ^ 47"
proof -
  have "\<bar>sval24 x\<bar> * \<bar>sval24 y\<bar> \<le> 2 ^ 23 * 2 ^ 23"
    by (intro mult_mono sval24_bound assms) simp_all
  then show ?thesis by (simp add: abs_mult)
qed

lemma sr_frame:
  "cur_inst (sr_and m s) = cur_inst s" "cur_inst (sr_or m s) = cur_inst s" "cur_inst (sr_clear m s) = cur_inst s"
  "r \<noteq> DSP_REG_SR \<Longrightarrow> registers (sr_and m s) r = registers s r"
  "r \<noteq> DSP_REG_SR \<Longrightarrow> registers (sr_or m s) r = registers s r"
  "r \<noteq> DSP_REG_SR \<Longrightarrow> registers (sr_clear m s) r = registers s r"
  by (simp_all add: sr_and_def sr_or_def sr_clear_def)

lemma ccr_frame:
  "cur_inst (ccr_acc d s) = cur_inst s"
  "r \<noteq> DSP_REG_SR \<Longrightarrow> registers (ccr_acc d s) r = registers s r"
  by (simp_all add: ccr_acc_def dsp_ccr_all_def dsp_ccr_zero_def dsp_ccr_negative_def dsp_ccr_unnormalized_def
      dsp_ccr_extension_def Let_def sr_frame split_beta)

lemma accu_frame:
  assumes "n < 2" "\<And>r. r \<noteq> DSP_REG_SR \<Longrightarrow> registers t r = registers s r"
  shows "accu n t = accu n s"
  using assms by (simp add: accu_def)

lemma mac_finish_frame:
  "cur_inst (mac_finish n d f s) = cur_inst s" "n < 2 \<Longrightarrow> accu n (mac_finish n d f s) = d"
proof -
  show "cur_inst (mac_finish n d f s) = cur_inst s"
    by (simp add: mac_finish_def Let_def sr_frame ccr_frame set_accu_def split_beta)
  show "accu n (mac_finish n d f s) = d" if n: "n < 2"
    using accu_frame [OF n, of "mac_finish n d f s" "set_accu n d s"]
    by (simp add: mac_finish_def Let_def sr_frame ccr_frame accu_set_accu [OF n])
qed

lemma mac_step:
  assumes "regs_wf s" "\<not> bit (cur_inst s) 2" "registers_mpy ! unat (ibits 4 3 s) = (r1, r2)"
    and "\<not> out_of_range56 (sval56 (accu (alu_dest s) s) + 2 * sval24 (registers s r1) * sval24 (registers s r2))"
  shows "sval56 (accu (alu_dest s) (dsp_mac s)) =
      sval56 (accu (alu_dest s) s) + 2 * sval24 (registers s r1) * sval24 (registers s r2)"
    and "regs_wf (dsp_mac s)" "cur_inst (dsp_mac s) = cur_inst s"
proof -
  have "r1 \<in> {4, 5, 6, 7}" "r2 \<in> {4, 5, 6, 7}" using mpy_regs [of "unat (ibits 4 3 s)"] ibits_less [of 3 4 s] assms(3) by auto
  then have u: "unat (registers s r1) < 2 ^ 24" "unat (registers s r2) < 2 ^ 24" using regs_wf24 [OF assms(1)] by auto
  note m = mul56_sval [OF u] and a = accu_wf [OF assms(1) alu_dest_less]
  have src: "mpy_source s = dsp_mul56 (registers s r1) (registers s r2)"
    using assms(2) by (simp add: mpy_source_def Let_def assms(3))
  show "sval56 (accu (alu_dest s) (dsp_mac s)) =
      sval56 (accu (alu_dest s) s) + 2 * sval24 (registers s r1) * sval24 (registers s r2)"
    using add56_sval [OF m(1) a] assms(4)
    by (simp add: dsp_mac_def Let_def split_beta src mac_finish_frame alu_dest_less m(2))
  show "regs_wf (dsp_mac s)" by (rule multiply_wf [OF assms(1)])
  show "cur_inst (dsp_mac s) = cur_inst s" by (simp add: dsp_mac_def Let_def split_beta mac_finish_frame)
qed

text \<open>Load two operands, multiply and accumulate.\<close>

definition mac_pair :: "nat \<Rightarrow> nat \<Rightarrow> u32 \<times> u32 \<Rightarrow> dsp_core_t \<Rightarrow> dsp_core_t" where
  "mac_pair r1 r2 xy s = dsp_mac (setreg r1 (fst xy) (setreg r2 (snd xy) s))"

definition pair24 :: "u32 \<times> u32 \<Rightarrow> bool" where
  "pair24 xy \<longleftrightarrow> unat (fst xy) < 2 ^ 24 \<and> unat (snd xy) < 2 ^ 24"

lemma dot_product:
  assumes "regs_wf s" "\<not> bit (cur_inst s) 2" "registers_mpy ! unat (ibits 4 3 s) = (r1, r2)" "r1 \<noteq> r2"
    and "list_all pair24 xys" "\<bar>sval56 (accu (alu_dest s) s)\<bar> + int (length xys) * 2 ^ 47 < 2 ^ 55"
  shows "sval56 (accu (alu_dest s) (fold (mac_pair r1 r2) xys s)) =
    sval56 (accu (alu_dest s) s) + sum_list (map (\<lambda>(x, y). 2 * sval24 x * sval24 y) xys)"
  using assms
proof (induction xys arbitrary: s)
  case (Cons xy xys)
  obtain x y where xy: "xy = (x, y)" by fastforce
  have r: "r1 \<in> {4, 5, 6, 7}" "r2 \<in> {4, 5, 6, 7}"
    using mpy_regs [of "unat (ibits 4 3 s)"] ibits_less [of 3 4 s] Cons.prems(3) by auto
  define t where "t = setreg r1 x (setreg r2 y s)"
  have w: "unat x < 2 ^ 24" "unat y < 2 ^ 24" using Cons.prems(5) by (simp_all add: xy pair24_def)
  have t1: "cur_inst t = cur_inst s" "registers t r1 = x" "registers t r2 = y"
    using Cons.prems(4) by (simp_all add: t_def)
  have "registers t k = registers s k" if "7 < k" for k using r that by (auto simp: t_def)
  then have t2: "accu n t = accu n s" for n by (simp add: accu_def)
  have t: "cur_inst t = cur_inst s" "alu_dest t = alu_dest s" "ibits n m t = ibits n m s"
    "registers t r1 = x" "registers t r2 = y" "accu (alu_dest s) t = accu (alu_dest s) s" for n m
    by (simp_all only: t1 t2 alu_dest_def ibits_def)
  have tw: "regs_wf t" unfolding t_def using r w by (intro regs_wf_setreg Cons.prems(1)) (auto simp: reg_bits_def)
  have rng: "\<not> out_of_range56 (sval56 (accu (alu_dest s) s) + 2 * sval24 x * sval24 y)"
    using product_bound [OF w] Cons.prems(6) zero_le_mult_iff [of "int (length xys)" "2 ^ 47"]
    unfolding out_of_range56_def by (simp only: list.size of_nat_Suc of_nat_add of_nat_1 distrib_right) linarith
  note st = mac_step [OF tw, of r1 r2, unfolded t, OF Cons.prems(2,3) rng]
  have m: "mac_pair r1 r2 (x, y) s = dsp_mac t" by (simp add: mac_pair_def t_def)
  have d: "alu_dest (dsp_mac t) = alu_dest s" "ibits 4 3 (dsp_mac t) = ibits 4 3 s"
    using st(3) by (simp_all add: alu_dest_def ibits_def)
  have "\<bar>sval56 (accu (alu_dest s) (dsp_mac t))\<bar> + int (length xys) * 2 ^ 47 < 2 ^ 55"
    using product_bound [OF w] Cons.prems(6) unfolding st(1)
    by (simp only: list.size of_nat_Suc of_nat_add of_nat_1 distrib_right)
  then show ?case
    using Cons.IH [of "dsp_mac t"] Cons.prems st by (simp add: m d xy add.assoc)
qed simp

section \<open>Properties of the arithmetic instructions\<close>

text \<open>
  C20. A comparison followed by a conditional instruction decides the order of the operands: after
  CMP of any source S against the accumulator D, the conditions LT, GE, EQ, NE, LE and GT hold exactly
  when they hold of the two's complement values, also when the difference overflows, and CS (LO) exactly
  when D is below S as unsigned numbers. Conditions 0 to 7 are CC, GE, NE, PL, NN, EC, LC and GT.
\<close>
theorem compare_conditions:
  assumes "regs_wf s" and "scaling_mode s \<noteq> 3" and "cmp_source s = Some a" and "d = accu (alu_dest s) s"
  shows "(dsp_calc_cc 8 (dsp_cmp s) \<longleftrightarrow> val56 d < val56 a)
    \<and> (dsp_calc_cc 1 (dsp_cmp s) \<longleftrightarrow> sval56 a \<le> sval56 d) \<and> (dsp_calc_cc 9 (dsp_cmp s) \<longleftrightarrow> sval56 d < sval56 a)
    \<and> (dsp_calc_cc 2 (dsp_cmp s) \<longleftrightarrow> sval56 d \<noteq> sval56 a) \<and> (dsp_calc_cc 10 (dsp_cmp s) \<longleftrightarrow> sval56 d = sval56 a)
    \<and> (dsp_calc_cc 7 (dsp_cmp s) \<longleftrightarrow> sval56 a < sval56 d) \<and> (dsp_calc_cc 15 (dsp_cmp s) \<longleftrightarrow> sval56 d \<le> sval56 a)"
  using cmp_conditions [OF assms] by (auto simp: calc_cc_flags word_less_nat_alt word_le_nat_alt)

text \<open>A state that executes CMP X0,A with A at the most negative value.\<close>

definition cmp_example :: dsp_core_t where
  "cmp_example = setreg DSP_REG_A2 0x80 (setreg DSP_REG_X0 0x7fffff cleared_core)\<lparr>cur_inst := 0x000045\<rparr>"

lemma cmp_example_simps: "accu 0 cmp_example = (0x80, 0, 0)" "alu_dest cmp_example = 0" "ibits 4 3 cmp_example = 4"
  "regs_wf cmp_example" "scaling_mode cmp_example = 0" "cmp_source cmp_example = Some (0, 0x7fffff, 0)"
proof -
  show i: "ibits 4 3 cmp_example = 4" by (simp add: cmp_example_def ibits_def BITMASK_def)
  show "regs_wf cmp_example" by (auto simp: cmp_example_def regs_wf_def reg_bits_def)
  show "cmp_source cmp_example = Some (0, 0x7fffff, 0)"
    using i by (simp add: cmp_source_def ext24_def sign_ext_def Let_def) (simp add: cmp_example_def)
qed (simp_all add: cmp_example_def accu_def alu_dest_def scaling_mode_def)

theorem compare_conditions_witness:
  "dsp_calc_cc 9 (dsp_cmp cmp_example) \<and> \<not> dsp_calc_cc 8 (dsp_cmp cmp_example)"
  using compare_conditions [OF cmp_example_simps(4) _ cmp_example_simps(6) refl]
  by (simp add: cmp_example_simps sval56_def sgn_of_def)

text \<open>
  C21. Dot products are exact: the eight extension bits of the accumulator absorb 255 products. A loop of at
  most 255 loads and MAC instructions that starts from a zero accumulator leaves twice the sum of the
  products of the signed operands in it, whatever the operands are.
\<close>
theorem mac_dot_product:
  assumes "regs_wf s" and "\<not> bit (cur_inst s) 2" and "registers_mpy ! unat (ibits 4 3 s) = (r1, r2)" and "r1 \<noteq> r2"
    and "sval56 (accu (alu_dest s) s) = 0" and "list_all pair24 xys" and "length xys \<le> 255"
  shows "sval56 (accu (alu_dest s) (fold (mac_pair r1 r2) xys s)) =
    2 * sum_list (map (\<lambda>(x, y). sval24 x * sval24 y) xys)"
proof -
  have "2 * sum_list (map (\<lambda>(x, y). sval24 x * sval24 y) xys) = sum_list (map (\<lambda>(x, y). 2 * sval24 x * sval24 y) xys)"
    by (induction xys) (auto simp: algebra_simps)
  then show ?thesis using dot_product [OF assms(1-4,6)] assms(5,7) by simp
qed

theorem mac_dot_product_witness:
  "sval56 (accu 0 (fold (mac_pair DSP_REG_Y0 DSP_REG_X0) [(0x800000, 0x7fffff), (1, 2)] (cleared_core\<lparr>cur_inst := 0x0000d2\<rparr>)))
   = 2 * (- 0x800000 * 0x7fffff + 2)"
proof -
  have "ibits 4 3 (cleared_core\<lparr>cur_inst := 0x0000d2\<rparr>) = 5" by (simp add: ibits_def BITMASK_def)
  moreover have "alu_dest (cleared_core\<lparr>cur_inst := 0x0000d2\<rparr>) = 0" by (simp add: alu_dest_def)
  ultimately show ?thesis
    using mac_dot_product [of "cleared_core\<lparr>cur_inst := 0x0000d2\<rparr>" DSP_REG_Y0 DSP_REG_X0 "[(0x800000, 0x7fffff), (1, 2)]"]
    by (simp add: regs_wf_def registers_mpy_def accu_def pair24_def sval24_def sgn_of_def)
qed

section \<open>The limiter\<close>

lemma sgn56_div24:
  assumes "v < 2 ^ 56"
  shows "- (2 ^ 47) \<le> sgn_of 56 v \<Longrightarrow> sgn_of 56 v < 2 ^ 47 \<Longrightarrow> sgn_of 24 (v div 2 ^ 24 mod 2 ^ 24) = sgn_of 56 v div 2 ^ 24"
proof -
  assume r: "- (2 ^ 47) \<le> sgn_of 56 v" "sgn_of 56 v < 2 ^ 47"
  have "v < 2 ^ 47 \<or> 2 ^ 56 - 2 ^ 47 \<le> v" using r assms by (auto simp: sgn_of_def split: if_splits)
  then show ?thesis
  proof
    assume v: "v < 2 ^ 47"
    then have "v div 2 ^ 24 < 2 ^ 23" by (simp add: div_less_iff_less_mult)
    then show ?thesis using v by (simp add: sgn_of_def zdiv_int)
  next
    assume v: "2 ^ 56 - 2 ^ 47 \<le> v"
    define w where "w = v - (2 ^ 56 - 2 ^ 47)"
    have v': "v = w + (2 ^ 32 - 2 ^ 23) * 2 ^ 24" and w: "w < 2 ^ 47" using v assms by (simp_all add: w_def)
    have q: "v div 2 ^ 24 = w div 2 ^ 24 + (2 ^ 32 - 2 ^ 23)" unfolding v' by simp
    have wq: "w div 2 ^ 24 < 2 ^ 23" using w by (simp add: div_less_iff_less_mult)
    have "v div 2 ^ 24 mod 2 ^ 24 = w div 2 ^ 24 + 2 ^ 23"
    proof -
      have "v div 2 ^ 24 = (w div 2 ^ 24 + 2 ^ 23) + (2 ^ 8 - 1) * 2 ^ 24" unfolding q by simp
      also have "\<dots> mod 2 ^ 24 = (w div 2 ^ 24 + 2 ^ 23) mod 2 ^ 24" by (rule mod_mult_self1)
      finally show ?thesis using wq by simp
    qed
    then have l: "sgn_of 24 (v div 2 ^ 24 mod 2 ^ 24) = int (w div 2 ^ 24) - 2 ^ 23" by (simp add: sgn_of_def)
    have "sgn_of 56 v = int w + (- (2 ^ 23)) * 2 ^ 24" using v unfolding v' by (simp add: sgn_of_def)
    also have "\<dots> div 2 ^ 24 = int w div 2 ^ 24 - 2 ^ 23" by (subst div_mult_self1) simp_all
    finally show ?thesis unfolding l by (simp add: zdiv_int)
  qed
qed

lemma limiter_clamps:
  assumes "regs_wf s" "scaling_mode s = 0" "v = sval56 (accu (n mod 2) s) div 2 ^ 24"
  shows "sval24 (snd (accu24_limit n s)) = max (- (2 ^ 23)) (min (2 ^ 23 - 1) v)"
    and "fst (accu24_limit n s) \<longleftrightarrow> v < - (2 ^ 23) \<or> 2 ^ 23 - 1 < v"
proof -
  define m where "m = n mod 2"
  have m: "m < 2" by (simp add: m_def)
  obtain d0 d1 d2 where d: "accu m s = (d0, d1, d2)" by (metis prod_cases3)
  have r: "registers s (DSP_REG_A2 + m) = d0" "registers s (DSP_REG_A1 + m) = d1" using d by (simp_all add: accu_def)
  have w: "wf56 (d0, d1, d2)" using accu_wf [OF assms(1) m] by (simp only: d)
  define x where "x = val56 (d0, d1, d2)"
  have x: "x < 2 ^ 56" using val56_lt [OF w] by (simp add: x_def)
  have sv: "sval56 (accu m s) = sgn_of 56 x" by (simp add: d sval56_def x_def)
  have d1: "unat d1 = x div 2 ^ 24 mod 2 ^ 24"
  proof -
    have "x = unat d2 + (unat d0 * 2 ^ 24 + unat d1) * 2 ^ 24" by (simp add: x_def)
    then have "x div 2 ^ 24 = unat d2 div 2 ^ 24 + (unat d0 * 2 ^ 24 + unat d1)" by (simp only:) simp
    then show ?thesis using w by simp
  qed
  have t: "push_bit 1 (d0 AND 0xff) OR (drop_bit 23 d1 AND 1) = 0 \<or> push_bit 1 (d0 AND 0xff) OR (drop_bit 23 d1 AND 1) = BITMASK 9
    \<longleftrightarrow> - (2 ^ 47) \<le> sgn_of 56 x \<and> sgn_of 56 x < 2 ^ 47"
    using ext_top(1) [OF w, folded x_def] ext_range [OF x, of 47] unfolding word_unat_eq_iff by (simp add: BITMASK_def)
  have neg: "bit d0 7 \<longleftrightarrow> sgn_of 56 x < 0"
    using sign56 [OF w] x by (auto simp: x_def sgn_of_def simp del: val56.simps)
  have c: "sgn_of 56 x < - (2 ^ 47) \<longleftrightarrow> v < - (2 ^ 23)" "2 ^ 47 \<le> sgn_of 56 x \<longleftrightarrow> 2 ^ 23 - 1 < v"
    using div_mult_mod_eq [of "sgn_of 56 x" "2 ^ 24"] pos_mod_bound [of "2 ^ 24" "sgn_of 56 x"] pos_mod_sign [of "2 ^ 24" "sgn_of 56 x"]
    unfolding assms(3) m_def [symmetric] sv by auto
  have lim: "accu24_limit n s = (if - (2 ^ 47) \<le> sgn_of 56 x \<and> sgn_of 56 x < 2 ^ 47 then (False, d1)
    else if sgn_of 56 x < 0 then (True, 0x800000) else (True, 0x7fffff))"
    unfolding accu24_limit_def assms(2) Let_def m_def [symmetric] r t [symmetric] neg [symmetric] by simp
  show "fst (accu24_limit n s) \<longleftrightarrow> v < - (2 ^ 23) \<or> 2 ^ 23 - 1 < v" unfolding lim using c by auto
  have v: "v = sgn_of 56 x div 2 ^ 24" by (simp add: assms(3) m_def [symmetric] sv)
  show "sval24 (snd (accu24_limit n s)) = max (- (2 ^ 23)) (min (2 ^ 23 - 1) v)"
  proof (cases "- (2 ^ 47) \<le> sgn_of 56 x \<and> sgn_of 56 x < 2 ^ 47")
    case True
    then have "sval24 (snd (accu24_limit n s)) = v" using sgn56_div24 [OF x] by (simp add: lim sval24_def d1 v)
    then show ?thesis using c True by auto
  next
    case False
    then show ?thesis using c by (auto simp: lim sval24_def sgn_of_def)
  qed
qed

text \<open>
  C23. The limiter: without scaling, moving an accumulator to a 24-bit destination stores its upper part
  clamped to the range of 24-bit two's complement numbers, and reports a limitation exactly when the value
  does not fit.
\<close>
theorem limiter_saturates:
  assumes "regs_wf s" and "scaling_mode s = 0" and "v = sval56 (accu (n mod 2) s) div 2 ^ 24"
  shows "sval24 (snd (accu24_limit n s)) = max (- (2 ^ 23)) (min (2 ^ 23 - 1) v)
    \<and> (fst (accu24_limit n s) \<longleftrightarrow> v < - (2 ^ 23) \<or> 2 ^ 23 - 1 < v)"
  using limiter_clamps [OF assms] by blast

theorem limiter_saturates_witness:
  "sval24 (snd (accu24_limit DSP_REG_A cmp_example)) = - (2 ^ 23) \<and> fst (accu24_limit DSP_REG_A cmp_example)"
  using limiter_saturates [OF cmp_example_simps(4,5) refl, of DSP_REG_A]
  by (simp add: cmp_example_simps sval56_def sgn_of_def)

end
