(* ===== verification/Dsp_Control.thy ===== *)
theory Dsp_Control
  imports Dsp_Alu
begin

text \<open>
  The instructions without parallel moves (\<open>src/src/dsp_cpu.c\<close>, section ``Non-parallel moves
  instructions''): bit operations, division step, loops, jumps and subroutines, control moves,
  normalisation, transfers and the instructions that stop the DSP.
\<close>

definition dsp_undefined :: "dsp_core_t \<Rightarrow> dsp_core_t" where
  "dsp_undefined s = s\<lparr>cur_inst_len := 0\<rparr>"

definition dsp_andi :: "dsp_core_t \<Rightarrow> dsp_core_t" where
  "dsp_andi s =
     (let value = ibits 8 8 s;
          regnum = ibits 0 2 s
      in if regnum = 0 then sr_and (push_bit 8 value OR BITMASK 8) s
         else if regnum = 1 then sr_and (push_bit 8 (BITMASK 8) OR value) s
         else if regnum = 2 then setreg DSP_REG_OMR (registers s DSP_REG_OMR AND value) s
         else s)"

text \<open>The register a bit instruction names: an accumulator stands for its middle part.\<close>

definition bit_reg :: "nat \<Rightarrow> nat" where
  "bit_reg numreg = (if is_accu numreg then DSP_REG_A1 + numreg mod 2 else numreg)"

definition set_carry :: "u32 \<Rightarrow> dsp_core_t \<Rightarrow> dsp_core_t" where
  "set_carry newcarry s = sr_or (push_bit DSP_SR_C newcarry) (sr_clear (push_bit DSP_SR_C 1) s)"

text \<open>
  The common body of \<open>dsp_bchg\<close>, \<open>dsp_bclr\<close> and \<open>dsp_bset\<close>. \<open>change\<close> is the
  new value from the bit, the old carry and the old value; \<open>ext\<close> is what the extension register
  of an accumulator gets when bit 23 changes.
\<close>

definition bit_op :: "(nat \<Rightarrow> u32 \<Rightarrow> u32 \<Rightarrow> u32) \<Rightarrow> (u32 \<Rightarrow> u32) \<Rightarrow> dsp_core_t \<Rightarrow> dsp_core_t" where
  "bit_op change ext s =
     (let memspace = unat (drop_bit 6 (cur_inst s) AND 1);
          value = ibits 8 6 s;
          numbit = unat (ibits 0 5 s);
          mem = (\<lambda>addr s.
            (let (value, s) = read_memory memspace (ucast addr) s;
                 newcarry = drop_bit numbit value AND 1;
                 s = write_memory memspace (ucast addr) (change numbit newcarry value) s
             in (newcarry, s)));
          sel = ibits 14 2 s;
          (newcarry, s) =
            (if sel = 0 then mem value s
             else if sel = 1 then (let (_, addr, s) = dsp_calc_ea value s in mem addr s)
             else if sel = 2 then mem (0xffc0 + value) s
             else
               (let srcreg = unat value;
                    numreg = bit_reg srcreg;
                    value = registers s numreg;
                    newcarry = drop_bit numbit value AND 1;
                    s = setreg numreg (change numbit newcarry value) s;
                    s = (if is_accu srcreg \<and> numbit = 23
                         then setreg (DSP_REG_A2 + srcreg mod 2) (ext newcarry) s else s)
                in (newcarry, s)))
      in set_carry newcarry s)"

definition dsp_bchg :: "dsp_core_t \<Rightarrow> dsp_core_t" where
  "dsp_bchg = bit_op
     (\<lambda>numbit newcarry value. if newcarry \<noteq> 0 then value - push_bit numbit 1 else value + push_bit numbit 1)
     (\<lambda>newcarry. if newcarry \<noteq> 0 then 0x00 else 0xff)"

definition dsp_bclr :: "dsp_core_t \<Rightarrow> dsp_core_t" where
  "dsp_bclr = bit_op (\<lambda>numbit newcarry value. value AND (0xffffffff - push_bit numbit 1)) (\<lambda>_. 0x00)"

definition dsp_bset :: "dsp_core_t \<Rightarrow> dsp_core_t" where
  "dsp_bset = bit_op (\<lambda>numbit newcarry value. value OR push_bit numbit 1) (\<lambda>_. 0xff)"

text \<open>
  The operand switch of \<open>dsp_btst\<close>, \<open>dsp_jclr\<close>, \<open>dsp_jset\<close>, \<open>dsp_jsclr\<close> and
  \<open>dsp_jsset\<close>: where the operand lies in memory (\<open>None\<close> for a register), its value, the
  state.
\<close>

definition bit_operand :: "dsp_core_t \<Rightarrow> (nat \<times> u32) option \<times> u32 \<times> dsp_core_t" where
  "bit_operand s =
     (let memspace = unat (drop_bit 6 (cur_inst s) AND 1);
          value = ibits 8 6 s;
          mem = (\<lambda>addr s.
            (let (value, s) = read_memory memspace (ucast addr) s in (Some (memspace, addr), value, s)));
          sel = ibits 14 2 s
      in if sel = 0 then mem value s
         else if sel = 1 then (let (_, addr, s) = dsp_calc_ea value s in mem addr s)
         else if sel = 2 then mem (0xffc0 + value) s
         else (None, registers s (bit_reg (unat value)), s))"

definition dsp_btst :: "dsp_core_t \<Rightarrow> dsp_core_t" where
  "dsp_btst s =
     (let numbit = unat (ibits 0 5 s);
          (_, value, s) = bit_operand s;
          newcarry = drop_bit numbit value AND 1
      in set_carry newcarry s)"

definition div_source :: "dsp_core_t \<Rightarrow> nat" where
  "div_source s =
     (let v = ibits 4 2 s
      in if v = 0 then DSP_REG_X0 else if v = 1 then DSP_REG_Y0
         else if v = 2 then DSP_REG_X1 else DSP_REG_Y1)"

definition dsp_div :: "dsp_core_t \<Rightarrow> dsp_core_t" where
  "dsp_div s =
     (let srcreg = div_source s;
          destreg = alu_dest s;
          source = (if has_bit (registers s srcreg) 23 then (0xff, registers s srcreg, 0)
                    else (0, registers s srcreg, 0));
          dest = accu destreg s;
          (newsr, (d0, d1, d2)) =
            (if (drop_bit 7 (fst dest) AND 1) XOR (drop_bit 23 (fst (snd source)) AND 1) \<noteq> 0 then
               (let (newsr, dest) = dsp_asl56 dest in (newsr, snd (dsp_add56 source dest)))
             else
               (let (newsr, dest) = dsp_asl56 dest in (newsr, snd (dsp_sub56 source dest))));
          d2 = d2 OR (drop_bit DSP_SR_C (SR s) AND 1);
          s = set_accu destreg (d0, d1, d2) s;
          s = sr_clear (push_bit DSP_SR_C 1 OR push_bit DSP_SR_V 1) s;
          s = sr_or (push_bit DSP_SR_C (1 - (drop_bit 7 d0 AND 1))) s;
          s = sr_or (ucast (newsr AND push_bit DSP_SR_L 1)) s
      in sr_or (ucast (newsr AND push_bit DSP_SR_V 1)) s)"

text \<open>The DO operands, and the same for REP.\<close>

definition set_lc :: "u32 \<Rightarrow> dsp_core_t \<Rightarrow> dsp_core_t" where
  "set_lc v = setreg DSP_REG_LC v"

definition dsp_do_aa :: "dsp_core_t \<Rightarrow> dsp_core_t" where
  "dsp_do_aa s =
     (let memspace = unat (drop_bit 6 (cur_inst s) AND 1);
          addr = ibits 8 6 s;
          (value, s) = read_memory memspace (ucast addr) s
      in set_lc (value AND BITMASK 16) s)"

definition dsp_do_imm :: "dsp_core_t \<Rightarrow> dsp_core_t" where
  "dsp_do_imm s = set_lc (ibits 8 8 s + push_bit 8 (ibits 0 4 s)) s"

definition dsp_do_ea :: "dsp_core_t \<Rightarrow> dsp_core_t" where
  "dsp_do_ea s =
     (let memspace = unat (drop_bit 6 (cur_inst s) AND 1);
          ea_mode = ibits 8 6 s;
          (_, addr, s) = dsp_calc_ea ea_mode s;
          (value, s) = read_memory memspace (ucast addr) s
      in set_lc (value AND BITMASK 16) s)"

definition dsp_do_reg :: "dsp_core_t \<Rightarrow> dsp_core_t" where
  "dsp_do_reg s =
     (let numreg = unat (ibits 8 6 s);
          s = (if is_accu numreg then snd (dsp_pm_read_accu24 numreg set_lc s)
               else set_lc (registers s numreg) s)
      in set_lc (registers s DSP_REG_LC AND BITMASK 16) s)"

definition opcodes_do :: "(dsp_core_t \<Rightarrow> dsp_core_t) list" where
  "opcodes_do =
    [dsp_do_aa, dsp_do_imm, dsp_do_ea, dsp_do_imm, dsp_undefined, dsp_do_imm, dsp_do_reg, dsp_do_imm]"

text \<open>\<open>dsp_core->pc+cur_inst_len\<close>, the return address.\<close>

definition next_pc :: "dsp_core_t \<Rightarrow> u32" where
  "next_pc s = ucast (pc s) + cur_inst_len s"

definition loop_operand :: "dsp_core_t \<Rightarrow> u32" where
  "loop_operand s = push_bit 1 (ibits 14 2 s) OR (drop_bit 7 (cur_inst s) AND 1)"

definition dsp_do :: "dsp_core_t \<Rightarrow> dsp_core_t" where
  "dsp_do s =
     (let s = dsp_stack_push (registers s DSP_REG_LA) (registers s DSP_REG_LC) s;
          s = setreg DSP_REG_LA (read_memory_p (pc s + 1) s AND BITMASK 16) s;
          s = s\<lparr>cur_inst_len := cur_inst_len s + 1\<rparr>;
          s = dsp_stack_push (next_pc s) (SR s) s;
          s = sr_or (push_bit DSP_SR_LF 1) s
      in (opcodes_do ! unat (loop_operand s)) s)"

text \<open>Two pops that end a DO loop: into a local and SR, then into LA and LC.\<close>

definition pop_loop :: "dsp_core_t \<Rightarrow> dsp_core_t" where
  "pop_loop s =
     (let (r, s) = dsp_stack_pop s;
          s = (case r of None \<Rightarrow> s | Some (_, newsr) \<Rightarrow> setreg DSP_REG_SR newsr s);
          (r, s) = dsp_stack_pop s
      in case r of None \<Rightarrow> s | Some (la, lc) \<Rightarrow> setreg DSP_REG_LC lc (setreg DSP_REG_LA la s))"

definition dsp_enddo :: "dsp_core_t \<Rightarrow> dsp_core_t" where
  "dsp_enddo s = pop_loop s"

definition dsp_illegal :: "dsp_core_t \<Rightarrow> dsp_core_t" where
  "dsp_illegal s = s"

text \<open>A jump: \<open>dsp_core->pc = newpc; cur_inst_len = 0\<close>.\<close>

definition jump_to :: "u32 \<Rightarrow> dsp_core_t \<Rightarrow> dsp_core_t" where
  "jump_to newpc s = s\<lparr>pc := ucast newpc, cur_inst_len := 0\<rparr>"

definition dsp_jcc :: "dsp_core_t \<Rightarrow> dsp_core_t" where
  "dsp_jcc s =
     (let op8 = ibits 16 8 s;
          (newpc, cc_code, s) =
            (if op8 = 0x0a then
               (let (_, newpc, s) = dsp_calc_ea (ibits 8 6 s) s in (Some newpc, ibits 0 4 s, s))
             else if op8 = 0x0e then (Some (ibits 0 12 s), ibits 12 4 s, s)
             else (None, 0, s))
      in if dsp_calc_cc cc_code s
         then (case newpc of Some newpc \<Rightarrow> jump_to newpc s | None \<Rightarrow> raise_fault UninitRead s)
         else s)"

text \<open>
  The test of \<open>dsp_jclr\<close> for a loop that polls the host port: a jump to itself, backwards
  over NOPs only, or over one host port setup instruction.
\<close>

definition polling_loop :: "u32 \<Rightarrow> dsp_core_t \<Rightarrow> bool" where
  "polling_loop newpc s =
     (let polling = (newpc = ucast (pc s));
          polling = (if \<not> polling \<and> newpc < ucast (pc s)
            then list_all (\<lambda>i. read_memory_p (of_nat i) s = 0) [unat newpc..<unat (pc s)]
            else polling)
      in if \<not> polling \<and> newpc + 2 = ucast (pc s)
         then read_memory_p (ucast newpc) s = 0x08f4a0 \<and> read_memory_p (ucast newpc + 1) s = 0x000001
         else polling)"

definition dsp_jclr :: "dsp_core_t \<Rightarrow> dsp_core_t" where
  "dsp_jclr s =
     (let numbit = unat (ibits 0 5 s);
          (place, value, s) = bit_operand s;
          s = s\<lparr>cur_inst_len := cur_inst_len s + 1\<rparr>
      in if \<not> has_bit value numbit then
           (let newpc = read_memory_p (pc s + 1) s;
                s = (if polling_loop newpc s \<and> place = Some (DSP_SPACE_X, 0xffc0 + of_nat DSP_HOST_HSR) then
                       (let s = (if numbit = DSP_HOST_HSR_HRDF then pauseThread s else s)
                        in if numbit = DSP_HOST_HSR_HTDE then pauseThread s else s)
                     else s)
            in jump_to newpc s)
         else s)"

definition dsp_jmp :: "dsp_core_t \<Rightarrow> dsp_core_t" where
  "dsp_jmp s =
     (let op8 = ibits 16 8 s;
          (newpc, s) =
            (if op8 = 0x0a then (let (_, newpc, s) = dsp_calc_ea (ibits 8 6 s) s in (newpc, s))
             else if op8 = 0x0c then (ibits 0 12 s, s)
             else (ucast (pc s), s));
          s = s\<lparr>cur_inst_len := 0\<rparr>
      in if newpc = ucast (pc s) then pauseThread s else s\<lparr>pc := ucast newpc\<rparr>)"

definition dsp_jscc :: "dsp_core_t \<Rightarrow> dsp_core_t" where
  "dsp_jscc s =
     (let op8 = ibits 16 8 s;
          (newpc, cc_code, s) =
            (if op8 = 0x0b then
               (let (_, newpc, s) = dsp_calc_ea (ibits 8 6 s) s in (Some newpc, ibits 0 4 s, s))
             else if op8 = 0x0f then (Some (ibits 0 12 s), ibits 12 4 s, s)
             else (None, 0, s))
      in if dsp_calc_cc cc_code s then
           (let s = dsp_stack_push (next_pc s) (SR s) s
            in case newpc of Some newpc \<Rightarrow> jump_to newpc s | None \<Rightarrow> raise_fault UninitRead s)
         else s)"

text \<open>The end of \<open>dsp_jsclr\<close> and \<open>dsp_jsset\<close>: a call of the address in the second word.\<close>

definition call_ext :: "dsp_core_t \<Rightarrow> dsp_core_t" where
  "call_ext s =
     (let s = dsp_stack_push (next_pc s) (SR s) s;
          newpc = read_memory_p (pc s + 1) s
      in jump_to newpc s)"

definition dsp_jsclr :: "dsp_core_t \<Rightarrow> dsp_core_t" where
  "dsp_jsclr s =
     (let numbit = unat (ibits 0 5 s);
          (_, value, s) = bit_operand s;
          s = s\<lparr>cur_inst_len := cur_inst_len s + 1\<rparr>
      in if \<not> has_bit value numbit then call_ext s else s)"

definition dsp_jset :: "dsp_core_t \<Rightarrow> dsp_core_t" where
  "dsp_jset s =
     (let numbit = unat (ibits 0 5 s);
          (_, value, s) = bit_operand s;
          s = s\<lparr>cur_inst_len := cur_inst_len s + 1\<rparr>
      in if has_bit value numbit then jump_to (read_memory_p (pc s + 1) s) s else s)"

definition dsp_jsr :: "dsp_core_t \<Rightarrow> dsp_core_t" where
  "dsp_jsr s =
     (let (newpc, s) =
            (if ibits 12 4 s = 0 then (ibits 0 12 s, s)
             else (let (_, newpc, s) = dsp_calc_ea (ibits 8 6 s) s in (newpc, s)));
          s = (if interrupt_state s \<noteq> DSP_INTERRUPT_LONG then dsp_stack_push (next_pc s) (SR s) s
               else s\<lparr>interrupt_state := DSP_INTERRUPT_NONE\<rparr>)
      in jump_to newpc s)"

definition dsp_jsset :: "dsp_core_t \<Rightarrow> dsp_core_t" where
  "dsp_jsset s =
     (let numbit = unat (ibits 0 5 s);
          (_, value, s) = bit_operand s;
          s = s\<lparr>cur_inst_len := cur_inst_len s + 1\<rparr>
      in if has_bit value numbit then call_ext s else s)"

definition dsp_lua :: "dsp_core_t \<Rightarrow> dsp_core_t" where
  "dsp_lua s =
     (let srcreg = unat (ibits 8 3 s);
          srcsave = registers s (DSP_REG_R0 + srcreg);
          (_, _, s) = dsp_calc_ea (ibits 8 5 s) s;
          srcnew = registers s (DSP_REG_R0 + srcreg);
          s = setreg (DSP_REG_R0 + srcreg) srcsave s;
          dstreg = unat (ibits 0 3 s)
      in if has_bit (cur_inst s) 3 then setreg (DSP_REG_N0 + dstreg) srcnew s
         else setreg (DSP_REG_R0 + dstreg) srcnew s)"

text \<open>\<open>registers[r] &= BITMASK(registers_mask[r])\<close> after a control register was loaded.\<close>

definition mask_reg :: "nat \<Rightarrow> dsp_core_t \<Rightarrow> dsp_core_t" where
  "mask_reg r s = setreg r (registers s r AND BITMASK (registers_mask ! r)) s"

text \<open>A 24-bit value moved to an accumulator, sign-extended.\<close>

definition load_accu :: "nat \<Rightarrow> u32 \<Rightarrow> dsp_core_t \<Rightarrow> dsp_core_t" where
  "load_accu numreg value s =
     (let s = setreg (DSP_REG_A2 + numreg mod 2) (sign_ext value) s;
          s = setreg (DSP_REG_A1 + numreg mod 2) (value AND BITMASK 24) s
      in setreg (DSP_REG_A0 + numreg mod 2) 0 s)"

definition dsp_movec_reg :: "dsp_core_t \<Rightarrow> dsp_core_t" where
  "dsp_movec_reg s =
     (let numreg2 = unat (ibits 8 6 s);
          numreg1 = unat (ibits 0 6 s)
      in if has_bit (cur_inst s) 15 then
           (let s = (if is_accu numreg2 then snd (dsp_pm_read_accu24 numreg2 (setreg numreg1) s)
                     else setreg numreg1 (registers s numreg2) s)
            in mask_reg numreg1 s)
         else if is_accu numreg2 then load_accu numreg2 (registers s numreg1) s
         else mask_reg numreg2 (setreg numreg2 (registers s numreg1) s))"

definition dsp_movec_aa :: "dsp_core_t \<Rightarrow> dsp_core_t" where
  "dsp_movec_aa s =
     (let numreg = unat (ibits 0 6 s);
          addr = ibits 8 6 s;
          memspace = unat (drop_bit 6 (cur_inst s) AND 1)
      in if has_bit (cur_inst s) 15 then
           (let (value, s) = read_memory memspace (ucast addr) s
            in mask_reg numreg (setreg numreg value s))
         else write_memory memspace (ucast addr) (registers s numreg) s)"

definition dsp_movec_imm :: "dsp_core_t \<Rightarrow> dsp_core_t" where
  "dsp_movec_imm s = setreg (unat (ibits 0 6 s)) (ibits 8 8 s) s"

definition dsp_movec_ea :: "dsp_core_t \<Rightarrow> dsp_core_t" where
  "dsp_movec_ea s =
     (let numreg = unat (ibits 0 6 s);
          ea_mode = ibits 8 6 s;
          memspace = unat (drop_bit 6 (cur_inst s) AND 1);
          (retour, addr, s) = dsp_calc_ea ea_mode s
      in if has_bit (cur_inst s) 15 then
           (let (value, s) = (if retour then (addr, s) else read_memory memspace (ucast addr) s)
            in mask_reg numreg (setreg numreg value s))
         else write_memory memspace (ucast addr) (registers s numreg) s)"

definition opcodes_movec :: "(dsp_core_t \<Rightarrow> dsp_core_t) list" where
  "opcodes_movec =
    [dsp_undefined, dsp_undefined, dsp_undefined, dsp_movec_reg,
     dsp_movec_aa, dsp_movec_ea, dsp_movec_imm, dsp_movec_imm]"

definition dsp_movec :: "dsp_core_t \<Rightarrow> dsp_core_t" where
  "dsp_movec s =
     (let value = (drop_bit 14 (cur_inst s) AND 5) OR (drop_bit 6 (cur_inst s) AND push_bit 1 1)
      in (opcodes_movec ! unat value) s)"

text \<open>A register as the source of a move: an accumulator is read through the limiter.\<close>

definition move_source :: "nat \<Rightarrow> dsp_core_t \<Rightarrow> u32 \<times> dsp_core_t" where
  "move_source numreg s =
     (if is_accu numreg
      then (snd (accu24_limit numreg s), snd (dsp_pm_read_accu24 numreg (\<lambda>_ s. s) s))
      else (registers s numreg, s))"

text \<open>A register as the destination of a 24-bit value.\<close>

definition move_dest :: "nat \<Rightarrow> u32 \<Rightarrow> dsp_core_t \<Rightarrow> dsp_core_t" where
  "move_dest numreg value s =
     (if is_accu numreg then load_accu numreg value s else mask_reg numreg (setreg numreg value s))"

definition dsp_movem :: "dsp_core_t \<Rightarrow> dsp_core_t" where
  "dsp_movem s =
     (let numreg = unat (ibits 0 6 s);
          (addr, s) =
            (if has_bit (cur_inst s) 14
             then (let (_, addr, s) = dsp_calc_ea (ibits 8 6 s) s in (addr, s))
             else (ibits 8 6 s, s))
      in if has_bit (cur_inst s) 15 then move_dest numreg (read_memory_p (ucast addr) s) s
         else (let (value, s) = move_source numreg s in write_memory DSP_SPACE_P (ucast addr) value s))"

definition dsp_movep_0 :: "dsp_core_t \<Rightarrow> dsp_core_t" where
  "dsp_movep_0 s =
     (let addr = 0xffc0 + ibits 0 6 s;
          memspace = unat (drop_bit 16 (cur_inst s) AND 1);
          numreg = unat (ibits 8 6 s)
      in if has_bit (cur_inst s) 15
         then (let (value, s) = move_source numreg s in write_memory memspace (ucast addr) value s)
         else (let (value, s) = read_memory memspace (ucast addr) s in move_dest numreg value s))"

definition dsp_movep_1 :: "dsp_core_t \<Rightarrow> dsp_core_t" where
  "dsp_movep_1 s =
     (let xyaddr = 0xffc0 + ibits 0 6 s;
          (_, paddr, s) = dsp_calc_ea (ibits 8 6 s) s;
          memspace = unat (drop_bit 16 (cur_inst s) AND 1)
      in if has_bit (cur_inst s) 15
         then write_memory memspace (ucast xyaddr) (read_memory_p (ucast paddr) s) s
         else (let (value, s) = read_memory memspace (ucast xyaddr) s
               in write_memory DSP_SPACE_P (ucast paddr) value s))"

definition dsp_movep_2 :: "dsp_core_t \<Rightarrow> dsp_core_t" where
  "dsp_movep_2 s =
     (let peraddr = 0xffc0 + ibits 0 6 s;
          perspace = unat (drop_bit 16 (cur_inst s) AND 1);
          ea_mode = ibits 8 6 s;
          easpace = unat (drop_bit 6 (cur_inst s) AND 1);
          (retour, addr, s) = dsp_calc_ea ea_mode s
      in if has_bit (cur_inst s) 15 then
           (let (value, s) = (if retour then (addr, s) else read_memory easpace (ucast addr) s)
            in write_memory perspace (ucast peraddr) value s)
         else
           (let (value, s) = read_memory perspace (ucast peraddr) s
            in write_memory easpace (ucast addr) value s))"

definition opcodes_movep :: "(dsp_core_t \<Rightarrow> dsp_core_t) list" where
  "opcodes_movep = [dsp_movep_0, dsp_movep_1, dsp_movep_2, dsp_movep_2]"

definition dsp_movep :: "dsp_core_t \<Rightarrow> dsp_core_t" where
  "dsp_movep s = (opcodes_movep ! unat (ibits 6 2 s)) s"

definition dsp_norm :: "dsp_core_t \<Rightarrow> dsp_core_t" where
  "dsp_norm s =
     (let cursr = SR s;
          cur_e = drop_bit DSP_SR_E cursr AND 1;
          cur_euz = NOT cur_e;
          cur_euz = cur_euz AND (drop_bit DSP_SR_U cursr AND 1);
          cur_euz = cur_euz AND NOT (drop_bit DSP_SR_Z cursr AND 1);
          cur_euz = cur_euz AND 1;
          numreg = alu_dest s;
          dest = accu numreg s;
          rreg = DSP_REG_R0 + unat (ibits 8 3 s);
          (newsr, dest, s) =
            (if cur_euz \<noteq> 0 then
               (let (newsr, dest) = dsp_asl56 dest
                in (newsr, dest, setreg rreg ((registers s rreg - 1) AND BITMASK 16) s))
             else if cur_e \<noteq> 0 then
               (let (newsr, dest) = dsp_asr56 dest
                in (newsr, dest, setreg rreg ((registers s rreg + 1) AND BITMASK 16) s))
             else (0, dest, s))
      in alu_finish numreg dest newsr s)"

definition dsp_ori :: "dsp_core_t \<Rightarrow> dsp_core_t" where
  "dsp_ori s =
     (let value = ibits 8 8 s;
          regnum = ibits 0 2 s
      in if regnum = 0 then sr_or (push_bit 8 value) s
         else if regnum = 1 then sr_or value s
         else if regnum = 2 then setreg DSP_REG_OMR (registers s DSP_REG_OMR OR value) s
         else s)"

definition dsp_rep_aa :: "dsp_core_t \<Rightarrow> dsp_core_t" where
  "dsp_rep_aa s =
     (let (value, s) = read_memory (unat (drop_bit 6 (cur_inst s) AND 1)) (ucast (ibits 8 6 s)) s
      in set_lc value s)"

definition dsp_rep_imm :: "dsp_core_t \<Rightarrow> dsp_core_t" where
  "dsp_rep_imm s = set_lc (ibits 8 8 s + push_bit 8 (ibits 0 4 s)) s"

definition dsp_rep_ea :: "dsp_core_t \<Rightarrow> dsp_core_t" where
  "dsp_rep_ea s =
     (let (_, value, s) = dsp_calc_ea (ibits 8 6 s) s;
          (value, s) = read_memory (unat (drop_bit 6 (cur_inst s) AND 1)) (ucast value) s
      in set_lc value s)"

definition dsp_rep_reg :: "dsp_core_t \<Rightarrow> dsp_core_t" where
  "dsp_rep_reg s =
     (let numreg = unat (ibits 8 6 s);
          s = (if is_accu numreg then snd (dsp_pm_read_accu24 numreg set_lc s)
               else set_lc (registers s numreg) s)
      in set_lc (registers s DSP_REG_LC AND BITMASK 16) s)"

definition opcodes_rep :: "(dsp_core_t \<Rightarrow> dsp_core_t) list" where
  "opcodes_rep =
    [dsp_rep_aa, dsp_rep_imm, dsp_rep_ea, dsp_rep_imm, dsp_undefined, dsp_rep_imm, dsp_rep_reg, dsp_rep_imm]"

definition dsp_rep :: "dsp_core_t \<Rightarrow> dsp_core_t" where
  "dsp_rep s =
     (let s = setreg DSP_REG_LCSAVE (registers s DSP_REG_LC) s;
          s = (opcodes_rep ! unat (loop_operand s)) s
      in s\<lparr>pc_on_rep := 1, loop_rep := 1\<rparr>)"

definition dsp_reset :: "dsp_core_t \<Rightarrow> dsp_core_t" where
  "dsp_reset s = s"

definition dsp_rti :: "dsp_core_t \<Rightarrow> dsp_core_t" where
  "dsp_rti s =
     (let (r, s) = dsp_stack_pop s;
          (newpc, newsr) = (case r of Some v \<Rightarrow> v | None \<Rightarrow> (0, 0));
          s = s\<lparr>pc := ucast newpc\<rparr>;
          s = setreg DSP_REG_SR newsr s
      in s\<lparr>cur_inst_len := 0\<rparr>)"

definition dsp_rts :: "dsp_core_t \<Rightarrow> dsp_core_t" where
  "dsp_rts s =
     (let (r, s) = dsp_stack_pop s;
          newpc = (case r of Some (newpc, _) \<Rightarrow> newpc | None \<Rightarrow> 0)
      in jump_to newpc s)"

definition dsp_stop :: "dsp_core_t \<Rightarrow> dsp_core_t" where
  "dsp_stop s = pauseThread s"

definition dsp_swi :: "dsp_core_t \<Rightarrow> dsp_core_t" where
  "dsp_swi s = s\<lparr>swi_inter := 1\<rparr>"

definition registers_tcc :: "(nat \<times> nat) list" where
  "registers_tcc =
    [(DSP_REG_B, DSP_REG_A), (DSP_REG_A, DSP_REG_B), (DSP_REG_NULL, DSP_REG_NULL), (DSP_REG_NULL, DSP_REG_NULL),
     (DSP_REG_NULL, DSP_REG_NULL), (DSP_REG_NULL, DSP_REG_NULL), (DSP_REG_NULL, DSP_REG_NULL), (DSP_REG_NULL, DSP_REG_NULL),
     (DSP_REG_X0, DSP_REG_A), (DSP_REG_X0, DSP_REG_B), (DSP_REG_Y0, DSP_REG_A), (DSP_REG_Y0, DSP_REG_B),
     (DSP_REG_X1, DSP_REG_A), (DSP_REG_X1, DSP_REG_B), (DSP_REG_Y1, DSP_REG_A), (DSP_REG_Y1, DSP_REG_B)]"

definition dsp_tcc :: "dsp_core_t \<Rightarrow> dsp_core_t" where
  "dsp_tcc s =
     (if dsp_calc_cc (ibits 12 4 s) s then
        (let (regsrc1, regdest1) = registers_tcc ! unat (ibits 3 4 s);
             (v0, v1, v2) = (if is_accu regsrc1 then accu (regsrc1 mod 2) s else ext24 regsrc1 s);
             s = set_src 0 0 v0 s;
             s = set_src 0 1 v1 s;
             s = set_src 0 2 v2 s;
             s = set_accu (regdest1 mod 2) (v0, v1, v2) s
         in if has_bit (cur_inst s) 16 then
              (let regsrc2 = DSP_REG_R0 + unat (ibits 8 3 s);
                   regdest2 = DSP_REG_R0 + unat (ibits 0 3 s)
               in setreg regdest2 (registers s regsrc2) s)
            else s)
      else s)"

definition dsp_wait :: "dsp_core_t \<Rightarrow> dsp_core_t" where
  "dsp_wait s = pauseThread s"

section \<open>Division\<close>

lemma asl56_sval:
  assumes "wf56 d" "\<not> out_of_range56 (2 * sval56 d)"
  shows "sval56 (snd (dsp_asl56 d)) = 2 * sval56 d"
  using asl56_val [OF assms(1)] assms(2) val56_lt [OF assms(1)] val56_lt [OF asl56_val(1) [OF assms(1)]]
  by (cases "2 ^ 55 \<le> val56 d") (auto simp: sval56_def sgn_of_def out_of_range56_def split: if_splits)

lemma sval56_even: "wf56 (d0, d1, d2) \<Longrightarrow> even (sval56 (d0, d1, d2)) \<longleftrightarrow> \<not> bit d2 0"
proof -
  have "even (sval56 (d0, d1, d2)) \<longleftrightarrow> even (val56 (d0, d1, d2))" by (simp add: sval56_def sgn_of_def del: val56.simps)
  then show ?thesis by (simp add: bit_unat bit_0)
qed

lemma sval56_or_flag:
  assumes "wf56 (d0, d1, d2)" "even (sval56 (d0, d1, d2))"
  shows "wf56 (d0, d1, d2 OR of_flag c)" "sval56 (d0, d1, d2 OR of_flag c) = sval56 (d0, d1, d2) + of_bool c"
proof -
  have b: "\<not> bit d2 0" using sval56_even assms by blast
  have e: "even (unat d2)" using b by (simp add: bit_unat bit_0)
  have l: "unat d2 < 2 ^ 24" using assms(1) by simp
  moreover have "odd (2 ^ 24 - 1 :: nat)" by simp
  then have "unat d2 \<noteq> 2 ^ 24 - 1" using e by metis
  ultimately have l2: "unat d2 + of_bool c < 2 ^ 24" by (cases c) auto
  have u: "unat (d2 OR of_flag c) = unat d2 + of_bool c"
    unfolding or_flag_add [OF b] using l2 by (simp add: unat_plus_small)
  have v: "val56 (d0, d1, d2 OR of_flag c) = val56 (d0, d1, d2) + of_bool c" by (simp add: u)
  show "wf56 (d0, d1, d2 OR of_flag c)" using assms(1) u l2 by simp
  have "even (val56 (d0, d1, d2))" using e by simp
  moreover have "odd (2 ^ 55 - 1 :: nat)" by simp
  ultimately have "val56 (d0, d1, d2) \<noteq> 2 ^ 55 - 1" by metis
  then show "sval56 (d0, d1, d2 OR of_flag c) = sval56 (d0, d1, d2) + of_bool c"
    unfolding sval56_def v by (cases c) (auto simp: sgn_of_def simp del: val56.simps)
qed

definition div_operand :: "dsp_core_t \<Rightarrow> acc" where
  "div_operand s = ext24 (div_source s) s"

lemma div_frame:
  assumes "k \<noteq> DSP_REG_SR" "k \<notin> {DSP_REG_A2 + alu_dest s, DSP_REG_A1 + alu_dest s, DSP_REG_A0 + alu_dest s}"
  shows "registers (dsp_div s) k = registers s k"
  using assms by (simp add: dsp_div_def Let_def split_beta sr_frame set_accu_def)

lemma div_step:
  assumes w: "regs_wf s" and b: "unat (registers s (div_source s)) < 2 ^ 23"
    and D: "D = sval56 (accu (alu_dest s) s)" "- (2 ^ 54) \<le> D" "D < 2 ^ 54"
    and S: "S = int (unat (registers s (div_source s))) * 2 ^ 24"
  defines "D' \<equiv> (if D < 0 then 2 * D + S else 2 * D - S) + of_bool (bit (SR s) DSP_SR_C)"
  shows "sval56 (accu (alu_dest s) (dsp_div s)) = D'" "bit (SR (dsp_div s)) DSP_SR_C \<longleftrightarrow> 0 \<le> D'"
    "cur_inst (dsp_div s) = cur_inst s" "wf56 (accu (alu_dest s) (dsp_div s))"
proof -
  define n where "n = alu_dest s"
  have n: "n < 2" by (simp add: n_def alu_dest_less)
  define x where "x = registers s (div_source s)"
  obtain d0 d1 d2 where d: "accu n s = (d0, d1, d2)" by (metis prod_cases3)
  have wd: "wf56 (d0, d1, d2)" using accu_wf [OF w n] by (simp only: d)
  have nx: "\<not> bit x 23" using bit_unat_top [of x 23] b by (simp add: x_def)
  have ws: "wf56 (0, x, 0)" using b by (simp add: x_def)
  have sv: "sval56 (0, x, 0) = S" using b by (simp add: sval56_def sgn_of_def S x_def)
  have neg: "bit d0 7 \<longleftrightarrow> D < 0"
    using sign56 [OF wd] val56_lt [OF wd] by (auto simp: D(1) n_def [symmetric] d sval56_def sgn_of_def simp del: val56.simps)
  have "int (unat x) < 2 ^ 23" using b unfolding x_def [symmetric] by (metis of_nat_less_iff of_nat_numeral of_nat_power)
  then have Sr: "0 \<le> S" "S < 2 ^ 47" unfolding S x_def [symmetric] by simp_all
  have a: "sval56 (snd (dsp_asl56 (d0, d1, d2))) = 2 * D" "wf56 (snd (dsp_asl56 (d0, d1, d2)))"
    using asl56_sval [OF wd] asl56_val(1) [OF wd] D by (simp_all add: out_of_range56_def n_def [symmetric] d)
  define r where "r = (if bit d0 7 then snd (dsp_add56 (0, x, 0) (snd (dsp_asl56 (d0, d1, d2))))
    else snd (dsp_sub56 (0, x, 0) (snd (dsp_asl56 (d0, d1, d2)))))"
  have r: "wf56 r" "sval56 r = (if D < 0 then 2 * D + S else 2 * D - S)"
    using add56_val(1) [OF ws a(2)] sub56_val(1) [OF ws a(2)] add56_sval [OF ws a(2)] sub56_sval [OF ws a(2)] D Sr
    by (auto simp: r_def neg a(1) sv out_of_range56_def)
  obtain r0 r1 r2 where rr: "r = (r0, r1, r2)" by (metis prod_cases3)
  have "even S" by (simp add: S)
  then have ev: "even (sval56 (r0, r1, r2))" using r(2) by (simp add: rr)
  note f = sval56_or_flag [OF r(1) [unfolded rr] ev, of "bit (SR s) DSP_SR_C"]
  define e where "e = (r0, r1, r2 OR of_flag (bit (SR s) DSP_SR_C))"
  define u where "u = sr_or (push_bit DSP_SR_C (1 - (drop_bit 7 r0 AND 1))) (sr_clear (push_bit DSP_SR_C 1 OR push_bit DSP_SR_V 1) (set_accu n e s))"
  obtain q where q: "dsp_div s = sr_or (ucast (q AND push_bit DSP_SR_V 1 :: u16)) (sr_or (ucast (q AND push_bit DSP_SR_L 1 :: u16)) u)"
  proof
    have c: "(drop_bit 7 d0 AND 1) XOR (drop_bit 23 x AND 1) \<noteq> 0 \<longleftrightarrow> bit d0 7"
      using nx by (simp add: and_one_flag flag_xor)
    show "dsp_div s = sr_or (ucast (fst (dsp_asl56 (d0, d1, d2)) AND push_bit DSP_SR_V 1 :: u16))
      (sr_or (ucast (fst (dsp_asl56 (d0, d1, d2)) AND push_bit DSP_SR_L 1 :: u16)) u)"
    proof (cases "bit d0 7")
      case True
      then have "snd (dsp_add56 (0, x, 0) (snd (dsp_asl56 (d0, d1, d2)))) = (r0, r1, r2)" using rr by (simp add: r_def)
      then show ?thesis unfolding dsp_div_def Let_def n_def [symmetric] x_def [symmetric] d fst_conv snd_conv
        using True nx c by (simp add: split_beta u_def e_def and_one_flag and_one_flag [of 0 "SR s", simplified])
    next
      case False
      then have "snd (dsp_sub56 (0, x, 0) (snd (dsp_asl56 (d0, d1, d2)))) = (r0, r1, r2)" using rr by (simp add: r_def)
      then show ?thesis unfolding dsp_div_def Let_def n_def [symmetric] x_def [symmetric] d fst_conv snd_conv
        using False nx c by (simp add: split_beta u_def e_def and_one_flag and_one_flag [of 0 "SR s", simplified])
    qed
  qed
  have ae: "accu n (dsp_div s) = e"
    using accu_frame [OF n, of "dsp_div s" "set_accu n e s"] by (simp add: q u_def sr_frame accu_set_accu [OF n])
  have fe: "wf56 e" "sval56 e = D'" using f r(2) by (simp_all add: e_def D'_def rr)
  show "sval56 (accu (alu_dest s) (dsp_div s)) = D'" "wf56 (accu (alu_dest s) (dsp_div s))"
    using ae fe by (simp_all add: n_def)
  show "cur_inst (dsp_div s) = cur_inst s" by (simp add: q u_def sr_frame set_accu_def split_beta)
  have "bit r0 7 \<longleftrightarrow> D' < 0"
    using sign56 [OF fe(1) [unfolded e_def]] val56_lt [OF fe(1)] fe(2)
    by (auto simp: e_def sval56_def sgn_of_def simp del: val56.simps)
  moreover have "1 - (drop_bit 7 r0 AND 1) = of_flag (\<not> bit r0 7)" by (simp add: and_one_flag of_flag_def)
  ultimately show "bit (SR (dsp_div s)) DSP_SR_C \<longleftrightarrow> 0 \<le> D'"
    by (simp add: q u_def sr_clear_def bit_or_iff bit_and_iff bit_unsigned_iff BITMASK_def not_less)
qed

lemma div_wf:
  assumes "regs_wf s" "wf56 (accu (alu_dest s) (dsp_div s))"
  shows "regs_wf (dsp_div s)"
proof -
  have n: "alu_dest s < 2" by (rule alu_dest_less)
  have "unat (registers (dsp_div s) r) < 2 ^ reg_bits r" if "4 \<le> r" "r \<le> 13" for r
  proof (cases "r \<in> {DSP_REG_A2 + alu_dest s, DSP_REG_A1 + alu_dest s, DSP_REG_A0 + alu_dest s}")
    case True
    then show ?thesis using assms(2) n by (auto simp: accu_def reg_bits_def)
  next
    case False
    then show ?thesis using div_frame [of r s] regs_wfD [OF assms(1) that] that by simp
  qed
  then show ?thesis by (simp add: regs_wf_def)
qed

text \<open>
  The state after \<open>n\<close> steps, from the dividend \<open>D\<close> and the divisor \<open>x\<close>: the accumulator is the
  partial remainder \<open>T\<close>, in multiples of \<open>2 ^ n\<close>, plus the quotient bits \<open>Q\<close> found so far.
\<close>

definition div_inv :: "nat \<Rightarrow> int \<Rightarrow> int \<Rightarrow> int \<Rightarrow> int \<Rightarrow> dsp_core_t \<Rightarrow> bool" where
  "div_inv n D x T Q s \<longleftrightarrow> sval56 (accu (alu_dest s) s) = T + Q \<and> 0 \<le> Q \<and> Q < 2 ^ n
     \<and> T = 2 ^ n * D - x * 2 ^ 24 * (2 * Q + 1) \<and> - (x * 2 ^ 24) \<le> T \<and> T < x * 2 ^ 24
     \<and> (bit (SR s) DSP_SR_C \<longleftrightarrow> 0 \<le> T)
     \<and> regs_wf s \<and> int (unat (registers s (div_source s))) = x \<and> x < 2 ^ 23"

lemma div_source_mem: "div_source s \<in> {4, 5, 6, 7}"
  by (simp add: div_source_def Let_def)

lemma div_keeps:
  assumes "regs_wf s" "wf56 (accu (alu_dest s) (dsp_div s))" "cur_inst (dsp_div s) = cur_inst s"
  shows "alu_dest (dsp_div s) = alu_dest s" "regs_wf (dsp_div s)"
    "registers (dsp_div s) (div_source (dsp_div s)) = registers s (div_source s)"
proof -
  have i: "div_source (dsp_div s) = div_source s" by (simp add: div_source_def ibits_def assms(3))
  show "alu_dest (dsp_div s) = alu_dest s" by (simp add: alu_dest_def assms(3))
  show "regs_wf (dsp_div s)" by (rule div_wf [OF assms(1,2)])
  show "registers (dsp_div s) (div_source (dsp_div s)) = registers s (div_source s)"
    unfolding i using div_source_mem [of s] by (intro div_frame) auto
qed

lemma div_inv_first:
  assumes "regs_wf s" "\<not> bit (SR s) DSP_SR_C" "x = int (unat (registers s (div_source s)))" "x < 2 ^ 23"
    and "D = sval56 (accu (alu_dest s) s)" "0 \<le> D" "D < x * 2 ^ 24"
  shows "div_inv 1 D x (2 * D - x * 2 ^ 24) 0 (dsp_div s)"
proof -
  have b: "unat (registers s (div_source s)) < 2 ^ 23" using assms(3,4) by (metis of_nat_less_iff of_nat_numeral of_nat_power)
  have "D < 2 ^ 54" using assms(4,7) by simp
  then have d: "- (2 ^ 54) \<le> D" "D < 2 ^ 54" using assms(6) by simp_all
  note st = div_step [OF assms(1) b assms(5) d refl, folded assms(3)]
  note k = div_keeps [OF assms(1) st(4,3)]
  show ?thesis using st(1,2) k assms by (simp add: div_inv_def)
qed

lemma quotient_sign:
  fixes Q :: int
  assumes "n \<le> 24" "0 \<le> Q" "Q < 2 ^ n"
  shows "2 ^ n * D - x * 2 ^ 24 * k + Q < 0 \<longleftrightarrow> 2 ^ n * D - x * 2 ^ 24 * k < 0"
proof -
  have "(2::int) ^ 24 = 2 ^ n * 2 ^ (24 - n)" using assms(1) by (simp flip: power_add)
  then have "2 ^ n * D - x * 2 ^ 24 * k = 2 ^ n * (D - x * 2 ^ (24 - n) * k)" by (simp only: algebra_simps)
  then obtain m where m: "2 ^ n * D - x * 2 ^ 24 * k = 2 ^ n * m" ..
  have "2 ^ n * m + Q < 0" if "2 ^ n * m < 0"
  proof -
    have "m \<le> -1" using that by (simp add: mult_less_0_iff)
    then have "2 ^ n * m \<le> 2 ^ n * (- 1)" by (intro mult_left_mono) auto
    then show ?thesis using assms(3) by simp
  qed
  then show ?thesis unfolding m using assms(2) by auto
qed

lemma div_inv_next:
  assumes i: "div_inv n D x T Q s" and n: "n < 24"
  shows "\<exists>T' Q'. div_inv (Suc n) D x T' Q' (dsp_div s)"
proof -
  have h: "sval56 (accu (alu_dest s) s) = T + Q" "0 \<le> Q" "Q < 2 ^ n" "T = 2 ^ n * D - x * 2 ^ 24 * (2 * Q + 1)"
    "- (x * 2 ^ 24) \<le> T" "T < x * 2 ^ 24" "bit (SR s) DSP_SR_C \<longleftrightarrow> 0 \<le> T" "regs_wf s"
    "int (unat (registers s (div_source s))) = x" "x < 2 ^ 23"
    using i by (simp_all add: div_inv_def)
  have b: "unat (registers s (div_source s)) < 2 ^ 23" using h(9,10) by (metis of_nat_less_iff of_nat_numeral of_nat_power)
  have neg: "T + Q < 0 \<longleftrightarrow> T < 0" using n h(2,3) unfolding h(4) by (intro quotient_sign) auto
  have p: "(2::int) ^ n \<le> 2 ^ 24" using n by (intro power_increasing) auto
  have d: "- (2 ^ 54) \<le> T + Q" "T + Q < 2 ^ 54" using h(2,3,5,6,10) p by simp_all
  note st = div_step [OF h(8) b h(1) [symmetric] d refl, unfolded h(9)]
  note k = div_keeps [OF h(8) st(4,3)]
  define T' where "T' = (if T < 0 then 2 * T + x * 2 ^ 24 else 2 * T - x * 2 ^ 24)"
  define Q' where "Q' = 2 * Q + of_bool (0 \<le> T)"
  have tq: "(if T + Q < 0 then 2 * (T + Q) + x * 2 ^ 24 else 2 * (T + Q) - x * 2 ^ 24) + of_bool (bit (SR s) DSP_SR_C) = T' + Q'"
    by (simp add: neg h(7) T'_def Q'_def)
  have "sval56 (accu (alu_dest (dsp_div s)) (dsp_div s)) = T' + Q'"
    using st(1) by (simp only: k tq)
  moreover have e: "T' = 2 ^ Suc n * D - x * 2 ^ 24 * (2 * Q' + 1)"
    unfolding T'_def Q'_def h(4) by (simp add: algebra_simps)
  moreover have "- (x * 2 ^ 24) \<le> T'" "T' < x * 2 ^ 24" using h(5,6) by (auto simp: T'_def)
  moreover have q: "0 \<le> Q'" "Q' < 2 ^ Suc n" using h(2,3) by (auto simp: Q'_def)
  moreover have "bit (SR (dsp_div s)) DSP_SR_C \<longleftrightarrow> 0 \<le> T'"
  proof -
    have "T' + Q' < 0 \<longleftrightarrow> T' < 0" using n q unfolding e by (intro quotient_sign) auto
    then show ?thesis using st(2) unfolding tq by linarith
  qed
  ultimately have "div_inv (Suc n) D x T' Q' (dsp_div s)" using k h by (simp add: div_inv_def)
  then show ?thesis by blast
qed

lemma div_inv_iter:
  assumes "div_inv 1 D x T Q (dsp_div s)" "n < 24"
  shows "\<exists>T Q. div_inv (Suc n) D x T Q ((dsp_div ^^ Suc n) s)"
  using assms(2)
proof (induction n)
  case 0
  show ?case using assms(1) by auto
next
  case (Suc n)
  then obtain T Q where "div_inv (Suc n) D x T Q ((dsp_div ^^ Suc n) s)" by auto
  from div_inv_next [OF this Suc.prems] show ?case by simp
qed

lemma div_dest: "alu_dest ((dsp_div ^^ n) s) = alu_dest s"
proof (induction n)
  case (Suc n)
  have "cur_inst (dsp_div t) = cur_inst t" for t
    by (simp add: dsp_div_def Let_def split_beta sr_frame set_accu_def)
  then show ?case using Suc by (simp add: alu_dest_def)
qed simp

text \<open>
  C24. Division: 24 DIV instructions on a clear carry, with a positive 24-bit divisor x and an accumulator
  D between 0 and x shifted left by 24, leave the quotient of D by 2x in the low part of the accumulator
  and, above it, the remainder less x.
\<close>
theorem div24_correct:
  assumes "regs_wf s" and "\<not> bit (SR s) DSP_SR_C"
    and "x = int (unat (registers s (div_source s)))" and "x < 2 ^ 23"
    and "D = sval56 (accu (alu_dest s) s)" and "0 \<le> D" and "D < x * 2 ^ 24"
  shows "sval56 (accu (alu_dest s) ((dsp_div ^^ 24) s)) = (D mod (2 * x) - x) * 2 ^ 24 + D div (2 * x)"
proof -
  obtain T Q where i: "div_inv 24 D x T Q ((dsp_div ^^ 24) s)"
    using div_inv_iter [OF div_inv_first [OF assms], of 23] by auto
  define t where "t = D - x * (2 * Q + 1)"
  have T: "T = 2 ^ 24 * t" using i unfolding div_inv_def t_def by (simp add: algebra_simps)
  have r: "- x \<le> t" "t < x" using i unfolding div_inv_def T by simp_all
  have D: "D = (x + t) + Q * (2 * x)" by (simp add: t_def algebra_simps)
  have "D mod (2 * x) = x + t" "D div (2 * x) = Q"
    unfolding D using r by (simp_all add: mod_pos_pos_trivial div_pos_pos_trivial)
  then show ?thesis using i by (simp add: div_inv_def div_dest T)
qed

theorem div24_correct_witness:
  "sval56 (accu 0 ((dsp_div ^^ 24) (setreg DSP_REG_A0 17 (setreg DSP_REG_X0 5 cleared_core)))) = (7 - 5) * 2 ^ 24 + 1"
proof -
  have "alu_dest (setreg DSP_REG_A0 17 (setreg DSP_REG_X0 5 cleared_core)) = 0"
    "div_source (setreg DSP_REG_A0 17 (setreg DSP_REG_X0 5 cleared_core)) = DSP_REG_X0"
    by (simp_all add: alu_dest_def div_source_def ibits_def)
  moreover have "regs_wf (setreg DSP_REG_A0 17 (setreg DSP_REG_X0 5 cleared_core))"
    by (auto simp: regs_wf_def reg_bits_def)
  ultimately show ?thesis
    using div24_correct [of "setreg DSP_REG_A0 17 (setreg DSP_REG_X0 5 cleared_core)" 5 17]
    by (simp add: accu_def sval56_def sgn_of_def)
qed

end
