(* ===== verification/Dsp_Exec.thy ===== *)
theory Dsp_Exec
  imports Dsp_Control
begin

text \<open>
  Instruction dispatch, program counter update, interrupts and the execution loops
  (\<open>src/src/dsp_cpu.c\<close>, sections ``Emulator kernel'', ``Update the PC'', ``Interrupts'' and
  ``Highbyte opcodes dispatchers''; \<open>DSP::exec_insts\<close> of \<open>src/src/dsp.cpp\<close>). The opcode
  tables are lists of instruction functions.
\<close>

definition opcode8h_0 :: "dsp_core_t \<Rightarrow> dsp_core_t" where
  "opcode8h_0 s =
     (let ci = cur_inst s
      in if ci \<le> 0x00008c then
           (if ci = 0x000000 then dsp_nop s
            else if ci = 0x000004 then dsp_rti s
            else if ci = 0x000005 then dsp_illegal s
            else if ci = 0x000006 then dsp_swi s
            else if ci = 0x00000c then dsp_rts s
            else if ci = 0x000084 then dsp_reset s
            else if ci = 0x000086 then dsp_wait s
            else if ci = 0x000087 then dsp_stop s
            else if ci = 0x00008c then dsp_enddo s
            else s)
         else if ci AND 0xf8 = 0x0000b8 then dsp_andi s
         else if ci AND 0xf8 = 0x0000f8 then dsp_ori s
         else s)"

definition opcode8h_1 :: "dsp_core_t \<Rightarrow> dsp_core_t" where
  "opcode8h_1 s =
     (if cur_inst s AND 0xfff000 = 0x018000 then dsp_div s
      else if cur_inst s AND 0xfff000 = 0x01d000 then dsp_norm s
      else s)"

definition opcode8h_4 :: "dsp_core_t \<Rightarrow> dsp_core_t" where
  "opcode8h_4 s =
     (let v = ibits 5 3 s
      in if v = 0 then dsp_lua s else if v = 5 then dsp_movec s else s)"

definition opcode8h_6 :: "dsp_core_t \<Rightarrow> dsp_core_t" where
  "opcode8h_6 s = (if has_bit (cur_inst s) 5 then dsp_rep s else dsp_do s)"

definition opcodes_0809 :: "(dsp_core_t \<Rightarrow> dsp_core_t) list" where
  "opcodes_0809 =
    [dsp_move_pm, dsp_move_pm, dsp_move_pm, dsp_move_pm, dsp_movep, dsp_movep, dsp_movep, dsp_movep,
     dsp_move_pm, dsp_move_pm, dsp_move_pm, dsp_move_pm, dsp_movep, dsp_movep, dsp_movep, dsp_movep]"

definition opcodes_0a :: "(dsp_core_t \<Rightarrow> dsp_core_t) list" where
  "opcodes_0a =
    [dsp_bclr, dsp_bset, dsp_bclr, dsp_bset, dsp_jclr, dsp_jset, dsp_jclr, dsp_jset,
     dsp_bclr, dsp_bset, dsp_bclr, dsp_bset, dsp_jclr, dsp_jset, dsp_jclr, dsp_jset,
     dsp_bclr, dsp_bset, dsp_bclr, dsp_bset, dsp_jclr, dsp_jset, dsp_jclr, dsp_jset,
     dsp_jclr, dsp_jset, dsp_bclr, dsp_bset, dsp_jmp, dsp_jcc, dsp_undefined, dsp_undefined]"

definition opcodes_0b :: "(dsp_core_t \<Rightarrow> dsp_core_t) list" where
  "opcodes_0b =
    [dsp_bchg, dsp_btst, dsp_bchg, dsp_btst, dsp_jsclr, dsp_jsset, dsp_jsclr, dsp_jsset,
     dsp_bchg, dsp_btst, dsp_bchg, dsp_btst, dsp_jsclr, dsp_jsset, dsp_jsclr, dsp_jsset,
     dsp_bchg, dsp_btst, dsp_bchg, dsp_btst, dsp_jsclr, dsp_jsset, dsp_jsclr, dsp_jsset,
     dsp_jsclr, dsp_jsclr, dsp_bchg, dsp_btst, dsp_jsr, dsp_jscc, dsp_undefined, dsp_undefined]"

text \<open>The selector of the \<open>0x0a\<close> and \<open>0x0b\<close> tables: bits 15..14 and 7..5.\<close>

definition bit_selector :: "u32 \<Rightarrow> u32" where
  "bit_selector inst = (drop_bit 11 inst AND push_bit 3 (BITMASK 2)) OR (drop_bit 5 inst AND BITMASK 3)"

definition opcode8h_8 :: "dsp_core_t \<Rightarrow> dsp_core_t" where
  "opcode8h_8 s = (opcodes_0809 ! unat (ibits 12 4 s)) s"

definition opcode8h_a :: "dsp_core_t \<Rightarrow> dsp_core_t" where
  "opcode8h_a s = (opcodes_0a ! unat (bit_selector (cur_inst s))) s"

definition opcode8h_b :: "dsp_core_t \<Rightarrow> dsp_core_t" where
  "opcode8h_b s = (opcodes_0b ! unat (bit_selector (cur_inst s))) s"

definition opcodes8h :: "(dsp_core_t \<Rightarrow> dsp_core_t) list" where
  "opcodes8h =
    [opcode8h_0, opcode8h_1, dsp_tcc, dsp_tcc, opcode8h_4, dsp_movec, opcode8h_6, dsp_movem,
     opcode8h_8, opcode8h_8, opcode8h_a, opcode8h_b, dsp_jmp, dsp_jsr, dsp_jcc, dsp_jscc]"

definition opcodes_alu003f :: "(dsp_core_t \<Rightarrow> dsp_core_t) list" where
  "opcodes_alu003f =
    [dsp_move, dsp_tfr, dsp_addr, dsp_tst, dsp_undefined, dsp_cmp, dsp_subr, dsp_cmpm,
     dsp_undefined, dsp_tfr, dsp_addr, dsp_tst, dsp_undefined, dsp_cmp, dsp_subr, dsp_cmpm,
     dsp_add, dsp_rnd, dsp_addl, dsp_clr, dsp_sub, dsp_undefined, dsp_subl, dsp_not,
     dsp_add, dsp_rnd, dsp_addl, dsp_clr, dsp_sub, dsp_undefined, dsp_subl, dsp_not,
     dsp_add, dsp_adc, dsp_asr, dsp_lsr, dsp_sub, dsp_sbc, dsp_abs, dsp_ror,
     dsp_add, dsp_adc, dsp_asr, dsp_lsr, dsp_sub, dsp_sbc, dsp_abs, dsp_ror,
     dsp_add, dsp_adc, dsp_asl, dsp_lsl, dsp_sub, dsp_sbc, dsp_neg, dsp_rol,
     dsp_add, dsp_adc, dsp_asl, dsp_lsl, dsp_sub, dsp_sbc, dsp_neg, dsp_rol]"

definition opcodes_alu407f :: "(dsp_core_t \<Rightarrow> dsp_core_t) list" where
  "opcodes_alu407f =
    [dsp_add, dsp_tfr, dsp_or, dsp_eor, dsp_sub, dsp_cmp, dsp_and, dsp_cmpm,
     dsp_add, dsp_tfr, dsp_or, dsp_eor, dsp_sub, dsp_cmp, dsp_and, dsp_cmpm]"

definition opcodes_alu80ff :: "(dsp_core_t \<Rightarrow> dsp_core_t) list" where
  "opcodes_alu80ff = [dsp_mpy, dsp_mpyr, dsp_mac, dsp_macr]"

text \<open>Update of the program counter: REP, normal flow and the end of a DO loop.\<close>

definition update_pc_rep :: "dsp_core_t \<Rightarrow> dsp_core_t" where
  "update_pc_rep s =
     (if loop_rep s \<noteq> 0 then
        (if pc_on_rep s = 0 then
           (let s = set_lc (registers s DSP_REG_LC - 1) s;
                s = set_lc (registers s DSP_REG_LC AND BITMASK 16) s
            in if registers s DSP_REG_LC > 0 then s\<lparr>cur_inst_len := 0\<rparr>
               else set_lc (registers s DSP_REG_LCSAVE) (s\<lparr>loop_rep := 0\<rparr>))
         else
           (let s = (if registers s DSP_REG_LC = 0 then set_lc 0x010000 s else s)
            in s\<lparr>pc_on_rep := 0\<rparr>))
      else s)"

definition update_pc_do :: "dsp_core_t \<Rightarrow> dsp_core_t" where
  "update_pc_do s =
     (if has_bit (SR s) DSP_SR_LF then
        (if ucast (pc s) = registers s DSP_REG_LA + 1 then
           (let s = set_lc (registers s DSP_REG_LC - 1) s;
                s = set_lc (registers s DSP_REG_LC AND BITMASK 16) s
            in if registers s DSP_REG_LC = 0 then pop_loop s
               else (let s = stack_index (registers s DSP_REG_SSH) s
                     in s\<lparr>pc := stack s 0 (unat (registers s DSP_REG_SSH))\<rparr>))
         else s)
      else s)"

definition dsp_postexecute_update_pc :: "dsp_core_t \<Rightarrow> dsp_core_t" where
  "dsp_postexecute_update_pc s =
     (let s = update_pc_rep s;
          s = (if cur_inst_len s > 0 then s\<lparr>pc := pc s + ucast (cur_inst_len s)\<rparr> else s)
      in update_pc_do s)"

text \<open>
  Interrupts. A handler returns the priority level to raise, or 99 when nothing is pending; it
  stores the vector in \<open>interrupt_instr_fetch\<close>.
\<close>

definition ipl_of :: "nat \<Rightarrow> dsp_core_t \<Rightarrow> u32" where
  "ipl_of n s = drop_bit n (periph s DSP_SPACE_X DSP_IPR) AND BITMASK 2"

abbreviation set_hsr :: "u32 \<Rightarrow> dsp_core_t \<Rightarrow> dsp_core_t" where
  "set_hsr v \<equiv> set_periph DSP_SPACE_X DSP_HOST_HSR v"

definition dsp_hi_interrupts :: "dsp_core_t \<Rightarrow> u32 \<times> dsp_core_t" where
  "dsp_hi_interrupts s =
     (let host_hcr = periph s DSP_SPACE_X DSP_HOST_HCR;
          host_hsr = HSR s;
          ipl_hi = ipl_of 10 s
      in if has_bit host_hcr DSP_HOST_HCR_HCIE \<and> has_bit host_hsr DSP_HOST_HSR_HCP then
           (let s = set_hsr (HSR s AND (0xff - push_bit DSP_HOST_HSR_HCP 1)) s;
                s = set_hostport CPU_HOST_CVR (hostport s CPU_HOST_CVR AND (0xff - push_bit CPU_HOST_CVR_HC 1)) s;
                s = s\<lparr>interrupt_instr_fetch := ucast (hostport s CPU_HOST_CVR) AND BITMASK 5\<rparr>;
                s = s\<lparr>interrupt_instr_fetch := interrupt_instr_fetch s * 2\<rparr>
            in (ipl_hi, s))
         else if has_bit host_hcr DSP_HOST_HCR_HRIE \<and> has_bit host_hsr DSP_HOST_HSR_HRDF then
           (let s = set_hsr (HSR s AND (0xff - push_bit DSP_HOST_HSR_HRDF 1)) s
            in (ipl_hi, s\<lparr>interrupt_instr_fetch := 0x0020\<rparr>))
         else if has_bit host_hcr DSP_HOST_HCR_HTIE \<and> \<not> has_bit host_hsr DSP_HOST_HSR_HTDE then
           (let s = set_hsr (HSR s AND (0xff - push_bit DSP_HOST_HSR_HTDE 1)) s
            in (ipl_hi, s\<lparr>interrupt_instr_fetch := 0x0022\<rparr>))
         else (99, s))"

abbreviation (input) DSP_SSI_CRB_TIE :: nat where "DSP_SSI_CRB_TIE \<equiv> 0xe"
abbreviation (input) DSP_SSI_CRB_RIE :: nat where "DSP_SSI_CRB_RIE \<equiv> 0xf"
abbreviation (input) DSP_SSI_SR_TUE :: nat where "DSP_SSI_SR_TUE \<equiv> 4"
abbreviation (input) DSP_SSI_SR_ROE :: nat where "DSP_SSI_SR_ROE \<equiv> 5"
abbreviation (input) DSP_SSI_SR_TDF :: nat where "DSP_SSI_SR_TDF \<equiv> 6"
abbreviation (input) DSP_SSI_SR_RDF :: nat where "DSP_SSI_SR_RDF \<equiv> 7"

definition dsp_ssi_interrupts :: "dsp_core_t \<Rightarrow> u32 \<times> dsp_core_t" where
  "dsp_ssi_interrupts s =
     (let ssi_crb = periph s DSP_SPACE_X DSP_SSI_CRB;
          ssi_sr = periph s DSP_SPACE_X DSP_SSI_SR;
          ipl_ssi = ipl_of 12 s;
          rdf_roe_mask = push_bit DSP_SSI_SR_RDF 1 OR push_bit DSP_SSI_SR_ROE 1;
          rdf1_roe1 = push_bit DSP_SSI_SR_RDF 1 OR push_bit DSP_SSI_SR_ROE 1;
          rdf1_roe0 = push_bit DSP_SSI_SR_RDF 1 OR push_bit DSP_SSI_SR_ROE 0;
          tdf_tue_mask = push_bit DSP_SSI_SR_TDF 1 OR push_bit DSP_SSI_SR_TUE 1;
          tdf1_tue1 = push_bit DSP_SSI_SR_TDF 1 OR push_bit DSP_SSI_SR_TUE 1;
          tdf1_tue0 = push_bit DSP_SSI_SR_TDF 1 OR push_bit DSP_SSI_SR_TUE 0
      in if has_bit ssi_crb DSP_SSI_CRB_RIE \<and> ssi_sr AND rdf_roe_mask = rdf1_roe1 then
           (let s = set_periph DSP_SPACE_X DSP_SSI_SR
                      (periph s DSP_SPACE_X DSP_SSI_SR AND (0xff - push_bit DSP_SSI_SR_ROE 1)) s
            in (ipl_ssi, s\<lparr>interrupt_instr_fetch := 0x000e\<rparr>))
         else if has_bit ssi_crb DSP_SSI_CRB_RIE \<and> ssi_sr AND rdf_roe_mask = rdf1_roe0 then
           (ipl_ssi, s\<lparr>interrupt_instr_fetch := 0x000c\<rparr>)
         else if has_bit ssi_crb DSP_SSI_CRB_TIE \<and> ssi_sr AND tdf_tue_mask = tdf1_tue1 then
           (let s = set_periph DSP_SPACE_X DSP_SSI_SR
                      (periph s DSP_SPACE_X DSP_SSI_SR AND (0xff - push_bit DSP_SSI_SR_TUE 1)) s
            in (ipl_ssi, s\<lparr>interrupt_instr_fetch := 0x0012\<rparr>))
         else if has_bit ssi_crb DSP_SSI_CRB_TIE \<and> ssi_sr AND tdf_tue_mask = tdf1_tue0 then
           (ipl_ssi, s\<lparr>interrupt_instr_fetch := 0x0010\<rparr>)
         else (99, s))"

text \<open>The peripheral interrupts in the order of their levels; \<open>ipl\<close> is the current level.\<close>

definition periph_interrupts :: "u32 \<Rightarrow> dsp_core_t \<Rightarrow> u32 \<times> dsp_core_t" where
  "periph_interrupts ipl s =
     (let ipl_hi = ipl_of 10 s;
          ipl_ssi = ipl_of 12 s
      in if ipl_hi \<ge> ipl_ssi then
           (let (r, s) = (if ipl_hi \<ge> ipl then dsp_hi_interrupts s else (99, s))
            in if r = 99 then (if ipl_ssi \<ge> ipl then dsp_ssi_interrupts s else (r, s)) else (r, s))
         else
           (let (r, s) = (if ipl_ssi \<ge> ipl then dsp_ssi_interrupts s else (99, s))
            in if r = 99 then (if ipl_hi \<ge> ipl then dsp_hi_interrupts s else (r, s)) else (r, s)))"

text \<open>Whether a vectored instruction makes the interrupt long: a JSR in one of its encodings.\<close>

definition long_vector :: "u32 \<Rightarrow> bool" where
  "long_vector instr \<longleftrightarrow>
     drop_bit 16 instr AND BITMASK 8 = 0xd \<or> bit_selector instr = 0x1c"

text \<open>Execution of an interrupt whose vector is in \<open>interrupt_instr_fetch\<close>.\<close>

definition raise_interrupt :: "u32 \<Rightarrow> dsp_core_t \<Rightarrow> dsp_core_t" where
  "raise_interrupt ipl_to_raise s =
     (let instr1 = read_memory_p (ucast (interrupt_instr_fetch s)) s;
          instr2 = read_memory_p (ucast (interrupt_instr_fetch s + 1)) s;
          s = s\<lparr>interrupt_state := DSP_INTERRUPT_FAST\<rparr>;
          s = (if long_vector instr1 then s\<lparr>interrupt_state := DSP_INTERRUPT_LONG\<rparr> else s);
          s = (if long_vector instr2 then s\<lparr>interrupt_state := DSP_INTERRUPT_LONG\<rparr> else s)
      in if interrupt_state s = DSP_INTERRUPT_FAST then
           (let s = s\<lparr>interrupt_save_pc := ucast (pc s)\<rparr>
            in s\<lparr>pc := ucast (interrupt_instr_fetch s)\<rparr>)
         else
           (let s = dsp_stack_push (ucast (pc s)) (SR s) s;
                s = sr_clear (push_bit DSP_SR_LF 1 OR push_bit DSP_SR_T 1 OR push_bit DSP_SR_S1 1 OR
                      push_bit DSP_SR_S0 1 OR push_bit DSP_SR_I0 1 OR push_bit DSP_SR_I1 1) s;
                s = sr_or (push_bit DSP_SR_I0 ipl_to_raise) s;
                s = s\<lparr>pc := ucast (interrupt_instr_fetch s)\<rparr>
            in s\<lparr>interrupt_instr_fetch := - 1, interrupt_save_pc := - 1\<rparr>))"

definition dsp_postexecute_interrupts :: "dsp_core_t \<Rightarrow> dsp_core_t" where
  "dsp_postexecute_interrupts s =
     (if loop_rep s \<noteq> 0 then s
      else if interrupt_state s = DSP_INTERRUPT_FAST then
        (if ucast (pc s) \<ge> interrupt_instr_fetch s + 2 then
           (let s = (if ucast (pc s) = interrupt_instr_fetch s + 2
                     then s\<lparr>pc := ucast (interrupt_save_pc s)\<rparr> else s)
            in s\<lparr>interrupt_instr_fetch := - 1, interrupt_state := DSP_INTERRUPT_NONE,
                  interrupt_save_pc := - 1\<rparr>)
         else s)
      else if has_bit (SR s) DSP_SR_T then
        raise_interrupt 3 (s\<lparr>interrupt_instr_fetch := 0x0004\<rparr>)
      else if swi_inter s = 1 then
        raise_interrupt 3 (s\<lparr>swi_inter := 0, interrupt_instr_fetch := 0x0006\<rparr>)
      else
        (let ipl = drop_bit DSP_SR_I0 (SR s) AND BITMASK 2
         in if ipl = 3 then s
            else
              (let (ipl_to_raise, s) = periph_interrupts ipl s
               in if ipl_to_raise \<noteq> 99 then raise_interrupt ipl_to_raise s else s)))"

text \<open>One instruction.\<close>

definition execute_alu :: "dsp_core_t \<Rightarrow> dsp_core_t" where
  "execute_alu s =
     (let value = ibits 0 8 s
      in if value < 0x40 then (opcodes_alu003f ! unat value) s
         else if value < 0x80 then (opcodes_alu407f ! unat (value AND BITMASK 4)) s
         else (opcodes_alu80ff ! unat (value AND BITMASK 2)) s)"

definition dsp56k_execute_instruction :: "dsp_core_t \<Rightarrow> dsp_core_t" where
  "dsp56k_execute_instruction s =
     (let s = s\<lparr>cur_inst := read_memory_p (pc s) s\<rparr>;
          s = s\<lparr>cur_inst_len := 1\<rparr>;
          value = ibits 16 8 s;
          s = (if value < 0x10 \<and> cur_inst s AND 0xfe4000 \<noteq> 0x080000
               then (opcodes8h ! unat value) s
               else dsp_parmove_write (execute_alu (dsp_parmove_read s)));
          s = dsp_postexecute_update_pc s
      in dsp_postexecute_interrupts s)"

text \<open>
  The loop of \<open>DSP::exec_insts\<close>; an execution that has met a C-level error has no state to
  go on from and returns the error.
\<close>

primrec exec_insts :: "nat \<Rightarrow> dsp_core_t \<Rightarrow> dsp_error + dsp_core_t" where
  "exec_insts 0 s = (case fault s of Some e \<Rightarrow> Inl e | None \<Rightarrow> Inr s)"
| "exec_insts (Suc num_inst) s =
     (case fault s of
        Some e \<Rightarrow> Inl e
      | None \<Rightarrow> if running s then exec_insts num_inst (dsp56k_execute_instruction s) else Inr s)"

text \<open>
  The thread function: wait for the end of the bootstrap, then execute while \<open>running\<close>. The
  argument bounds the number of instructions; \<open>None\<close> means the thread is still running.
\<close>

primrec exec_thread_loop :: "nat \<Rightarrow> dsp_core_t \<Rightarrow> dsp_core_t option" where
  "exec_thread_loop 0 s = (if running s \<and> fault s = None then None else Some s)"
| "exec_thread_loop (Suc n) s =
     (if running s \<and> fault s = None then exec_thread_loop n (dsp56k_execute_instruction s) else Some s)"

definition dsp56k_exec_thread :: "nat \<Rightarrow> dsp_core_t \<Rightarrow> dsp_core_t option" where
  "dsp56k_exec_thread n s = exec_thread_loop n (pauseThread s)"

section \<open>Properties of the instruction tables\<close>

text \<open>
  C22. Every instruction of the three tables of parallel arithmetic keeps the data registers within
  their widths: 8 bits for A2 and B2, 24 bits for the others.
\<close>
theorem alu_keeps_widths:
  assumes "f \<in> set opcodes_alu003f \<union> set opcodes_alu407f \<union> set opcodes_alu80ff" and "regs_wf s"
  shows "regs_wf (f s)"
proof -
  have u: "regs_wf (dsp_undefined s)" "regs_wf (dsp_move s)"
    using assms(2) by (simp_all add: dsp_undefined_def dsp_move_def regs_wf_def)
  show ?thesis
    using assms(1) additive_wf [OF assms(2)] multiply_wf [OF assms(2)] logic_wf [OF assms(2)] u
    by (auto simp only: opcodes_alu003f_def opcodes_alu407f_def opcodes_alu80ff_def list.set Un_iff insert_iff empty_iff)
qed

theorem alu_keeps_widths_witness: "regs_wf (dsp_macr cleared_core)"
  by (rule alu_keeps_widths) (simp_all add: opcodes_alu80ff_def regs_wf_def)

end
