(* ===== verification/Dsp_Flow.thy ===== *)
theory Dsp_Flow
  imports Dsp_Exec
begin

text \<open>
  Program flow of the DSP: what the hardware stack, the interrupts of
  \<open>dsp_postexecute_interrupts\<close>, the DO loop of \<open>dsp_do\<close> and
  \<open>dsp_postexecute_update_pc\<close> and the REP prefix promise a program.
\<close>

section \<open>Subroutines, long interrupts and loops\<close>

lemma ucast_up_16 [simp]: "(ucast (ucast (x :: u16) :: u32) :: u16) = x"
  by (rule ucast_up_ucast_id) (simp add: is_up)

lemma frames_room: "stack_ok s \<Longrightarrow> length (stack_frames s) < 14 \<Longrightarrow> registers s DSP_REG_SP \<noteq> 15"
  by (auto simp: stack_ok_def)

text \<open>What a push and a pop leave alone: all but the three stack registers and the stack.\<close>

definition stack_reg :: "nat \<Rightarrow> bool" where
  "stack_reg r \<longleftrightarrow> r = DSP_REG_SP \<or> r = DSP_REG_SSH \<or> r = DSP_REG_SSL"

definition no_stack_view :: "dsp_core_t \<Rightarrow> dsp_core_t" where
  "no_stack_view s = s\<lparr>registers := (\<lambda>r. if stack_reg r then 0 else registers s r), stack := \<lambda>_ _. 0, fault := None\<rparr>"

lemma no_stack_viewD:
  assumes "no_stack_view t = no_stack_view s"
  shows "pc t = pc s" "interrupt_state t = interrupt_state s" "interrupt_instr_fetch t = interrupt_instr_fetch s"
    "cur_inst t = cur_inst s" "cur_inst_len t = cur_inst_len s" "ram t = ram s" "ramint t = ramint s"
    "\<not> stack_reg r \<Longrightarrow> registers t r = registers s r"
proof -
  show "pc t = pc s" using arg_cong [OF assms, of pc] by (simp add: no_stack_view_def)
  show "interrupt_state t = interrupt_state s" using arg_cong [OF assms, of interrupt_state] by (simp add: no_stack_view_def)
  show "interrupt_instr_fetch t = interrupt_instr_fetch s"
    using arg_cong [OF assms, of interrupt_instr_fetch] by (simp add: no_stack_view_def)
  show "cur_inst t = cur_inst s" using arg_cong [OF assms, of cur_inst] by (simp add: no_stack_view_def)
  show "cur_inst_len t = cur_inst_len s" using arg_cong [OF assms, of cur_inst_len] by (simp add: no_stack_view_def)
  show "ram t = ram s" using arg_cong [OF assms, of ram] by (simp add: no_stack_view_def)
  show "ramint t = ramint s" using arg_cong [OF assms, of ramint] by (simp add: no_stack_view_def)
  show "\<not> stack_reg r \<Longrightarrow> registers t r = registers s r"
    using fun_cong [OF arg_cong [OF assms, of registers], of r] by (simp add: no_stack_view_def)
qed

lemma no_stack_view_frame:
  "stack_reg r \<Longrightarrow> no_stack_view (setreg r v s) = no_stack_view s" "no_stack_view (set_stack i a w s) = no_stack_view s"
  "no_stack_view (stack_index j s) = no_stack_view s"
proof -
  have "stack_reg r \<Longrightarrow> (\<lambda>q. if stack_reg q then 0 else if q = r then v else registers s q) = (\<lambda>q. if stack_reg q then 0 else registers s q)"
    by (rule ext) auto
  then show "stack_reg r \<Longrightarrow> no_stack_view (setreg r v s) = no_stack_view s" by (simp add: no_stack_view_def fun_upd_def cong: if_cong)
  show "no_stack_view (set_stack i a w s) = no_stack_view s" by (simp add: no_stack_view_def cong: if_cong)
  show "no_stack_view (stack_index j s) = no_stack_view s"
    by (simp add: no_stack_view_def stack_index_def raise_fault_def split: option.split cong: if_cong)
qed

lemma push_view:
  assumes "registers s DSP_REG_SP \<noteq> 15"
  shows "no_stack_view (dsp_stack_push a b s) = no_stack_view s"
  using assms by (simp only: dsp_stack_push_def if_False Let_def) (simp only: no_stack_view_frame stack_reg_def simp_thms)

lemma pop_view:
  assumes "registers s DSP_REG_SP \<noteq> 0"
  shows "no_stack_view (snd (dsp_stack_pop s)) = no_stack_view s"
  using assms by (simp only: dsp_stack_pop_def if_False Let_def snd_conv) (simp only: no_stack_view_frame stack_reg_def simp_thms)

lemma frames_sp: "stack_frames s = f # fs \<Longrightarrow> registers s DSP_REG_SP \<noteq> 0"
  by (auto simp: stack_frames_def)

lemma stack_cong:
  assumes "registers t DSP_REG_SP = registers s DSP_REG_SP" "registers t DSP_REG_SSH = registers s DSP_REG_SSH"
    "registers t DSP_REG_SSL = registers s DSP_REG_SSL" "stack t = stack s"
  shows "stack_ok t = stack_ok s" "stack_frames t = stack_frames s"
  using assms by (simp_all add: stack_ok_def stack_frames_def)

lemma pushed:
  assumes "stack_ok s" "length (stack_frames s) < 14" "frame16 (a, b)"
  shows "stack_ok (dsp_stack_push a b s)" "stack_frames (dsp_stack_push a b s) = (a, b) # stack_frames s"
    "fault (dsp_stack_push a b s) = fault s" "no_stack_view (dsp_stack_push a b s) = no_stack_view s"
  using stack_push_law [OF assms(1,3,2)] push_view [OF frames_room [OF assms(1,2)]] by simp_all

lemma popped:
  assumes "stack_ok s" "stack_frames s = f # fs"
  obtains t where "dsp_stack_pop s = (Some f, t)" "stack_ok t" "stack_frames t = fs" "fault t = fault s"
    "no_stack_view t = no_stack_view s"
  using stack_pop_law [OF assms] pop_view [OF frames_sp [OF assms(2)]] by (metis prod.collapse)

lemma rti_pops:
  assumes "stack_ok s" "stack_frames s = (a, b) # fs"
  shows "pc (dsp_rti s) = ucast a" "stack_frames (dsp_rti s) = fs" "SR (dsp_rti s) = b" "fault (dsp_rti s) = fault s"
    "stack_ok (dsp_rti s)"
  by (rule popped [OF assms]; force simp: dsp_rti_def stack_ok_def stack_frames_def Let_def)+


definition vector_long :: "dsp_core_t \<Rightarrow> bool" where
  "vector_long s \<longleftrightarrow> long_vector (read_memory_p (ucast (interrupt_instr_fetch s)) s)
     \<or> long_vector (read_memory_p (ucast (interrupt_instr_fetch s + 1)) s)"

lemma raise_long:
  assumes "vector_long s" "stack_ok s" "length (stack_frames s) < 14" "frame16 (ucast (pc s), SR s)"
  shows "pc (raise_interrupt l s) = ucast (interrupt_instr_fetch s)"
    "stack_frames (raise_interrupt l s) = (ucast (pc s), SR s) # stack_frames s"
    "stack_ok (raise_interrupt l s)" "interrupt_state (raise_interrupt l s) = DSP_INTERRUPT_LONG"
    "fault (raise_interrupt l s) = fault s"
    "SR (raise_interrupt l s) = (SR s AND (BITMASK 16 - 0xaf00)) OR push_bit 8 l"
proof -
  define u where "u = s\<lparr>interrupt_state := DSP_INTERRUPT_LONG\<rparr>"
  define t where "t = dsp_stack_push (ucast (pc u)) (SR u) u"
  have o: "stack_ok u" "length (stack_frames u) < 14" "frame16 (ucast (pc u), SR u)" "stack_frames u = stack_frames s"
    using assms stack_cong [of u s] by (simp_all add: u_def)
  note p = pushed [OF o(1,2,3), folded t_def] and v = no_stack_viewD [OF pushed(4) [OF o(1,2,3)], folded t_def]
  have sr: "SR t = SR s" using v(8) [of DSP_REG_SR] by (simp add: stack_reg_def u_def)
  have r: "raise_interrupt l s = sr_or (push_bit 8 l) (sr_clear 0xaf00 t)
      \<lparr>pc := ucast (interrupt_instr_fetch t), interrupt_instr_fetch := - 1, interrupt_save_pc := - 1\<rparr>"
    using assms(1) by (auto simp: raise_interrupt_def vector_long_def t_def u_def Let_def sr_or_def sr_clear_def sr_and_def)
  show "pc (raise_interrupt l s) = ucast (interrupt_instr_fetch s)"
    "interrupt_state (raise_interrupt l s) = DSP_INTERRUPT_LONG" "fault (raise_interrupt l s) = fault s"
    "SR (raise_interrupt l s) = (SR s AND (BITMASK 16 - 0xaf00)) OR push_bit 8 l"
    using v(1-3) p(3) sr by (simp_all add: r sr_or_def sr_clear_def sr_and_def u_def)
  show "stack_frames (raise_interrupt l s) = (ucast (pc s), SR s) # stack_frames s"
    "stack_ok (raise_interrupt l s)"
    using p o(4) stack_cong [of "raise_interrupt l s" t]
    by (simp_all add: r sr_or_def sr_clear_def sr_and_def u_def)
qed


lemma jsr_in_long_interrupt:
  assumes "interrupt_state u = DSP_INTERRUPT_LONG" "ibits 12 4 u = 0"
  shows "pc (dsp_jsr u) = ucast (ibits 0 12 u)" "stack_frames (dsp_jsr u) = stack_frames u" "stack_ok (dsp_jsr u) = stack_ok u"
    "interrupt_state (dsp_jsr u) = DSP_INTERRUPT_NONE"
  using assms by (simp_all add: dsp_jsr_def jump_to_def stack_frames_def stack_ok_def)

text \<open>
  C25. An interrupt returns to the interrupted program. A vector that holds a JSR makes the interrupt
  long: program counter and status go to the stack, the loop, trace, scaling and level bits of the status
  are cleared and the level is set to the one of the interrupt; the JSR then pushes nothing; and RTI, in
  whatever state the handler has left apart from the stack, restores program counter, status and stack. Any
  other vector is fast: the two words at the vector execute and the program counter comes back, the status and the
  stack being untouched.
\<close>
theorem interrupt_returns:
  assumes "stack_ok s" and "length (stack_frames s) < 14" and "frame16 (ucast (pc s), SR s)" and "t = raise_interrupt l s"
  shows "if vector_long s then
      pc t = ucast (interrupt_instr_fetch s) \<and> SR t = (SR s AND (BITMASK 16 - 0xaf00)) OR push_bit 8 l
      \<and> interrupt_state t = DSP_INTERRUPT_LONG \<and> fault t = fault s
      \<and> (\<forall>u. interrupt_state u = DSP_INTERRUPT_LONG \<longrightarrow> ibits 12 4 u = 0 \<longrightarrow> stack_frames (dsp_jsr u) = stack_frames u)
      \<and> (\<forall>u. stack_ok u \<longrightarrow> stack_frames u = stack_frames t \<longrightarrow>
          pc (dsp_rti u) = pc s \<and> SR (dsp_rti u) = SR s \<and> stack_frames (dsp_rti u) = stack_frames s)
    else
      pc t = ucast (interrupt_instr_fetch s) \<and> SR t = SR s \<and> stack_frames t = stack_frames s
      \<and> (\<forall>u. interrupt_state u = interrupt_state t \<longrightarrow> interrupt_save_pc u = interrupt_save_pc t \<longrightarrow>
          interrupt_instr_fetch u = interrupt_instr_fetch t \<longrightarrow> loop_rep u = 0 \<longrightarrow>
          ucast (pc u) = interrupt_instr_fetch u + 2 \<longrightarrow>
          dsp_postexecute_interrupts u = u\<lparr>pc := pc s, interrupt_instr_fetch := - 1,
            interrupt_state := DSP_INTERRUPT_NONE, interrupt_save_pc := - 1\<rparr>)"
proof (cases "vector_long s")
  case True
  note r = raise_long [OF True assms(1-3), of l, folded assms(4)]
  have "pc (dsp_rti u) = pc s \<and> SR (dsp_rti u) = SR s \<and> stack_frames (dsp_rti u) = stack_frames s"
    if "stack_ok u" "stack_frames u = stack_frames t" for u
    using rti_pops [OF that(1) that(2) [unfolded r(2)]] by simp
  with True r jsr_in_long_interrupt(2) show ?thesis by auto
next
  case False
  then have "t = s\<lparr>interrupt_state := DSP_INTERRUPT_FAST, interrupt_save_pc := ucast (pc s), pc := ucast (interrupt_instr_fetch s)\<rparr>"
    by (simp add: assms(4) raise_interrupt_def vector_long_def Let_def)
  with False show ?thesis
    by (simp add: dsp_postexecute_interrupts_def stack_frames_def)
qed


theorem interrupt_returns_witness:
  "SR (raise_interrupt 2 (set_ramint DSP_SPACE_P 0x20 0x0d0040 (cleared_core\<lparr>pc := 0x123, interrupt_instr_fetch := 0x20\<rparr>))) = 0x200"
proof -
  define s where "s = set_ramint DSP_SPACE_P 0x20 0x0d0040 (cleared_core\<lparr>pc := 0x123, interrupt_instr_fetch := 0x20\<rparr>)"
  have "stack_ok s" "length (stack_frames s) < 14" "frame16 (ucast (pc s), SR s)"
    by (simp_all add: s_def stack_ok_def stack_frames_def frame16_def cleared_core_def)
  from interrupt_returns [OF this refl, of 2] show ?thesis
    unfolding s_def
    by (simp add: cleared_core_def vector_long_def read_memory_p_def long_vector_def BITMASK_def upd2_apply)
qed



























end
