(* ===== verification/Dsp_Invariant.thy ===== *)
theory Dsp_Invariant
  imports Dsp_Flow
begin

text \<open>
  Invariants of the whole DSP. A predicate that depends on the memories and the error state only,
  and that the memory writes and the errors keep, is kept by every instruction, by every access of
  the host and by the execution loops. The locale states the interface, the lemmas follow the
  definitions of the instructions one by one; the interpretations are the invariants.
\<close>

named_theorems inv

definition storage :: "dsp_core_t \<Rightarrow> (nat \<Rightarrow> nat \<Rightarrow> u32) \<times> (nat \<Rightarrow> nat \<Rightarrow> u32) \<times> (nat \<Rightarrow> nat \<Rightarrow> u32) \<times> dsp_error option" where
  "storage s = (rom s, ram s, ramint s, fault s)"

text \<open>
  The states the machine reaches: instructions of the DSP, accesses of the host and resets in any
  order.
\<close>

inductive machine_reach :: "dsp_core_t \<Rightarrow> dsp_core_t \<Rightarrow> bool" for init where
  start: "machine_reach init init"
| instruction: "machine_reach init s \<Longrightarrow> machine_reach init (dsp56k_execute_instruction s)"
| host: "machine_reach init s \<Longrightarrow> machine_reach init (host_access h s)"
| reset: "machine_reach init s \<Longrightarrow> machine_reach init (dsp_core_reset s)"

locale state_inv =
  fixes P :: "dsp_core_t \<Rightarrow> bool"
  assumes frame: "storage t = storage s \<Longrightarrow> P s \<Longrightarrow> P t"
    and write_ram: "P s \<Longrightarrow> unat v < 2 ^ 24 \<Longrightarrow> P (set_ram i a v s)"
    and write_ramint: "P s \<Longrightarrow> unat v < 2 ^ 24 \<Longrightarrow> P (set_ramint i a v s)"
    and error: "P s \<Longrightarrow> P (raise_fault e s)"
begin

definition Q1 :: "'a \<times> dsp_core_t \<Rightarrow> bool" where
  "Q1 p \<longleftrightarrow> P (snd p)"

definition Q2 :: "'a \<times> 'b \<times> dsp_core_t \<Rightarrow> bool" where
  "Q2 p \<longleftrightarrow> P (snd (snd p))"

lemma updates [inv]:
  "P s \<Longrightarrow> P (thread_update f0 s)"
  "P s \<Longrightarrow> P (semaphore_update f1 s)"
  "P s \<Longrightarrow> P (mutex_update f2 s)"
  "P s \<Longrightarrow> P (use_thread_update f3 s)"
  "P s \<Longrightarrow> P (running_update f4 s)"
  "P s \<Longrightarrow> P (pc_update f5 s)"
  "P s \<Longrightarrow> P (registers_update f6 s)"
  "P s \<Longrightarrow> P (stack_update f7 s)"
  "P s \<Longrightarrow> P (periph_update f8 s)"
  "P s \<Longrightarrow> P (hostport_update f9 s)"
  "P s \<Longrightarrow> P (loop_rep_update f10 s)"
  "P s \<Longrightarrow> P (swi_inter_update f11 s)"
  "P s \<Longrightarrow> P (bootstrap_pos_update f12 s)"
  "P s \<Longrightarrow> P (interrupt_state_update f13 s)"
  "P s \<Longrightarrow> P (interrupt_instr_fetch_update f14 s)"
  "P s \<Longrightarrow> P (interrupt_save_pc_update f15 s)"
  "P s \<Longrightarrow> P (cur_inst_len_update f16 s)"
  "P s \<Longrightarrow> P (cur_inst_update f17 s)"
  "P s \<Longrightarrow> P (tmp_parmove_src_update f18 s)"
  "P s \<Longrightarrow> P (tmp_parmove_dest_update f19 s)"
  "P s \<Longrightarrow> P (tmp_parmove_start_update f20 s)"
  "P s \<Longrightarrow> P (tmp_parmove_len_update f21 s)"
  "P s \<Longrightarrow> P (tmp_parmove_type_update f22 s)"
  "P s \<Longrightarrow> P (tmp_parmove_space_update f23 s)"
  "P s \<Longrightarrow> P (pc_on_rep_update f24 s)"
  "P s \<Longrightarrow> P (host_waits_update f25 s)"
  by (erule frame [rotated], simp add: storage_def)+

lemma results [inv]:
  "P s \<Longrightarrow> Q1 (a, s)" "P s \<Longrightarrow> Q2 (a, b, s)" "Q1 p \<Longrightarrow> P (snd p)" "Q2 q \<Longrightarrow> P (snd (snd q))"
  by (simp_all add: Q1_def Q2_def)

lemma conditional [inv]:
  "P x0 \<Longrightarrow> P y0 \<Longrightarrow> P (if c0 then x0 else y0)"
  "Q1 x1 \<Longrightarrow> Q1 y1 \<Longrightarrow> Q1 (if c1 then x1 else y1)"
  "Q2 x2 \<Longrightarrow> Q2 y2 \<Longrightarrow> Q2 (if c2 then x2 else y2)"
  by simp_all

lemma option_case [inv]:
  "P x0 \<Longrightarrow> (\<And>v. P (f0 v)) \<Longrightarrow> P (case m0 of None \<Rightarrow> x0 | Some v \<Rightarrow> f0 v)"
  "Q1 x1 \<Longrightarrow> (\<And>v. Q1 (f1 v)) \<Longrightarrow> Q1 (case m1 of None \<Rightarrow> x1 | Some v \<Rightarrow> f1 v)"
  "Q2 x2 \<Longrightarrow> (\<And>v. Q2 (f2 v)) \<Longrightarrow> Q2 (case m2 of None \<Rightarrow> x2 | Some v \<Rightarrow> f2 v)"
  by (simp_all split: option.split)

lemma let_state [inv]:
  "P s \<Longrightarrow> (\<And>x0. P x0 \<Longrightarrow> P (f0 x0)) \<Longrightarrow> P (let x0 = s in f0 x0)"
  "P s \<Longrightarrow> (\<And>x1. P x1 \<Longrightarrow> Q1 (f1 x1)) \<Longrightarrow> Q1 (let x1 = s in f1 x1)"
  "P s \<Longrightarrow> (\<And>x2. P x2 \<Longrightarrow> Q2 (f2 x2)) \<Longrightarrow> Q2 (let x2 = s in f2 x2)"
  by (simp_all add: Let_def)

lemma let_value [inv]:
  "(\<And>x0. P (f0 x0)) \<Longrightarrow> P (let x0 = (a0 :: u32) in f0 x0)"
  "(\<And>x1. P (f1 x1)) \<Longrightarrow> P (let x1 = (a1 :: u16) in f1 x1)"
  "(\<And>x2. P (f2 x2)) \<Longrightarrow> P (let x2 = (a2 :: u8) in f2 x2)"
  "(\<And>x3. P (f3 x3)) \<Longrightarrow> P (let x3 = (a3 :: nat) in f3 x3)"
  "(\<And>x4. P (f4 x4)) \<Longrightarrow> P (let x4 = (a4 :: bool) in f4 x4)"
  "(\<And>x5. P (f5 x5)) \<Longrightarrow> P (let x5 = (a5 :: int) in f5 x5)"
  "(\<And>x6. P (f6 x6)) \<Longrightarrow> P (let x6 = (a6 :: acc) in f6 x6)"
  "(\<And>x7. Q1 (f7 x7)) \<Longrightarrow> Q1 (let x7 = (a7 :: u32) in f7 x7)"
  "(\<And>x8. Q1 (f8 x8)) \<Longrightarrow> Q1 (let x8 = (a8 :: u16) in f8 x8)"
  "(\<And>x9. Q1 (f9 x9)) \<Longrightarrow> Q1 (let x9 = (a9 :: u8) in f9 x9)"
  "(\<And>x10. Q1 (f10 x10)) \<Longrightarrow> Q1 (let x10 = (a10 :: nat) in f10 x10)"
  "(\<And>x11. Q1 (f11 x11)) \<Longrightarrow> Q1 (let x11 = (a11 :: bool) in f11 x11)"
  "(\<And>x12. Q1 (f12 x12)) \<Longrightarrow> Q1 (let x12 = (a12 :: int) in f12 x12)"
  "(\<And>x13. Q1 (f13 x13)) \<Longrightarrow> Q1 (let x13 = (a13 :: acc) in f13 x13)"
  "(\<And>x14. Q2 (f14 x14)) \<Longrightarrow> Q2 (let x14 = (a14 :: u32) in f14 x14)"
  "(\<And>x15. Q2 (f15 x15)) \<Longrightarrow> Q2 (let x15 = (a15 :: u16) in f15 x15)"
  "(\<And>x16. Q2 (f16 x16)) \<Longrightarrow> Q2 (let x16 = (a16 :: u8) in f16 x16)"
  "(\<And>x17. Q2 (f17 x17)) \<Longrightarrow> Q2 (let x17 = (a17 :: nat) in f17 x17)"
  "(\<And>x18. Q2 (f18 x18)) \<Longrightarrow> Q2 (let x18 = (a18 :: bool) in f18 x18)"
  "(\<And>x19. Q2 (f19 x19)) \<Longrightarrow> Q2 (let x19 = (a19 :: int) in f19 x19)"
  "(\<And>x20. Q2 (f20 x20)) \<Longrightarrow> Q2 (let x20 = (a20 :: acc) in f20 x20)"
  by (simp_all add: Let_def)

lemma let_result [inv]:
  "Q1 p0 \<Longrightarrow> (\<And>v x0. P x0 \<Longrightarrow> P (f0 v x0)) \<Longrightarrow> P (let (v, x0) = p0 in f0 v x0)"
  "Q1 p1 \<Longrightarrow> (\<And>v x1. P x1 \<Longrightarrow> Q1 (f1 v x1)) \<Longrightarrow> Q1 (let (v, x1) = p1 in f1 v x1)"
  "Q1 p2 \<Longrightarrow> (\<And>v x2. P x2 \<Longrightarrow> Q2 (f2 v x2)) \<Longrightarrow> Q2 (let (v, x2) = p2 in f2 v x2)"
  by (auto simp: Q1_def Let_def split: prod.split)

lemma let_result2 [inv]:
  "Q2 p0 \<Longrightarrow> (\<And>v w x0. P x0 \<Longrightarrow> P (f0 v w x0)) \<Longrightarrow> P (let (v, w, x0) = p0 in f0 v w x0)"
  "Q2 p1 \<Longrightarrow> (\<And>v w x1. P x1 \<Longrightarrow> Q1 (f1 v w x1)) \<Longrightarrow> Q1 (let (v, w, x1) = p1 in f1 v w x1)"
  "Q2 p2 \<Longrightarrow> (\<And>v w x2. P x2 \<Longrightarrow> Q2 (f2 v w x2)) \<Longrightarrow> Q2 (let (v, w, x2) = p2 in f2 v w x2)"
  by (auto simp: Q2_def Let_def split: prod.split)

lemma let_pair [inv]:
  "(\<And>v w. P (f0 v w)) \<Longrightarrow> P (let (v, w) = (p0 :: u32 \<times> u32) in f0 v w)"
  "(\<And>v w. P (f1 v w)) \<Longrightarrow> P (let (v, w) = (p1 :: u16 \<times> acc) in f1 v w)"
  "(\<And>v w. P (f2 v w)) \<Longrightarrow> P (let (v, w) = (p2 :: nat \<times> nat) in f2 v w)"
  "(\<And>v w. P (f3 v w)) \<Longrightarrow> P (let (v, w) = (p3 :: bool \<times> u32) in f3 v w)"
  "(\<And>v w. P (f4 v w)) \<Longrightarrow> P (let (v, w) = (p4 :: u16 \<times> u16) in f4 v w)"
  "(\<And>v w. P (f5 v w)) \<Longrightarrow> P (let (v, w) = (p5 :: acc) in f5 v w)"
  "(\<And>v w. Q1 (f6 v w)) \<Longrightarrow> Q1 (let (v, w) = (p6 :: u32 \<times> u32) in f6 v w)"
  "(\<And>v w. Q1 (f7 v w)) \<Longrightarrow> Q1 (let (v, w) = (p7 :: u16 \<times> acc) in f7 v w)"
  "(\<And>v w. Q1 (f8 v w)) \<Longrightarrow> Q1 (let (v, w) = (p8 :: nat \<times> nat) in f8 v w)"
  "(\<And>v w. Q1 (f9 v w)) \<Longrightarrow> Q1 (let (v, w) = (p9 :: bool \<times> u32) in f9 v w)"
  "(\<And>v w. Q1 (f10 v w)) \<Longrightarrow> Q1 (let (v, w) = (p10 :: u16 \<times> u16) in f10 v w)"
  "(\<And>v w. Q1 (f11 v w)) \<Longrightarrow> Q1 (let (v, w) = (p11 :: acc) in f11 v w)"
  "(\<And>v w. Q2 (f12 v w)) \<Longrightarrow> Q2 (let (v, w) = (p12 :: u32 \<times> u32) in f12 v w)"
  "(\<And>v w. Q2 (f13 v w)) \<Longrightarrow> Q2 (let (v, w) = (p13 :: u16 \<times> acc) in f13 v w)"
  "(\<And>v w. Q2 (f14 v w)) \<Longrightarrow> Q2 (let (v, w) = (p14 :: nat \<times> nat) in f14 v w)"
  "(\<And>v w. Q2 (f15 v w)) \<Longrightarrow> Q2 (let (v, w) = (p15 :: bool \<times> u32) in f15 v w)"
  "(\<And>v w. Q2 (f16 v w)) \<Longrightarrow> Q2 (let (v, w) = (p16 :: u16 \<times> u16) in f16 v w)"
  "(\<And>v w. Q2 (f17 v w)) \<Longrightarrow> Q2 (let (v, w) = (p17 :: acc) in f17 v w)"
  by (simp_all add: Let_def split: prod.split)

lemma case_result [inv]:
  "Q1 p0 \<Longrightarrow> (\<And>v x0. P x0 \<Longrightarrow> P (f0 v x0)) \<Longrightarrow> P (case p0 of (v, x0) \<Rightarrow> f0 v x0)"
  "Q1 p1 \<Longrightarrow> (\<And>v x1. P x1 \<Longrightarrow> Q1 (f1 v x1)) \<Longrightarrow> Q1 (case p1 of (v, x1) \<Rightarrow> f1 v x1)"
  "Q1 p2 \<Longrightarrow> (\<And>v x2. P x2 \<Longrightarrow> Q2 (f2 v x2)) \<Longrightarrow> Q2 (case p2 of (v, x2) \<Rightarrow> f2 v x2)"
  by (auto simp: Q1_def split: prod.split)

lemma case_result2 [inv]:
  "Q2 p0 \<Longrightarrow> (\<And>v w x0. P x0 \<Longrightarrow> P (f0 v w x0)) \<Longrightarrow> P (case p0 of (v, w, x0) \<Rightarrow> f0 v w x0)"
  "Q2 p1 \<Longrightarrow> (\<And>v w x1. P x1 \<Longrightarrow> Q1 (f1 v w x1)) \<Longrightarrow> Q1 (case p1 of (v, w, x1) \<Rightarrow> f1 v w x1)"
  "Q2 p2 \<Longrightarrow> (\<And>v w x2. P x2 \<Longrightarrow> Q2 (f2 v w x2)) \<Longrightarrow> Q2 (case p2 of (v, w, x2) \<Rightarrow> f2 v w x2)"
  by (auto simp: Q2_def split: prod.split)

lemma case_pair [inv]:
  "(\<And>v w. P (f0 v w)) \<Longrightarrow> P (case (p0 :: u32 \<times> u32) of (v, w) \<Rightarrow> f0 v w)"
  "(\<And>v w. P (f1 v w)) \<Longrightarrow> P (case (p1 :: acc) of (v, w) \<Rightarrow> f1 v w)"
  "(\<And>v w. P (f2 v w)) \<Longrightarrow> P (case (p2 :: u16 \<times> acc) of (v, w) \<Rightarrow> f2 v w)"
  "(\<And>v w. Q1 (f3 v w)) \<Longrightarrow> Q1 (case (p3 :: u32 \<times> u32) of (v, w) \<Rightarrow> f3 v w)"
  "(\<And>v w. Q1 (f4 v w)) \<Longrightarrow> Q1 (case (p4 :: acc) of (v, w) \<Rightarrow> f4 v w)"
  "(\<And>v w. Q1 (f5 v w)) \<Longrightarrow> Q1 (case (p5 :: u16 \<times> acc) of (v, w) \<Rightarrow> f5 v w)"
  "(\<And>v w. Q2 (f6 v w)) \<Longrightarrow> Q2 (case (p6 :: u32 \<times> u32) of (v, w) \<Rightarrow> f6 v w)"
  "(\<And>v w. Q2 (f7 v w)) \<Longrightarrow> Q2 (case (p7 :: acc) of (v, w) \<Rightarrow> f7 v w)"
  "(\<And>v w. Q2 (f8 v w)) \<Longrightarrow> Q2 (case (p8 :: u16 \<times> acc) of (v, w) \<Rightarrow> f8 v w)"
  by (simp_all split: prod.split)

lemma loop [inv]: "P s \<Longrightarrow> (\<And>x s. P s \<Longrightarrow> P (f x s)) \<Longrightarrow> P (fold f xs s)"
  by (induction xs arbitrary: s) simp_all

lemma table [inv]: "list_all (\<lambda>f. \<forall>s. P s \<longrightarrow> P (f s)) fs \<Longrightarrow> i < length fs \<Longrightarrow> P s \<Longrightarrow> P ((fs ! i) s)"
  by (simp add: list_all_length)

lemma error_inv [inv]: "P s \<Longrightarrow> P (raise_fault e s)"
  by (rule error)

text \<open>The host port.\<close>

lemma resumeThread_inv [inv]: "P s \<Longrightarrow> P (resumeThread s)"
  unfolding resumeThread_def by (intro inv | assumption)+

lemma dsp_core_hostport_update_trdy_inv [inv]: "P s \<Longrightarrow> P (dsp_core_hostport_update_trdy s)"
  unfolding dsp_core_hostport_update_trdy_def by (intro inv | assumption)+

lemma dsp_core_dsp2host_inv [inv]: "P s \<Longrightarrow> P (dsp_core_dsp2host s)"
  unfolding dsp_core_dsp2host_def by (intro inv | assumption)+

lemma dsp_core_host2dsp_inv [inv]: "P s \<Longrightarrow> P (dsp_core_host2dsp s)"
  unfolding dsp_core_host2dsp_def by (intro inv | assumption)+

lemma dsp_core_hostport_dspread_inv [inv]: "P s \<Longrightarrow> P (dsp_core_hostport_dspread s)"
  unfolding dsp_core_hostport_dspread_def by (intro inv | assumption)+

lemma dsp_core_hostport_dspwrite_inv [inv]: "P s \<Longrightarrow> P (dsp_core_hostport_dspwrite s)"
  unfolding dsp_core_hostport_dspwrite_def by (intro inv | assumption)+

lemma dsp_core_hostport_cpuread_inv [inv]: "P s \<Longrightarrow> P (dsp_core_hostport_cpuread s)"
  unfolding dsp_core_hostport_cpuread_def by (intro inv | assumption)+

lemma dsp_core_hostport_cpuwrite_inv [inv]: "P s \<Longrightarrow> P (dsp_core_hostport_cpuwrite s)"
  unfolding dsp_core_hostport_cpuwrite_def by (intro inv | assumption)+

lemma dsp_core_read_host_inv [inv]: "P s \<Longrightarrow> Q1 (dsp_core_read_host a s)"
  unfolding dsp_core_read_host_def by (intro inv | assumption)+

lemma unat_take_bit_less: "unat (take_bit n w :: u32) < 2 ^ n"
  unfolding unsigned_take_bit_eq by (rule take_bit_nat_less_exp)

lemma boot_word_24: "unat (push_bit 16 (ucast (a :: u8)) OR push_bit 8 (ucast (b :: u8)) OR ucast (c :: u8) :: u32) < 2 ^ 24"
proof -
  have "push_bit 16 (ucast a) OR push_bit 8 (ucast b) OR ucast c = take_bit 24 (push_bit 16 (ucast a) OR push_bit 8 (ucast b) OR ucast c :: u32)"
    by (rule bit_word_eqI) (auto simp: bit_simps dest: bit_imp_le_length)
  then show ?thesis by (rule ssubst) (rule unat_take_bit_less)
qed

lemma bootstrap_word_inv [inv]: "P s \<Longrightarrow> P (bootstrap_word s)"
  unfolding bootstrap_word_def by (intro inv write_ramint boot_word_24 | assumption)+

lemma dsp_core_write_host_inv [inv]: "P s \<Longrightarrow> P (dsp_core_write_host a v s)"
  unfolding dsp_core_write_host_def by (intro inv | assumption)+

lemma host_access_inv [inv]: "P s \<Longrightarrow> P (host_access h s)"
  by (cases h) (simp_all only: host_access.simps, (intro inv | assumption)+)

lemma sem_wait_inv [inv]: "P s \<Longrightarrow> P (sem_wait hs s)"
proof (induction hs arbitrary: s)
  case Nil
  then show ?case by (auto simp: inv split: option.split nat.split)
next
  case (Cons h hs)
  have "P (sem_wait hs (host_access h s))" by (rule Cons.IH [OF host_access_inv [OF Cons.prems]])
  with Cons.prems show ?case by (auto intro: inv split: option.split nat.split)
qed

lemma pauseThread_inv [inv]: "P s \<Longrightarrow> P (pauseThread s)"
  unfolding pauseThread_def by (intro inv | assumption)+

text \<open>Memory and stack.\<close>

lemma read_memory_inv [inv]: "P s \<Longrightarrow> Q1 (read_memory space a s)"
  unfolding read_memory_def by (intro inv | assumption)+

lemma write_periph_x_inv [inv]: "P s \<Longrightarrow> P (write_periph_x a v s)"
  unfolding write_periph_x_def by (intro inv | assumption)+

lemma masked_24: "unat (v AND BITMASK 24 :: u32) < 2 ^ 24"
  unfolding BITMASK_mask take_bit_eq_mask [symmetric] by (rule unat_take_bit_less)

lemma write_memory_inv [inv]: "P s \<Longrightarrow> P (write_memory space a v s)"
  unfolding write_memory_def Let_def by (intro inv write_ram write_ramint masked_24 | assumption)+

lemma stack_index_inv [inv]: "P s \<Longrightarrow> P (stack_index i s)"
  unfolding stack_index_def by (intro inv | assumption)+

lemma dsp_stack_push_inv [inv]: "P s \<Longrightarrow> P (dsp_stack_push a b s)"
  unfolding dsp_stack_push_def by (intro inv | assumption)+

lemma dsp_stack_pop_inv [inv]: "P s \<Longrightarrow> Q1 (dsp_stack_pop s)"
  unfolding dsp_stack_pop_def by (intro inv | assumption)+

text \<open>Status register, addressing and parallel moves.\<close>

lemma sr_and_inv [inv]: "P s \<Longrightarrow> P (sr_and m s)"
  unfolding sr_and_def by (intro inv | assumption)+

lemma sr_or_inv [inv]: "P s \<Longrightarrow> P (sr_or v s)"
  unfolding sr_or_def by (intro inv | assumption)+

lemma sr_clear_inv [inv]: "P s \<Longrightarrow> P (sr_clear m s)"
  unfolding sr_clear_def by (intro inv | assumption)+

lemma dsp_ccr_extension_inv [inv]: "P s \<Longrightarrow> P (dsp_ccr_extension a b s)"
  unfolding dsp_ccr_extension_def Let_def by (intro inv | assumption)+

lemma dsp_ccr_unnormalized_inv [inv]: "P s \<Longrightarrow> P (dsp_ccr_unnormalized a b s)"
  unfolding dsp_ccr_unnormalized_def Let_def by (intro inv | assumption)+

lemma dsp_ccr_negative_inv [inv]: "P s \<Longrightarrow> P (dsp_ccr_negative a s)"
  unfolding dsp_ccr_negative_def by (intro inv | assumption)+

lemma dsp_ccr_zero_inv [inv]: "P s \<Longrightarrow> P (dsp_ccr_zero a b c s)"
  unfolding dsp_ccr_zero_def by (intro inv | assumption)+

lemma dsp_ccr_all_inv [inv]: "P s \<Longrightarrow> P (dsp_ccr_all a b c s)"
  unfolding dsp_ccr_all_def by (intro inv | assumption)+

lemma dsp_update_rn_bitreverse_inv [inv]: "P s \<Longrightarrow> P (dsp_update_rn_bitreverse n s)"
  unfolding dsp_update_rn_bitreverse_def by (intro inv | assumption)+

lemma dsp_update_rn_modulo_inv [inv]: "P s \<Longrightarrow> P (dsp_update_rn_modulo n m s)"
  unfolding dsp_update_rn_modulo_def by (intro inv | assumption)+

lemma dsp_update_rn_inv [inv]: "P s \<Longrightarrow> P (dsp_update_rn n m s)"
  unfolding dsp_update_rn_def by (intro inv | assumption)+

lemma dsp_calc_ea_inv [inv]: "P s \<Longrightarrow> Q2 (dsp_calc_ea e s)"
  unfolding dsp_calc_ea_def Let_def by (intro inv | assumption)+

lemma dsp_pm_read_accu24_inv [inv]: "(\<And>v s. P s \<Longrightarrow> P (dest v s)) \<Longrightarrow> P s \<Longrightarrow> Q1 (dsp_pm_read_accu24 n dest s)"
  unfolding dsp_pm_read_accu24_def by (intro inv | assumption)+

lemma pm_accu_src_inv [inv]: "P s \<Longrightarrow> Q1 (pm_accu_src n i s)"
  unfolding pm_accu_src_def by (intro inv | assumption)+

lemma dsp_pm_writereg_inv [inv]: "P s \<Longrightarrow> P (dsp_pm_writereg n p s)"
  unfolding dsp_pm_writereg_def by (intro inv | assumption)+

lemma pm_load_inv [inv]: "P s \<Longrightarrow> P (pm_load i n v s)"
  unfolding pm_load_def by (intro inv | assumption)+

lemma pm_to_mem_inv [inv]: "P s \<Longrightarrow> P (pm_to_mem i m a s)"
  unfolding pm_to_mem_def by (intro inv | assumption)+

lemma pm_store_inv [inv]: "P s \<Longrightarrow> P (pm_store i n m a s)"
  unfolding pm_store_def by (intro inv | assumption)+

lemma dsp_pm_0_inv [inv]: "P s \<Longrightarrow> P (dsp_pm_0 s)"
  unfolding dsp_pm_0_def by (intro inv | assumption)+

lemma dsp_pm_1_inv [inv]: "P s \<Longrightarrow> P (dsp_pm_1 s)"
  unfolding dsp_pm_1_def by (intro inv | assumption)+

lemma dsp_pm_2_2_inv [inv]: "P s \<Longrightarrow> P (dsp_pm_2_2 s)"
  unfolding dsp_pm_2_2_def by (intro inv | assumption)+

lemma dsp_pm_3_inv [inv]: "P s \<Longrightarrow> P (dsp_pm_3 s)"
  unfolding dsp_pm_3_def by (intro inv | assumption)+

lemma dsp_pm_2_inv [inv]: "P s \<Longrightarrow> P (dsp_pm_2 s)"
  unfolding dsp_pm_2_def by (intro inv | assumption)+

lemma dsp_pm_4x_inv [inv]: "P s \<Longrightarrow> P (dsp_pm_4x a s)"
  unfolding dsp_pm_4x_def by (intro inv | assumption)+

lemma dsp_pm_5_inv [inv]: "P s \<Longrightarrow> P (dsp_pm_5 s)"
  unfolding dsp_pm_5_def by (intro inv | assumption)+

lemma dsp_pm_4_inv [inv]: "P s \<Longrightarrow> P (dsp_pm_4 s)"
  unfolding dsp_pm_4_def by (intro inv | assumption)+

lemma dsp_pm_8_inv [inv]: "P s \<Longrightarrow> P (dsp_pm_8 s)"
  unfolding dsp_pm_8_def by (intro inv | assumption)+

lemma opcodes_parmove_inv: "list_all (\<lambda>f. \<forall>s. P s \<longrightarrow> P (f s)) opcodes_parmove" "length opcodes_parmove = 16"
  unfolding opcodes_parmove_def by (simp_all add: inv)

lemma ibits_lt: "k = 2 ^ w \<Longrightarrow> w < 32 \<Longrightarrow> unat (ibits n w s) < k"
  unfolding ibits_def BITMASK_mask take_bit_eq_mask [symmetric] by (simp only: unat_take_bit_less)

lemma dsp_parmove_read_inv [inv]: "P s \<Longrightarrow> P (dsp_parmove_read s)"
  unfolding dsp_parmove_read_def Let_def
  by (intro inv opcodes_parmove_inv | assumption | simp add: opcodes_parmove_inv ibits_lt)+

lemma pm_write_one_inv [inv]: "P s \<Longrightarrow> P (pm_write_one i j s)"
  unfolding pm_write_one_def by (auto intro: inv split: parmove_dest_u.split)

lemma dsp_parmove_write_inv [inv]: "P s \<Longrightarrow> P (dsp_parmove_write s)"
  unfolding dsp_parmove_write_def by (intro inv | assumption)+

text \<open>Arithmetic and logic.\<close>

lemma set_accu_inv [inv]: "P s \<Longrightarrow> P (set_accu n d s)"
  unfolding set_accu_def by (cases d) (simp, (intro inv | assumption)+)

lemma ccr_acc_inv [inv]: "P s \<Longrightarrow> P (ccr_acc d s)"
  unfolding ccr_acc_def by (cases d) (simp, (intro inv | assumption)+)

lemma alu_finish_inv [inv]: "P s \<Longrightarrow> P (alu_finish n d v s)"
  unfolding alu_finish_def by (intro inv | assumption)+

lemma dsp_abs_inv [inv]: "P s \<Longrightarrow> P (dsp_abs s)"
  unfolding dsp_abs_def by (intro inv | assumption)+

lemma dsp_adc_inv [inv]: "P s \<Longrightarrow> P (dsp_adc s)"
  unfolding dsp_adc_def by (intro inv | assumption)+

lemma dsp_add_inv [inv]: "P s \<Longrightarrow> P (dsp_add s)"
  unfolding dsp_add_def by (intro inv | assumption)+

lemma dsp_addl_inv [inv]: "P s \<Longrightarrow> P (dsp_addl s)"
  unfolding dsp_addl_def by (intro inv | assumption)+

lemma dsp_addr_inv [inv]: "P s \<Longrightarrow> P (dsp_addr s)"
  unfolding dsp_addr_def by (intro inv | assumption)+

lemma flag_n_inv [inv]: "P s \<Longrightarrow> P (flag_n r s)"
  unfolding flag_n_def by (intro inv | assumption)+

lemma flag_z_inv [inv]: "P s \<Longrightarrow> P (flag_z r s)"
  unfolding flag_z_def by (intro inv | assumption)+

lemma logic_finish_inv [inv]: "P s \<Longrightarrow> P (logic_finish r s)"
  unfolding logic_finish_def by (intro inv | assumption)+

lemma dsp_and_inv [inv]: "P s \<Longrightarrow> P (dsp_and s)"
  unfolding dsp_and_def by (intro inv | assumption)+

lemma dsp_asl_inv [inv]: "P s \<Longrightarrow> P (dsp_asl s)"
  unfolding dsp_asl_def by (intro inv | assumption)+

lemma dsp_asr_inv [inv]: "P s \<Longrightarrow> P (dsp_asr s)"
  unfolding dsp_asr_def by (intro inv | assumption)+

lemma dsp_clr_inv [inv]: "P s \<Longrightarrow> P (dsp_clr s)"
  unfolding dsp_clr_def by (intro inv | assumption)+

lemma cmp_finish_inv [inv]: "P s \<Longrightarrow> P (cmp_finish d v s)"
  unfolding cmp_finish_def by (intro inv | assumption)+

lemma dsp_cmp_inv [inv]: "P s \<Longrightarrow> P (dsp_cmp s)"
  unfolding dsp_cmp_def by (intro inv | assumption)+

lemma dsp_cmpm_inv [inv]: "P s \<Longrightarrow> P (dsp_cmpm s)"
  unfolding dsp_cmpm_def by (intro inv | assumption)+

lemma dsp_eor_inv [inv]: "P s \<Longrightarrow> P (dsp_eor s)"
  unfolding dsp_eor_def by (intro inv | assumption)+

lemma dsp_lsl_inv [inv]: "P s \<Longrightarrow> P (dsp_lsl s)"
  unfolding dsp_lsl_def by (intro inv | assumption)+

lemma dsp_lsr_inv [inv]: "P s \<Longrightarrow> P (dsp_lsr s)"
  unfolding dsp_lsr_def by (intro inv | assumption)+

lemma mac_finish_inv [inv]: "P s \<Longrightarrow> P (mac_finish n d v s)"
  unfolding mac_finish_def by (intro inv | assumption)+

lemma dsp_mac_inv [inv]: "P s \<Longrightarrow> P (dsp_mac s)"
  unfolding dsp_mac_def by (intro inv | assumption)+

lemma dsp_macr_inv [inv]: "P s \<Longrightarrow> P (dsp_macr s)"
  unfolding dsp_macr_def by (intro inv | assumption)+

lemma dsp_move_inv [inv]: "P s \<Longrightarrow> P (dsp_move s)"
  unfolding dsp_move_def by (intro inv | assumption)+

lemma dsp_move_pm_inv [inv]: "P s \<Longrightarrow> P (dsp_move_pm s)"
  unfolding dsp_move_pm_def by (intro inv | assumption)+

lemma dsp_mpy_inv [inv]: "P s \<Longrightarrow> P (dsp_mpy s)"
  unfolding dsp_mpy_def by (intro inv | assumption)+

lemma dsp_mpyr_inv [inv]: "P s \<Longrightarrow> P (dsp_mpyr s)"
  unfolding dsp_mpyr_def by (intro inv | assumption)+

lemma dsp_neg_inv [inv]: "P s \<Longrightarrow> P (dsp_neg s)"
  unfolding dsp_neg_def by (intro inv | assumption)+

lemma dsp_nop_inv [inv]: "P s \<Longrightarrow> P (dsp_nop s)"
  unfolding dsp_nop_def by (intro inv | assumption)+

lemma dsp_not_inv [inv]: "P s \<Longrightarrow> P (dsp_not s)"
  unfolding dsp_not_def by (intro inv | assumption)+

lemma dsp_or_inv [inv]: "P s \<Longrightarrow> P (dsp_or s)"
  unfolding dsp_or_def by (intro inv | assumption)+

lemma dsp_rnd_inv [inv]: "P s \<Longrightarrow> P (dsp_rnd s)"
  unfolding dsp_rnd_def by (intro inv | assumption)+

lemma dsp_rol_inv [inv]: "P s \<Longrightarrow> P (dsp_rol s)"
  unfolding dsp_rol_def by (intro inv | assumption)+

lemma dsp_ror_inv [inv]: "P s \<Longrightarrow> P (dsp_ror s)"
  unfolding dsp_ror_def by (intro inv | assumption)+

lemma dsp_sbc_inv [inv]: "P s \<Longrightarrow> P (dsp_sbc s)"
  unfolding dsp_sbc_def by (intro inv | assumption)+

lemma dsp_sub_inv [inv]: "P s \<Longrightarrow> P (dsp_sub s)"
  unfolding dsp_sub_def by (intro inv | assumption)+

lemma dsp_subl_inv [inv]: "P s \<Longrightarrow> P (dsp_subl s)"
  unfolding dsp_subl_def by (intro inv | assumption)+

lemma dsp_subr_inv [inv]: "P s \<Longrightarrow> P (dsp_subr s)"
  unfolding dsp_subr_def by (intro inv | assumption)+

lemma dsp_tfr_inv [inv]: "P s \<Longrightarrow> P (dsp_tfr s)"
  unfolding dsp_tfr_def by (intro inv | assumption)+

lemma dsp_tst_inv [inv]: "P s \<Longrightarrow> P (dsp_tst s)"
  unfolding dsp_tst_def by (intro inv | assumption)+

text \<open>Control instructions.\<close>

lemma dsp_undefined_inv [inv]: "P s \<Longrightarrow> P (dsp_undefined s)"
  unfolding dsp_undefined_def by (intro inv | assumption)+

lemma dsp_andi_inv [inv]: "P s \<Longrightarrow> P (dsp_andi s)"
  unfolding dsp_andi_def by (intro inv | assumption)+

lemma set_carry_inv [inv]: "P s \<Longrightarrow> P (set_carry c s)"
  unfolding set_carry_def by (intro inv | assumption)+

lemma bit_op_inv [inv]: "P s \<Longrightarrow> P (bit_op f g s)"
  unfolding bit_op_def Let_def by (intro inv | assumption)+

lemma dsp_bchg_inv [inv]: "P s \<Longrightarrow> P (dsp_bchg s)"
  unfolding dsp_bchg_def by (intro inv | assumption)+

lemma dsp_bclr_inv [inv]: "P s \<Longrightarrow> P (dsp_bclr s)"
  unfolding dsp_bclr_def by (intro inv | assumption)+

lemma dsp_bset_inv [inv]: "P s \<Longrightarrow> P (dsp_bset s)"
  unfolding dsp_bset_def by (intro inv | assumption)+

lemma bit_operand_inv [inv]: "P s \<Longrightarrow> Q2 (bit_operand s)"
  unfolding bit_operand_def Let_def by (intro inv | assumption)+

lemma dsp_btst_inv [inv]: "P s \<Longrightarrow> P (dsp_btst s)"
  unfolding dsp_btst_def by (intro inv | assumption)+

lemma dsp_div_inv [inv]: "P s \<Longrightarrow> P (dsp_div s)"
  unfolding dsp_div_def by (intro inv | assumption)+

lemma set_lc_inv [inv]: "P s \<Longrightarrow> P (set_lc v s)"
  unfolding set_lc_def by (intro inv | assumption)+

lemma dsp_do_aa_inv [inv]: "P s \<Longrightarrow> P (dsp_do_aa s)"
  unfolding dsp_do_aa_def by (intro inv | assumption)+

lemma dsp_do_imm_inv [inv]: "P s \<Longrightarrow> P (dsp_do_imm s)"
  unfolding dsp_do_imm_def by (intro inv | assumption)+

lemma dsp_do_ea_inv [inv]: "P s \<Longrightarrow> P (dsp_do_ea s)"
  unfolding dsp_do_ea_def by (intro inv | assumption)+

lemma dsp_do_reg_inv [inv]: "P s \<Longrightarrow> P (dsp_do_reg s)"
  unfolding dsp_do_reg_def by (intro inv | assumption)+

lemma opcodes_do_inv: "list_all (\<lambda>f. \<forall>s. P s \<longrightarrow> P (f s)) opcodes_do" "length opcodes_do = 8"
  unfolding opcodes_do_def by (simp_all add: inv)

lemma or_less: "unat (a :: u32) < 2 ^ n \<Longrightarrow> unat b < 2 ^ n \<Longrightarrow> unat (a OR b) < 2 ^ n"
  unfolding unsigned_or_eq by (metis take_bit_nat_eq_self take_bit_nat_less_exp take_bit_or)

lemma and_small: "unat (m :: u32) < k \<Longrightarrow> unat (w AND m) < k"
  by (metis le_less_trans word_and_le1 word_le_nat_alt)

lemma loop_operand_lt: "unat (loop_operand s) < 8"
proof -
  have "unat (push_bit 1 (ibits 14 2 s)) < 2 ^ 3"
    using ibits_lt [of 4 2 14 s] by (simp add: push_bit_eq_mult unat_word_ariths)
  then show ?thesis unfolding loop_operand_def
    using or_less [of _ 3] and_small [of 1 8] by (simp add: word_less_nat_alt)
qed

lemma movec_selector_lt: "unat ((drop_bit 14 w AND 5) OR (drop_bit 6 w AND 2) :: u32) < 8"
  using or_less [of "drop_bit 14 w AND 5" 3 "drop_bit 6 w AND 2"] and_small [of 5 8] and_small [of 2 8] by simp

lemma dsp_do_inv [inv]: "P s \<Longrightarrow> P (dsp_do s)"
  unfolding dsp_do_def Let_def
  by (intro inv opcodes_do_inv(1) | assumption | simp add: opcodes_do_inv(2) loop_operand_lt)+

lemma pop_loop_inv [inv]: "P s \<Longrightarrow> P (pop_loop s)"
  unfolding pop_loop_def by (intro inv | assumption)+

lemma dsp_enddo_inv [inv]: "P s \<Longrightarrow> P (dsp_enddo s)"
  unfolding dsp_enddo_def by (intro inv | assumption)+

lemma dsp_illegal_inv [inv]: "P s \<Longrightarrow> P (dsp_illegal s)"
  unfolding dsp_illegal_def by (intro inv | assumption)+

lemma jump_to_inv [inv]: "P s \<Longrightarrow> P (jump_to v s)"
  unfolding jump_to_def by (intro inv | assumption)+

lemma dsp_jcc_inv [inv]: "P s \<Longrightarrow> P (dsp_jcc s)"
  unfolding dsp_jcc_def by (intro inv | assumption)+

lemma dsp_jclr_inv [inv]: "P s \<Longrightarrow> P (dsp_jclr s)"
  unfolding dsp_jclr_def by (intro inv | assumption)+

lemma dsp_jmp_inv [inv]: "P s \<Longrightarrow> P (dsp_jmp s)"
  unfolding dsp_jmp_def by (intro inv | assumption)+

lemma dsp_jscc_inv [inv]: "P s \<Longrightarrow> P (dsp_jscc s)"
  unfolding dsp_jscc_def by (intro inv | assumption)+

lemma call_ext_inv [inv]: "P s \<Longrightarrow> P (call_ext s)"
  unfolding call_ext_def by (intro inv | assumption)+

lemma dsp_jsclr_inv [inv]: "P s \<Longrightarrow> P (dsp_jsclr s)"
  unfolding dsp_jsclr_def by (intro inv | assumption)+

lemma dsp_jset_inv [inv]: "P s \<Longrightarrow> P (dsp_jset s)"
  unfolding dsp_jset_def by (intro inv | assumption)+

lemma dsp_jsr_inv [inv]: "P s \<Longrightarrow> P (dsp_jsr s)"
  unfolding dsp_jsr_def by (intro inv | assumption)+

lemma dsp_jsset_inv [inv]: "P s \<Longrightarrow> P (dsp_jsset s)"
  unfolding dsp_jsset_def by (intro inv | assumption)+

lemma dsp_lua_inv [inv]: "P s \<Longrightarrow> P (dsp_lua s)"
  unfolding dsp_lua_def by (intro inv | assumption)+

lemma mask_reg_inv [inv]: "P s \<Longrightarrow> P (mask_reg r s)"
  unfolding mask_reg_def by (intro inv | assumption)+

lemma load_accu_inv [inv]: "P s \<Longrightarrow> P (load_accu n v s)"
  unfolding load_accu_def by (intro inv | assumption)+

lemma dsp_movec_reg_inv [inv]: "P s \<Longrightarrow> P (dsp_movec_reg s)"
  unfolding dsp_movec_reg_def by (intro inv | assumption)+

lemma dsp_movec_aa_inv [inv]: "P s \<Longrightarrow> P (dsp_movec_aa s)"
  unfolding dsp_movec_aa_def by (intro inv | assumption)+

lemma dsp_movec_imm_inv [inv]: "P s \<Longrightarrow> P (dsp_movec_imm s)"
  unfolding dsp_movec_imm_def by (intro inv | assumption)+

lemma dsp_movec_ea_inv [inv]: "P s \<Longrightarrow> P (dsp_movec_ea s)"
  unfolding dsp_movec_ea_def by (intro inv | assumption)+

lemma opcodes_movec_inv: "list_all (\<lambda>f. \<forall>s. P s \<longrightarrow> P (f s)) opcodes_movec" "length opcodes_movec = 8"
  unfolding opcodes_movec_def by (simp_all add: inv)

lemma dsp_movec_inv [inv]: "P s \<Longrightarrow> P (dsp_movec s)"
  unfolding dsp_movec_def Let_def
  by (intro inv opcodes_movec_inv(1) | assumption | simp add: opcodes_movec_inv(2) movec_selector_lt)+

lemma move_source_inv [inv]: "P s \<Longrightarrow> Q1 (move_source n s)"
  unfolding move_source_def by (intro inv | assumption)+

lemma move_dest_inv [inv]: "P s \<Longrightarrow> P (move_dest n v s)"
  unfolding move_dest_def by (intro inv | assumption)+

lemma dsp_movem_inv [inv]: "P s \<Longrightarrow> P (dsp_movem s)"
  unfolding dsp_movem_def by (intro inv | assumption)+

lemma dsp_movep_0_inv [inv]: "P s \<Longrightarrow> P (dsp_movep_0 s)"
  unfolding dsp_movep_0_def by (intro inv | assumption)+

lemma dsp_movep_1_inv [inv]: "P s \<Longrightarrow> P (dsp_movep_1 s)"
  unfolding dsp_movep_1_def by (intro inv | assumption)+

lemma dsp_movep_2_inv [inv]: "P s \<Longrightarrow> P (dsp_movep_2 s)"
  unfolding dsp_movep_2_def by (intro inv | assumption)+

lemma opcodes_movep_inv: "list_all (\<lambda>f. \<forall>s. P s \<longrightarrow> P (f s)) opcodes_movep" "length opcodes_movep = 4"
  unfolding opcodes_movep_def by (simp_all add: inv)

lemma dsp_movep_inv [inv]: "P s \<Longrightarrow> P (dsp_movep s)"
  unfolding dsp_movep_def Let_def
  by (intro inv opcodes_movep_inv(1) | assumption | simp add: opcodes_movep_inv(2) ibits_lt)+

lemma dsp_norm_inv [inv]: "P s \<Longrightarrow> P (dsp_norm s)"
  unfolding dsp_norm_def by (intro inv | assumption)+

lemma dsp_ori_inv [inv]: "P s \<Longrightarrow> P (dsp_ori s)"
  unfolding dsp_ori_def by (intro inv | assumption)+

lemma dsp_rep_aa_inv [inv]: "P s \<Longrightarrow> P (dsp_rep_aa s)"
  unfolding dsp_rep_aa_def by (intro inv | assumption)+

lemma dsp_rep_imm_inv [inv]: "P s \<Longrightarrow> P (dsp_rep_imm s)"
  unfolding dsp_rep_imm_def by (intro inv | assumption)+

lemma dsp_rep_ea_inv [inv]: "P s \<Longrightarrow> P (dsp_rep_ea s)"
  unfolding dsp_rep_ea_def by (intro inv | assumption)+

lemma dsp_rep_reg_inv [inv]: "P s \<Longrightarrow> P (dsp_rep_reg s)"
  unfolding dsp_rep_reg_def by (intro inv | assumption)+

lemma opcodes_rep_inv: "list_all (\<lambda>f. \<forall>s. P s \<longrightarrow> P (f s)) opcodes_rep" "length opcodes_rep = 8"
  unfolding opcodes_rep_def by (simp_all add: inv)

lemma dsp_rep_inv [inv]: "P s \<Longrightarrow> P (dsp_rep s)"
  unfolding dsp_rep_def Let_def
  by (intro inv opcodes_rep_inv(1) | assumption | simp add: opcodes_rep_inv(2) loop_operand_lt)+

lemma dsp_reset_inv [inv]: "P s \<Longrightarrow> P (dsp_reset s)"
  unfolding dsp_reset_def by (intro inv | assumption)+

lemma dsp_rti_inv [inv]: "P s \<Longrightarrow> P (dsp_rti s)"
  unfolding dsp_rti_def by (intro inv | assumption)+

lemma dsp_rts_inv [inv]: "P s \<Longrightarrow> P (dsp_rts s)"
  unfolding dsp_rts_def by (intro inv | assumption)+

lemma dsp_stop_inv [inv]: "P s \<Longrightarrow> P (dsp_stop s)"
  unfolding dsp_stop_def by (intro inv | assumption)+

lemma dsp_swi_inv [inv]: "P s \<Longrightarrow> P (dsp_swi s)"
  unfolding dsp_swi_def by (intro inv | assumption)+

lemma dsp_tcc_inv [inv]: "P s \<Longrightarrow> P (dsp_tcc s)"
  unfolding dsp_tcc_def by (intro inv | assumption)+

lemma dsp_wait_inv [inv]: "P s \<Longrightarrow> P (dsp_wait s)"
  unfolding dsp_wait_def by (intro inv | assumption)+

text \<open>Dispatch, interrupts and the execution loops.\<close>

lemma opcode8h_0_inv [inv]: "P s \<Longrightarrow> P (opcode8h_0 s)"
  unfolding opcode8h_0_def by (intro inv | assumption)+

lemma opcode8h_1_inv [inv]: "P s \<Longrightarrow> P (opcode8h_1 s)"
  unfolding opcode8h_1_def by (intro inv | assumption)+

lemma opcode8h_4_inv [inv]: "P s \<Longrightarrow> P (opcode8h_4 s)"
  unfolding opcode8h_4_def by (intro inv | assumption)+

lemma opcode8h_6_inv [inv]: "P s \<Longrightarrow> P (opcode8h_6 s)"
  unfolding opcode8h_6_def by (intro inv | assumption)+

lemma opcodes_0809_inv: "list_all (\<lambda>f. \<forall>s. P s \<longrightarrow> P (f s)) opcodes_0809" "length opcodes_0809 = 16"
  unfolding opcodes_0809_def by (simp_all add: inv)

lemma opcodes_0a_inv: "list_all (\<lambda>f. \<forall>s. P s \<longrightarrow> P (f s)) opcodes_0a" "length opcodes_0a = 32"
  unfolding opcodes_0a_def by (simp_all add: inv)

lemma opcodes_0b_inv: "list_all (\<lambda>f. \<forall>s. P s \<longrightarrow> P (f s)) opcodes_0b" "length opcodes_0b = 32"
  unfolding opcodes_0b_def by (simp_all add: inv)

lemma bit_selector_lt: "unat (bit_selector w) < 32"
  using or_less [of "drop_bit 11 w AND push_bit 3 (BITMASK 2)" 5 "drop_bit 5 w AND BITMASK 3"]
    and_small [of "push_bit 3 (BITMASK 2)" 32] and_small [of "BITMASK 3" 32]
  by (simp add: bit_selector_def BITMASK_def)

lemma opcode8h_8_inv [inv]: "P s \<Longrightarrow> P (opcode8h_8 s)"
  unfolding opcode8h_8_def Let_def
  by (intro inv opcodes_0809_inv(1) | assumption | simp add: opcodes_0809_inv(2) ibits_lt)+

lemma opcode8h_a_inv [inv]: "P s \<Longrightarrow> P (opcode8h_a s)"
  unfolding opcode8h_a_def Let_def
  by (intro inv opcodes_0a_inv(1) | assumption | simp add: opcodes_0a_inv(2) bit_selector_lt)+

lemma opcode8h_b_inv [inv]: "P s \<Longrightarrow> P (opcode8h_b s)"
  unfolding opcode8h_b_def Let_def
  by (intro inv opcodes_0b_inv(1) | assumption | simp add: opcodes_0b_inv(2) bit_selector_lt)+

lemma opcodes8h_inv: "list_all (\<lambda>f. \<forall>s. P s \<longrightarrow> P (f s)) opcodes8h" "length opcodes8h = 16"
  unfolding opcodes8h_def by (simp_all add: inv)

lemma opcodes_alu003f_inv: "list_all (\<lambda>f. \<forall>s. P s \<longrightarrow> P (f s)) opcodes_alu003f" "length opcodes_alu003f = 64"
  unfolding opcodes_alu003f_def by (simp_all add: inv)

lemma opcodes_alu407f_inv: "list_all (\<lambda>f. \<forall>s. P s \<longrightarrow> P (f s)) opcodes_alu407f" "length opcodes_alu407f = 16"
  unfolding opcodes_alu407f_def by (simp_all add: inv)

lemma opcodes_alu80ff_inv: "list_all (\<lambda>f. \<forall>s. P s \<longrightarrow> P (f s)) opcodes_alu80ff" "length opcodes_alu80ff = 4"
  unfolding opcodes_alu80ff_def by (simp_all add: inv)

lemma update_pc_rep_inv [inv]: "P s \<Longrightarrow> P (update_pc_rep s)"
  unfolding update_pc_rep_def by (intro inv | assumption)+

lemma update_pc_do_inv [inv]: "P s \<Longrightarrow> P (update_pc_do s)"
  unfolding update_pc_do_def by (intro inv | assumption)+

lemma dsp_postexecute_update_pc_inv [inv]: "P s \<Longrightarrow> P (dsp_postexecute_update_pc s)"
  unfolding dsp_postexecute_update_pc_def by (intro inv | assumption)+

lemma dsp_hi_interrupts_inv [inv]: "P s \<Longrightarrow> Q1 (dsp_hi_interrupts s)"
  unfolding dsp_hi_interrupts_def by (intro inv | assumption)+

lemma dsp_ssi_interrupts_inv [inv]: "P s \<Longrightarrow> Q1 (dsp_ssi_interrupts s)"
  unfolding dsp_ssi_interrupts_def by (intro inv | assumption)+

lemma periph_interrupts_inv [inv]: "P s \<Longrightarrow> Q1 (periph_interrupts l s)"
  unfolding periph_interrupts_def by (intro inv | assumption)+

lemma raise_interrupt_inv [inv]: "P s \<Longrightarrow> P (raise_interrupt l s)"
  unfolding raise_interrupt_def by (intro inv | assumption)+

lemma dsp_postexecute_interrupts_inv [inv]: "P s \<Longrightarrow> P (dsp_postexecute_interrupts s)"
  unfolding dsp_postexecute_interrupts_def by (intro inv | assumption)+

lemma execute_alu_inv [inv]:
  assumes "P s"
  shows "P (execute_alu s)"
proof -
  have "unat (ibits 0 8 s) < 64" if "ibits 0 8 s < 0x40" using that by (simp add: word_less_nat_alt)
  moreover have "unat (v AND BITMASK 4) < 16" "unat (v AND BITMASK 2) < 4" for v
    by (rule and_small; simp add: BITMASK_def)+
  ultimately show ?thesis
    unfolding execute_alu_def Let_def using assms
    by (auto intro!: table simp: opcodes_alu003f_inv opcodes_alu407f_inv opcodes_alu80ff_inv)
qed

lemma dsp56k_execute_instruction_inv [inv]:
  assumes "P s"
  shows "P (dsp56k_execute_instruction s)"
proof -
  have o: "P (if v < 0x10 \<and> c then (opcodes8h ! unat v) t else dsp_parmove_write (execute_alu (dsp_parmove_read t)))"
    if "P t" for v :: u32 and c t
    using that by (auto intro: inv simp: opcodes8h_inv word_less_nat_alt)
  show ?thesis unfolding dsp56k_execute_instruction_def by (intro inv o | rule assms | assumption)+
qed

lemma exec_insts_inv: "P s \<Longrightarrow> exec_insts n s = Inr t \<Longrightarrow> P t"
  by (induction n arbitrary: s) (auto dest: dsp56k_execute_instruction_inv split: option.splits if_splits)

lemma exec_thread_loop_inv: "P s \<Longrightarrow> exec_thread_loop n s = Some t \<Longrightarrow> P t"
  by (induction n arbitrary: s) (auto dest: dsp56k_execute_instruction_inv split: if_splits)

lemma exec_thread_inv: "P s \<Longrightarrow> dsp56k_exec_thread n s = Some t \<Longrightarrow> P t"
  unfolding dsp56k_exec_thread_def by (erule exec_thread_loop_inv [rotated]) (intro inv, assumption)

lemma shutdown_inv [inv]: "P s \<Longrightarrow> P (dsp_core_shutdown s)"
  unfolding dsp_core_shutdown_def by (intro inv | assumption)+

lemma reset_inv [inv]: "P s \<Longrightarrow> P (dsp_core_reset s)"
  unfolding dsp_core_reset_def by (intro inv | assumption)+

lemma reachable_inv: "machine_reach s t \<Longrightarrow> P s \<Longrightarrow> P t"
  by (induction rule: machine_reach.induct) (auto intro: inv)

end

section \<open>Invariants of the machine\<close>





interpretation faulted: state_inv "\<lambda>s. fault s = Some e" for e
  by unfold_locales (simp_all add: storage_def raise_fault_def)

text \<open>The first error stays: what happens after it does not change the diagnosis.\<close>

lemma fault_sticky: "machine_reach s t \<Longrightarrow> fault s = Some e \<Longrightarrow> fault t = Some e"
  by (rule faulted.reachable_inv)




end
