(* ===== verification/Mfp.thy ===== *)
theory Mfp
  imports Dsp_Prelude
begin

text \<open>
  The MFP 68901 (\<open>src/src/mfp.cpp\<close>, \<open>src/src/include/mfp.h\<close>): four timers, the general purpose
  port and the interrupt controller. \<open>TriggerMFP\<close> sets or clears the flag the CPU polls; the
  flag is the field \<open>spcflag_mfp\<close> of the state. The busy line of the parallel port is an argument of
  \<open>handleRead\<close>. The member \<open>usart\<close> is never used by the code.
\<close>

section \<open>Timers\<close>

record MFP_Timer =
  tm_control :: u8
  start_data :: u8
  current_data :: u8
  tm_state :: bool

definition timer_reset :: "MFP_Timer \<Rightarrow> MFP_Timer" where
  "timer_reset t = t\<lparr>tm_control := 0, start_data := 0, current_data := 0, tm_state := False\<rparr>"

definition isRunning :: "MFP_Timer \<Rightarrow> bool" where
  "isRunning t \<longleftrightarrow> tm_control t AND 0x0f > 0"

definition setControl :: "u8 \<Rightarrow> MFP_Timer \<Rightarrow> MFP_Timer" where
  "setControl value t =
     (let t = t\<lparr>tm_control := value AND 0x0f\<rparr>
      in if value AND 0x10 \<noteq> 0 then t\<lparr>tm_state := False\<rparr> else t)"

definition getControl :: "MFP_Timer \<Rightarrow> u8" where
  "getControl t = tm_control t OR push_bit 5 (if tm_state t then 1 else 0)"

definition setData :: "u8 \<Rightarrow> MFP_Timer \<Rightarrow> MFP_Timer" where
  "setData value t =
     (let t = t\<lparr>start_data := value\<rparr>
      in if \<not> isRunning t then t\<lparr>current_data := value\<rparr> else t)"

definition resetCounter :: "MFP_Timer \<Rightarrow> MFP_Timer" where
  "resetCounter t =
     (if isRunning t then t\<lparr>tm_state := True, current_data := start_data t\<rparr> else t)"

definition getData :: "MFP_Timer \<Rightarrow> u8 \<times> MFP_Timer" where
  "getData t =
     (let t = (if isRunning t \<and> current_data t > 2 then t\<lparr>current_data := current_data t - 1\<rparr> else t)
      in (current_data t, t))"

definition MFP_FREQ :: nat where
  "MFP_FREQ = 2457600"

definition compute_timer_freq :: "MFP_Timer \<Rightarrow> nat" where
  "compute_timer_freq t =
     (let freq = (if tm_control t = 1 then MFP_FREQ div 4
                  else if tm_control t = 2 then MFP_FREQ div 10
                  else if tm_control t = 3 then MFP_FREQ div 16
                  else if tm_control t = 4 then MFP_FREQ div 50
                  else if tm_control t = 5 then MFP_FREQ div 64
                  else if tm_control t = 6 then MFP_FREQ div 100
                  else if tm_control t = 7 then MFP_FREQ div 200
                  else MFP_FREQ div 64)
      in if start_data t \<noteq> 0 then freq div unat (start_data t) else freq div 192)"

section \<open>State of the MFP\<close>

record MFP =
  mfp_input :: u8
  GPIP_data :: u8
  active_edge :: u8
  data_direction :: u8
  irq_enable :: u16
  irq_pending :: u16
  irq_inservice :: u16
  irq_mask :: u16
  timer_A :: MFP_Timer
  timer_B :: MFP_Timer
  timer_C :: MFP_Timer
  timer_D :: MFP_Timer
  timerCounter :: int
  vr :: u32
  spcflag_mfp :: bool

definition TriggerMFP :: "bool \<Rightarrow> MFP \<Rightarrow> MFP" where
  "TriggerMFP enable m = (if enable then m\<lparr>spcflag_mfp := True\<rparr> else m\<lparr>spcflag_mfp := False\<rparr>)"

abbreviation (input) MFP_VR_VECTOR :: u32 where "MFP_VR_VECTOR \<equiv> 0xF0"
abbreviation (input) MFP_VR_SEI :: u32 where "MFP_VR_SEI \<equiv> 0x08"

definition mfp_reset :: "MFP \<Rightarrow> MFP" where
  "mfp_reset m =
     (let m = m\<lparr>mfp_input := 0xff\<rparr>;
          m = m\<lparr>GPIP_data := mfp_input m\<rparr>;
          m = m\<lparr>vr := 0x0100, active_edge := 0, data_direction := 0, irq_enable := 0, irq_pending := 0,
                irq_inservice := 0, irq_mask := 0, timerCounter := 0\<rparr>
      in m\<lparr>timer_A := timer_reset (timer_A m), timer_B := timer_reset (timer_B m),
            timer_C := timer_reset (timer_C m), timer_D := timer_reset (timer_D m)\<rparr>)"

section \<open>Interrupt requests\<close>

definition irq_bit :: "nat \<Rightarrow> u16" where
  "irq_bit int_level = push_bit int_level 1"

definition IRQ :: "nat \<Rightarrow> int \<Rightarrow> MFP \<Rightarrow> MFP" where
  "IRQ int_level count m =
     (let i = irq_bit int_level;
          m = (if int_level = 5 then m\<lparr>timer_C := resetCounter (timer_C m)\<rparr> else m)
      in if irq_enable m AND i = 0 then m
         else
           (let m = (if int_level = 5 then m\<lparr>timerCounter := timerCounter m + count\<rparr> else m)
            in if irq_pending m AND i \<noteq> 0 then m
               else
                 (let m = m\<lparr>irq_pending := irq_pending m OR i\<rparr>
                  in if irq_mask m AND i = 0 then m
                     else if irq_inservice m > i then m
                     else TriggerMFP True m)))"

definition map_gpip_to_ier :: "nat list" where
  "map_gpip_to_ier = [0, 1, 2, 3, 6, 7, 14, 15]"

definition set_active_edge :: "u8 \<Rightarrow> MFP \<Rightarrow> MFP" where
  "set_active_edge value m =
     (let m = fold (\<lambda>j m. let i = push_bit j 1 in
                if active_edge m AND i \<noteq> value AND i \<and> data_direction m AND i = 0
                   \<and> active_edge m AND i \<noteq> mfp_input m AND i
                then IRQ (map_gpip_to_ier ! j) 1 m else m) [0..<8] m
      in m\<lparr>active_edge := value\<rparr>)"

definition setGPIPbit :: "u8 \<Rightarrow> u8 \<Rightarrow> MFP \<Rightarrow> MFP" where
  "setGPIPbit msk value m =
     (let oldGPIP = GPIP_data m;
          m = m\<lparr>mfp_input := mfp_input m AND NOT msk\<rparr>;
          m = m\<lparr>mfp_input := mfp_input m OR (value AND msk)\<rparr>;
          msk = msk AND NOT (data_direction m);
          m = m\<lparr>GPIP_data := GPIP_data m AND NOT msk\<rparr>;
          m = m\<lparr>GPIP_data := GPIP_data m OR (value AND msk)\<rparr>
      in fold (\<lambda>j m. let i = push_bit j 1 in
           if oldGPIP AND i \<noteq> GPIP_data m AND i then
             (if active_edge m AND i \<noteq> 0 then
                (if oldGPIP AND i \<noteq> 0 then m else IRQ (map_gpip_to_ier ! j) 1 m)
              else
                (if GPIP_data m AND i \<noteq> 0 then m else IRQ (map_gpip_to_ier ! j) 1 m))
           else m) [0..<8] m)"

text \<open>The search of \<open>doInterrupt\<close>: the highest level below the argument that is pending and not masked.\<close>

primrec irq_scan :: "nat \<Rightarrow> MFP \<Rightarrow> nat option" where
  "irq_scan 0 m = None"
| "irq_scan (Suc j) m = (if irq_pending m AND irq_bit j AND irq_mask m \<noteq> 0 then Some j else irq_scan j m)"

definition doInterrupt :: "MFP \<Rightarrow> u32 \<times> MFP" where
  "doInterrupt m =
     (case irq_scan 16 m of
        None \<Rightarrow> (0, TriggerMFP False m)
      | Some j \<Rightarrow>
          (let i = irq_bit j
           in if irq_inservice m \<ge> i then (0, TriggerMFP False m)
              else
                (let vector = (vr m AND MFP_VR_VECTOR) + of_nat j;
                     m = (if j = 5 then m\<lparr>timerCounter := timerCounter m - 1\<rparr> else m);
                     m = (if j \<noteq> 5 \<or> timerCounter m \<le> 0
                          then TriggerMFP False (m\<lparr>irq_pending := irq_pending m AND NOT i\<rparr>) else m);
                     m = (if vr m AND MFP_VR_SEI \<noteq> 0 then m\<lparr>irq_inservice := irq_inservice m OR i\<rparr>
                          else if irq_pending m AND irq_mask m \<noteq> 0 then TriggerMFP True m
                          else m)
                 in (vector, m))))"

definition timerC_ms_ticks :: "MFP \<Rightarrow> nat" where
  "timerC_ms_ticks m = 1000 div compute_timer_freq (timer_C m)"

section \<open>Registers\<close>

abbreviation (input) MFP_offset :: u32 where "MFP_offset \<equiv> 0xfffa00"
abbreviation (input) MFP_size :: u32 where "MFP_size \<equiv> 0x30"

definition mfp_handleRead :: "u8 \<Rightarrow> u32 \<Rightarrow> MFP \<Rightarrow> u8 \<times> MFP" where
  "mfp_handleRead busy addr m =
     (let addr = addr - MFP_offset
      in if addr > MFP_size then (0, m)
         else if addr = 0x01 then ((GPIP_data m AND NOT 0x21) OR busy, m)
         else if addr = 0x03 then (active_edge m, m)
         else if addr = 0x05 then (data_direction m, m)
         else if addr = 0x07 then (ucast (drop_bit 8 (irq_enable m)), m)
         else if addr = 0x09 then (ucast (irq_enable m), m)
         else if addr = 0x0b then (0x20, m)
         else if addr = 0x0d then (ucast (irq_pending m), m)
         else if addr = 0x0f then (ucast (drop_bit 8 (irq_inservice m)), m)
         else if addr = 0x11 then (ucast (irq_inservice m), m)
         else if addr = 0x13 then (ucast (drop_bit 8 (irq_mask m)), m)
         else if addr = 0x15 then (ucast (irq_mask m), m)
         else if addr = 0x17 then (ucast (vr m), m)
         else if addr = 0x19 then (getControl (timer_A m), m)
         else if addr = 0x1b then (getControl (timer_B m), m)
         else if addr = 0x1d then (push_bit 4 (getControl (timer_C m)) OR getControl (timer_D m), m)
         else if addr = 0x1f then (let (v, t) = getData (timer_A m) in (v, m\<lparr>timer_A := t\<rparr>))
         else if addr = 0x21 then (let (v, t) = getData (timer_B m) in (v, m\<lparr>timer_B := t\<rparr>))
         else if addr = 0x23 then (let (v, t) = getData (timer_C m) in (v, m\<lparr>timer_C := t\<rparr>))
         else if addr = 0x25 then (let (v, t) = getData (timer_D m) in (v, m\<lparr>timer_D := t\<rparr>))
         else if addr = 0x2d then (0x80, m)
         else (0, m))"

text \<open>\<open>value << 8\<close> and \<open>value\<close> as halves of a 16-bit register.\<close>

abbreviation (input) hi_byte :: "u8 \<Rightarrow> u16" where "hi_byte value \<equiv> push_bit 8 (ucast value)"
abbreviation (input) lo_byte :: "u8 \<Rightarrow> u16" where "lo_byte value \<equiv> ucast value"

definition deliver :: "MFP \<Rightarrow> MFP" where
  "deliver m = TriggerMFP (irq_pending m AND irq_mask m \<noteq> 0) m"

definition mfp_handleWrite :: "u32 \<Rightarrow> u8 \<Rightarrow> MFP \<Rightarrow> MFP" where
  "mfp_handleWrite addr value m =
     (let addr = addr - MFP_offset
      in if addr > MFP_size then m
         else if addr = 0x01 then
           (let m = m\<lparr>GPIP_data := GPIP_data m AND NOT (data_direction m)\<rparr>
            in m\<lparr>GPIP_data := GPIP_data m OR (value AND data_direction m)\<rparr>)
         else if addr = 0x03 then set_active_edge value m
         else if addr = 0x05 then
           (let m = m\<lparr>data_direction := value\<rparr>;
                m = m\<lparr>GPIP_data := GPIP_data m AND data_direction m\<rparr>
            in m\<lparr>GPIP_data := GPIP_data m OR (mfp_input m AND NOT (data_direction m))\<rparr>)
         else if addr = 0x07 then
           (let m = m\<lparr>irq_enable := (irq_enable m AND 0x00ff) OR hi_byte value\<rparr>
            in m\<lparr>irq_pending := irq_pending m AND irq_enable m\<rparr>)
         else if addr = 0x09 then
           (let m = m\<lparr>irq_enable := (irq_enable m AND 0xff00) OR lo_byte value\<rparr>
            in m\<lparr>irq_pending := irq_pending m AND irq_enable m\<rparr>)
         else if addr = 0x0b then
           (let m = m\<lparr>irq_pending := irq_pending m AND (hi_byte value OR 0xff)\<rparr>
            in if irq_pending m AND irq_mask m = 0 then TriggerMFP False m else m)
         else if addr = 0x0d then
           (let m = m\<lparr>irq_pending := irq_pending m AND (0xff00 OR lo_byte value)\<rparr>
            in if irq_pending m AND irq_mask m = 0 then TriggerMFP False m else m)
         else if addr = 0x0f then
           (let m = m\<lparr>irq_inservice := irq_inservice m AND (hi_byte value OR 0xff)\<rparr>
            in if irq_pending m AND irq_mask m \<noteq> 0 then TriggerMFP True m else m)
         else if addr = 0x11 then
           (let m = m\<lparr>irq_inservice := irq_inservice m AND (0xff00 OR lo_byte value)\<rparr>
            in if irq_pending m AND irq_mask m \<noteq> 0 then TriggerMFP True m else m)
         else if addr = 0x13 then deliver (m\<lparr>irq_mask := (irq_mask m AND 0x00ff) OR hi_byte value\<rparr>)
         else if addr = 0x15 then deliver (m\<lparr>irq_mask := (irq_mask m AND 0xff00) OR lo_byte value\<rparr>)
         else if addr = 0x17 then
           (let m = m\<lparr>vr := ucast value\<rparr>
            in if vr m AND MFP_VR_SEI \<noteq> 0 then m else deliver (m\<lparr>irq_inservice := 0\<rparr>))
         else if addr = 0x19 then m\<lparr>timer_A := setControl value (timer_A m)\<rparr>
         else if addr = 0x1b then m\<lparr>timer_B := setControl value (timer_B m)\<rparr>
         else if addr = 0x1d then
           m\<lparr>timer_C := setControl (drop_bit 4 value) (timer_C m), timer_D := setControl (value AND 0x0f) (timer_D m)\<rparr>
         else if addr = 0x1f then m\<lparr>timer_A := setData value (timer_A m)\<rparr>
         else if addr = 0x21 then m\<lparr>timer_B := setData value (timer_B m)\<rparr>
         else if addr = 0x23 then m\<lparr>timer_C := setData value (timer_C m)\<rparr>
         else if addr = 0x25 then m\<lparr>timer_D := setData value (timer_D m)\<rparr>
         else m)"


section \<open>Properties\<close>

lemma irq_bit_and: "(w AND irq_bit j \<noteq> 0) \<longleftrightarrow> bit w j" "(irq_bit j AND w \<noteq> 0) \<longleftrightarrow> bit w j"
  "(w AND irq_bit j = 0) \<longleftrightarrow> \<not> bit w j"
  unfolding irq_bit_def by (auto simp: bit_iff_and_push_bit_not_eq_0 and.commute)

lemma irq_bit_scan: "(p AND irq_bit j AND q \<noteq> 0) \<longleftrightarrow> bit (p AND q) j"
  using irq_bit_and(1) [of "p AND q" j] by (simp add: ac_simps)

lemma bit_irq_bit: "bit (irq_bit j) n \<longleftrightarrow> n = j \<and> n < 16"
  by (auto simp: irq_bit_def bit_simps)

lemma unat_irq_bit: "j < 16 \<Longrightarrow> unat (irq_bit j) = 2 ^ j"
  using power_strict_increasing [of j 16 "2 :: nat"]
  unfolding irq_bit_def unsigned_push_bit_eq by (simp add: push_bit_nat_eq take_bit_nat_eq_self)

lemma irq_bit_less: "j < k \<Longrightarrow> k < 16 \<Longrightarrow> irq_bit j < irq_bit k"
  by (simp add: word_less_nat_alt unat_irq_bit)

definition waiting :: "MFP \<Rightarrow> nat \<Rightarrow> bool" where
  "waiting m j \<longleftrightarrow> bit (irq_pending m AND irq_mask m) j"

text \<open>A source that is pending, not masked and above every source in service.\<close>

definition deliverable :: "MFP \<Rightarrow> nat \<Rightarrow> bool" where
  "deliverable m j \<longleftrightarrow> waiting m j \<and> irq_inservice m < irq_bit j"

definition mfp_inv :: "MFP \<Rightarrow> bool" where
  "mfp_inv m \<longleftrightarrow> (\<forall>n. bit (irq_pending m) n \<longrightarrow> bit (irq_enable m) n)
     \<and> (vr m AND MFP_VR_SEI = 0 \<longrightarrow> irq_inservice m = 0)
     \<and> GPIP_data m AND NOT (data_direction m) = mfp_input m AND NOT (data_direction m)
     \<and> (\<forall>j. deliverable m j \<longrightarrow> spcflag_mfp m)"

lemma waiting_lt: "waiting m j \<Longrightarrow> j < 16"
  unfolding waiting_def using bit_imp_le_length by force

lemma waiting_nz: "(irq_pending m AND irq_mask m \<noteq> 0) \<longleftrightarrow> (\<exists>j. waiting m j)"
  unfolding waiting_def by (metis bit_0_eq bit_eq_iff bot_apply bot_bool_def)

lemma irq_scan_Some: "irq_scan n m = Some j \<longleftrightarrow> j < n \<and> waiting m j \<and> (\<forall>k. j < k \<and> k < n \<longrightarrow> \<not> waiting m k)"
  by (induction n) (auto simp: irq_bit_scan waiting_def less_Suc_eq)

lemma irq_scan_None: "irq_scan n m = None \<longleftrightarrow> (\<forall>k<n. \<not> waiting m k)"
  by (induction n) (auto simp: irq_bit_scan waiting_def less_Suc_eq)


lemma TriggerMFP_simps [simp]:
  "TriggerMFP e m = m\<lparr>spcflag_mfp := e\<rparr>"
  by (simp add: TriggerMFP_def)

lemma inv_IRQ:
  assumes "mfp_inv m"
  shows "mfp_inv (IRQ l c m)"
  using assms by (auto simp: IRQ_def Let_def mfp_inv_def irq_bit_and bit_simps bit_irq_bit deliverable_def waiting_def
      not_less)


lemma fold_keeps: "P s \<Longrightarrow> (\<And>x s. P s \<Longrightarrow> P (f x s)) \<Longrightarrow> P (fold f xs s)"
  by (induction xs arbitrary: s) simp_all

lemma inv_if: "(c \<Longrightarrow> P x) \<Longrightarrow> (\<not> c \<Longrightarrow> P y) \<Longrightarrow> P (if c then x else y)"
  by simp

lemma inv_set_active_edge: "mfp_inv m \<Longrightarrow> mfp_inv (set_active_edge v m)"
proof -
  have e: "mfp_inv m \<Longrightarrow> mfp_inv (m\<lparr>active_edge := v\<rparr>)" for m by (simp add: mfp_inv_def deliverable_def waiting_def)
  show "mfp_inv m \<Longrightarrow> mfp_inv (set_active_edge v m)"
    unfolding set_active_edge_def Let_def by (intro e fold_keeps [where P = mfp_inv] inv_if [where P = mfp_inv] inv_IRQ | assumption)+
qed

lemma gpip_lines:
  fixes g i d k v :: u8
  assumes "g AND NOT d = i AND NOT d"
  shows "((g AND NOT (k AND NOT d)) OR (v AND (k AND NOT d))) AND NOT d = ((i AND NOT k) OR (v AND k)) AND NOT d"
proof (rule bit_word_eqI)
  fix n
  assume "n < LENGTH(8)"
  then have "\<not> bit d n \<Longrightarrow> bit g n = bit i n" using arg_cong [OF assms, of "\<lambda>w. bit w n"] by (simp add: bit_simps)
  then show "bit (((g AND NOT (k AND NOT d)) OR (v AND (k AND NOT d))) AND NOT d) n
      = bit (((i AND NOT k) OR (v AND k)) AND NOT d) n"
    by (auto simp: bit_simps)
qed

definition gpip_latch :: "u8 \<Rightarrow> u8 \<Rightarrow> MFP \<Rightarrow> MFP" where
  "gpip_latch k v m = m\<lparr>mfp_input := (mfp_input m AND NOT k) OR (v AND k),
    GPIP_data := (GPIP_data m AND NOT (k AND NOT (data_direction m))) OR (v AND (k AND NOT (data_direction m)))\<rparr>"

lemma setGPIPbit_latch:
  "setGPIPbit k v m = fold (\<lambda>j t. let i = push_bit j 1 in
     if GPIP_data m AND i \<noteq> GPIP_data t AND i then
       (if active_edge t AND i \<noteq> 0 then (if GPIP_data m AND i \<noteq> 0 then t else IRQ (map_gpip_to_ier ! j) 1 t)
        else (if GPIP_data t AND i \<noteq> 0 then t else IRQ (map_gpip_to_ier ! j) 1 t))
     else t) [0..<8] (gpip_latch k v m)"
  by (simp add: setGPIPbit_def gpip_latch_def Let_def)

lemma inv_setGPIPbit:
  assumes "mfp_inv m"
  shows "mfp_inv (setGPIPbit k v m)"
proof -
  have "mfp_inv (gpip_latch k v m)"
    using assms gpip_lines by (simp add: mfp_inv_def gpip_latch_def deliverable_def waiting_def)
  then show ?thesis unfolding setGPIPbit_latch Let_def by (intro fold_keeps [where P = mfp_inv] inv_if [where P = mfp_inv] inv_IRQ | assumption)+
qed

lemma inv_mfp_reset: "mfp_inv (mfp_reset m)"
  by (simp add: mfp_reset_def mfp_inv_def deliverable_def waiting_def Let_def)

lemma inv_handleRead: "mfp_inv m \<Longrightarrow> mfp_inv (snd (mfp_handleRead b a m))"
  by (auto simp: mfp_handleRead_def mfp_inv_def deliverable_def waiting_def Let_def split: prod.split)

lemma scan_None: "irq_scan 16 m = None \<longleftrightarrow> (\<forall>k. \<not> waiting m k)"
  using waiting_lt by (auto simp: irq_scan_None)

lemma scan_Some: "irq_scan 16 m = Some j \<longleftrightarrow> waiting m j \<and> (\<forall>k. waiting m k \<longrightarrow> k \<le> j)"
  unfolding irq_scan_Some using waiting_lt by (meson not_le)

text \<open>The state after a request of level \<open>j\<close> is passed to the CPU.\<close>

definition served :: "nat \<Rightarrow> MFP \<Rightarrow> MFP" where
  "served j m =
     (let n = (if j = 5 then m\<lparr>timerCounter := timerCounter m - 1\<rparr> else m);
          n = (if j \<noteq> 5 \<or> timerCounter n \<le> 0
               then n\<lparr>irq_pending := irq_pending m AND NOT (irq_bit j), spcflag_mfp := False\<rparr> else n)
      in if vr m AND MFP_VR_SEI \<noteq> 0 then n\<lparr>irq_inservice := irq_inservice m OR irq_bit j\<rparr>
         else if irq_pending n AND irq_mask n \<noteq> 0 then n\<lparr>spcflag_mfp := True\<rparr> else n)"

lemma doInterrupt_none: "irq_scan 16 m = None \<Longrightarrow> doInterrupt m = (0, m\<lparr>spcflag_mfp := False\<rparr>)"
  by (simp only: doInterrupt_def option.case TriggerMFP_simps)

lemma doInterrupt_busy:
  "irq_scan 16 m = Some j \<Longrightarrow> irq_bit j \<le> irq_inservice m \<Longrightarrow> doInterrupt m = (0, m\<lparr>spcflag_mfp := False\<rparr>)"
  by (simp only: doInterrupt_def option.case Let_def if_True TriggerMFP_simps)

lemma doInterrupt_serve:
  "irq_scan 16 m = Some j \<Longrightarrow> irq_inservice m < irq_bit j \<Longrightarrow>
    doInterrupt m = ((vr m AND MFP_VR_VECTOR) + of_nat j, served j m)"
  by (simp only: doInterrupt_def option.case served_def Let_def not_le [symmetric] if_False TriggerMFP_simps) simp

lemma inv_served:
  assumes "mfp_inv m" "waiting m j" "\<And>k. waiting m k \<Longrightarrow> k \<le> j" "irq_inservice m < irq_bit j"
  shows "mfp_inv (served j m)"
proof (cases "vr m AND MFP_VR_SEI = 0")
  case True
  then show ?thesis using assms(1,2) waiting_nz
    by (auto simp: mfp_inv_def served_def deliverable_def waiting_def Let_def bit_simps)
next
  case False
  have "\<not> deliverable (served j m) k" for k
  proof
    assume "deliverable (served j m) k"
    then have k: "waiting m k" "irq_inservice m OR irq_bit j < irq_bit k"
      using False by (auto simp: deliverable_def waiting_def served_def Let_def bit_simps split: if_splits)
    then have "k \<le> j" "j < 16" using assms(3) waiting_lt [OF assms(2)] by auto
    then have "irq_bit k \<le> irq_bit j" using irq_bit_less [of k j] by (cases "k = j") auto
    moreover have "irq_bit j \<le> irq_inservice m OR irq_bit j" by (metis or.commute le_word_or2)
    ultimately show False using k(2) by auto
  qed
  with False assms(1) show ?thesis
    by (auto simp: mfp_inv_def served_def Let_def bit_simps)
qed

lemma inv_doInterrupt:
  assumes "mfp_inv m"
  shows "mfp_inv (snd (doInterrupt m))"
proof (cases "irq_scan 16 m")
  case None
  then show ?thesis using assms doInterrupt_none [OF None]
    by (simp add: scan_None mfp_inv_def deliverable_def waiting_def)
next
  case (Some j)
  then have w: "waiting m j" "\<And>k. waiting m k \<Longrightarrow> k \<le> j" by (simp_all add: scan_Some)
  show ?thesis
  proof (cases "irq_bit j \<le> irq_inservice m")
    case True
    have "\<not> deliverable m k" for k
      using True w(2) [of k] irq_bit_less [of k j] waiting_lt [OF w(1)] by (cases "k = j") (auto simp: deliverable_def)
    then show ?thesis using assms doInterrupt_busy [OF Some True]
      by (simp add: mfp_inv_def deliverable_def waiting_def)
  next
    case False
    then show ?thesis using inv_served [OF assms w] doInterrupt_serve [OF Some] by (simp add: not_le)
  qed
qed


lemma inv_mask_pending: "mfp_inv m \<Longrightarrow> mfp_inv (m\<lparr>irq_pending := irq_pending m AND w\<rparr>)"
  by (auto simp: mfp_inv_def deliverable_def waiting_def bit_simps)

lemma inv_enable: "mfp_inv m \<Longrightarrow> mfp_inv (m\<lparr>irq_enable := w, irq_pending := irq_pending m AND w\<rparr>)"
  by (auto simp: mfp_inv_def deliverable_def waiting_def bit_simps)

lemma inv_deliver: "mfp_inv m \<Longrightarrow> mfp_inv (deliver (m\<lparr>irq_mask := w\<rparr>))"
  "mfp_inv m \<Longrightarrow> mfp_inv (deliver (m\<lparr>vr := v, irq_inservice := 0\<rparr>))"
  by (auto simp: mfp_inv_def deliver_def deliverable_def waiting_nz waiting_def)

lemma inv_eoi:
  "mfp_inv m \<Longrightarrow> mfp_inv (m\<lparr>irq_inservice := irq_inservice m AND w, spcflag_mfp := True\<rparr>)"
  "mfp_inv m \<Longrightarrow> irq_pending m AND irq_mask m = 0 \<Longrightarrow> mfp_inv (m\<lparr>irq_inservice := irq_inservice m AND w\<rparr>)"
  using waiting_nz [of m] by (auto simp: mfp_inv_def deliverable_def waiting_def)

lemma inv_quiet:
  "mfp_inv m \<Longrightarrow> (irq_pending m AND w) AND irq_mask m = 0 \<Longrightarrow> mfp_inv (m\<lparr>irq_pending := irq_pending m AND w, spcflag_mfp := False\<rparr>)"
  using waiting_nz [of "m\<lparr>irq_pending := irq_pending m AND w\<rparr>"]
  by (auto simp: mfp_inv_def deliverable_def waiting_def bit_simps)

lemma inv_gpip_out: "mfp_inv m \<Longrightarrow> mfp_inv (m\<lparr>GPIP_data := (GPIP_data m AND NOT (data_direction m)) OR (v AND data_direction m)\<rparr>)"
  by (simp add: mfp_inv_def deliverable_def waiting_def bit.conj_disj_distrib2 and.assoc)

lemma inv_gpip_dir: "mfp_inv m \<Longrightarrow> mfp_inv (m\<lparr>data_direction := v, GPIP_data := (GPIP_data m AND v) OR (mfp_input m AND NOT v)\<rparr>)"
  by (simp add: mfp_inv_def deliverable_def waiting_def bit.conj_disj_distrib2 and.assoc)

lemma inv_timers:
  "mfp_inv (m\<lparr>timer_A := t\<rparr>) = mfp_inv m" "mfp_inv (m\<lparr>timer_B := t\<rparr>) = mfp_inv m"
  "mfp_inv (m\<lparr>timer_C := t\<rparr>) = mfp_inv m" "mfp_inv (m\<lparr>timer_D := t\<rparr>) = mfp_inv m"
  by (simp_all add: mfp_inv_def deliverable_def waiting_def)

lemma inv_vr: "mfp_inv m \<Longrightarrow> v AND MFP_VR_SEI \<noteq> 0 \<Longrightarrow> mfp_inv (m\<lparr>vr := v\<rparr>)"
  by (simp add: mfp_inv_def deliverable_def waiting_def)

lemma inv_handleWrite:
  assumes "mfp_inv m"
  shows "mfp_inv (mfp_handleWrite a v m)"
  unfolding mfp_handleWrite_def Let_def
  by (intro inv_if [where P = mfp_inv])
    (simp_all add: assms inv_mask_pending inv_enable inv_deliver inv_eoi inv_quiet inv_gpip_out inv_gpip_dir inv_timers inv_vr
      inv_set_active_edge)

text \<open>What can happen to the MFP: accesses of the CPU, requests of devices, acknowledge cycles and resets, in any order.\<close>

inductive mfp_reach :: "MFP \<Rightarrow> bool" where
  reset: "mfp_reach (mfp_reset m)"
| cpu_read: "mfp_reach m \<Longrightarrow> mfp_reach (snd (mfp_handleRead busy addr m))"
| cpu_write: "mfp_reach m \<Longrightarrow> mfp_reach (mfp_handleWrite addr value m)"
| irq: "mfp_reach m \<Longrightarrow> mfp_reach (IRQ int_level count m)"
| gpip: "mfp_reach m \<Longrightarrow> mfp_reach (setGPIPbit msk value m)"
| acknowledge: "mfp_reach m \<Longrightarrow> mfp_reach (snd (doInterrupt m))"

lemma mfp_reach_inv: "mfp_reach m \<Longrightarrow> mfp_inv m"
  by (induction rule: mfp_reach.induct)
    (simp_all add: inv_mfp_reset inv_handleRead inv_handleWrite inv_IRQ inv_setGPIPbit inv_doInterrupt)

text \<open>Edges on the input lines: which sources \<open>setGPIPbit\<close> requests.\<close>

definition gpip_edge :: "u8 \<Rightarrow> u8 \<Rightarrow> MFP \<Rightarrow> nat \<Rightarrow> bool" where
  "gpip_edge k v m j \<longleftrightarrow> bit k j \<and> \<not> bit (data_direction m) j \<and> bit (GPIP_data m) j \<noteq> bit v j
     \<and> (bit v j \<longleftrightarrow> bit (active_edge m) j)"

lemma IRQ_frame:
  "irq_enable (IRQ l c m) = irq_enable m" "GPIP_data (IRQ l c m) = GPIP_data m" "active_edge (IRQ l c m) = active_edge m"
  "irq_mask (IRQ l c m) = irq_mask m" "irq_inservice (IRQ l c m) = irq_inservice m" "vr (IRQ l c m) = vr m"
  by (simp_all add: IRQ_def Let_def)

lemma IRQ_pending: "bit (irq_pending (IRQ l c m)) k \<longleftrightarrow> bit (irq_pending m) k \<or> k = l \<and> bit (irq_enable m) k"
  using bit_imp_le_length [of "irq_enable m" k] by (auto simp: IRQ_def Let_def irq_bit_and bit_simps bit_irq_bit)

lemma fold_requests:
  assumes "\<And>j t. irq_enable t = e \<Longrightarrow> GPIP_data t = g \<Longrightarrow> active_edge t = a \<Longrightarrow> f j t = (if c j then IRQ (h j) 1 t else t)"
    "irq_enable t = e" "GPIP_data t = g" "active_edge t = a"
  shows "bit (irq_pending (fold f js t)) l \<longleftrightarrow> bit (irq_pending t) l \<or> bit e l \<and> (\<exists>j\<in>set js. c j \<and> h j = l)"
  using assms(2-)
proof (induction js arbitrary: t)
  case Nil
  then show ?case by simp
next
  case (Cons j js)
  then show ?case using Cons.IH [of "f j t"] assms(1) [of t j] by (auto simp: IRQ_frame IRQ_pending)
qed

lemma gpip_requests:
  "bit (irq_pending (setGPIPbit k v m)) l \<longleftrightarrow>
    bit (irq_pending m) l \<or> bit (irq_enable m) l \<and> (\<exists>j<8. gpip_edge k v m j \<and> map_gpip_to_ier ! j = l)"
proof -
  define g where "g = GPIP_data (gpip_latch k v m)"
  have b: "w AND push_bit j 1 \<noteq> 0 \<longleftrightarrow> bit w j" for w :: u8 and j by (simp add: bit_iff_and_push_bit_not_eq_0)
  have ne: "x AND push_bit j 1 \<noteq> y AND push_bit j 1 \<longleftrightarrow> bit x j \<noteq> bit y j" for x y :: u8 and j
  proof
    assume "bit x j \<noteq> bit y j" then show "x AND push_bit j 1 \<noteq> y AND push_bit j 1" using b by metis
  next
    assume n: "x AND push_bit j 1 \<noteq> y AND push_bit j 1"
    show "bit x j \<noteq> bit y j"
    proof
      assume e: "bit x j = bit y j"
      have "x AND push_bit j 1 = y AND push_bit j 1" by (rule bit_word_eqI) (use e in \<open>auto simp: bit_simps\<close>)
      with n show False by simp
    qed
  qed
  have g: "j < 8 \<Longrightarrow> bit g j \<longleftrightarrow> (if bit k j \<and> \<not> bit (data_direction m) j then bit v j else bit (GPIP_data m) j)" for j
    by (auto simp: g_def gpip_latch_def bit_simps)
  have c: "(bit (GPIP_data m) j \<noteq> bit g j \<and> (if bit (active_edge m) j then \<not> bit (GPIP_data m) j else \<not> bit g j)) = gpip_edge k v m j"
    if "j < 8" for j using g [OF that] by (auto simp: gpip_edge_def)
  define c' where "c' j \<longleftrightarrow> bit (GPIP_data m) j \<noteq> bit g j \<and> (if bit (active_edge m) j then \<not> bit (GPIP_data m) j else \<not> bit g j)" for j
  have step: "(let i = push_bit j 1 in
     if GPIP_data m AND i \<noteq> GPIP_data t AND i then
       (if active_edge t AND i \<noteq> 0 then (if GPIP_data m AND i \<noteq> 0 then t else IRQ (map_gpip_to_ier ! j) 1 t)
        else (if GPIP_data t AND i \<noteq> 0 then t else IRQ (map_gpip_to_ier ! j) 1 t))
     else t) = (if c' j then IRQ (map_gpip_to_ier ! j) 1 t else t)"
    if "irq_enable t = irq_enable m" "GPIP_data t = g" "active_edge t = active_edge m" for j t
    unfolding Let_def b ne c'_def that by (simp split: if_split)
  have "(\<exists>j\<in>set [0..<8]. c' j \<and> map_gpip_to_ier ! j = l) \<longleftrightarrow> (\<exists>j<8. gpip_edge k v m j \<and> map_gpip_to_ier ! j = l)"
    using c unfolding c'_def by (metis atLeast_upt lessThan_iff)
  moreover have "irq_pending (gpip_latch k v m) = irq_pending m" "irq_enable (gpip_latch k v m) = irq_enable m"
    "active_edge (gpip_latch k v m) = active_edge m" "GPIP_data (gpip_latch k v m) = g"
    by (simp_all add: gpip_latch_def g_def)
  ultimately show ?thesis
    unfolding setGPIPbit_latch using fold_requests [where js = "[0..<8]" and l = l and t = "gpip_latch k v m", OF step]
    by (simp only: simp_thms)
qed






text \<open>
  C29. No interrupt is lost. After a reset and any sequence of register accesses, device requests and
  acknowledge cycles: a source that is pending, unmasked and above everything in service
  has the interrupt flag of the CPU raised; only enabled sources are pending; without software end of interrupt
  nothing stays in service; and the input lines of the port show the inputs.
\<close>
theorem no_lost_interrupt:
  assumes "mfp_reach m"
  shows "(\<forall>j. deliverable m j \<longrightarrow> spcflag_mfp m) \<and> irq_pending m AND NOT (irq_enable m) = 0
    \<and> (vr m AND MFP_VR_SEI = 0 \<longrightarrow> irq_inservice m = 0)
    \<and> GPIP_data m AND NOT (data_direction m) = mfp_input m AND NOT (data_direction m)"
proof -
  have i: "mfp_inv m" by (rule mfp_reach_inv [OF assms])
  then have "irq_pending m AND NOT (irq_enable m) = 0"
    by (intro bit_word_eqI) (auto simp: mfp_inv_def bit_simps)
  with i show ?thesis by (simp add: mfp_inv_def)
qed


theorem no_lost_interrupt_witness:
  "spcflag_mfp (IRQ 6 1 (mfp_handleWrite 0xfffa15 0x40 (mfp_handleWrite 0xfffa09 0x40 (mfp_reset undefined))))"
proof -
  define m where "m = IRQ 6 1 (mfp_handleWrite 0xfffa15 0x40 (mfp_handleWrite 0xfffa09 0x40 (mfp_reset undefined)))"
  have "mfp_reach m" unfolding m_def by (intro mfp_reach.intros)
  moreover have "deliverable m 6"
    by (simp add: m_def deliverable_def waiting_def IRQ_def irq_bit_def mfp_handleWrite_def mfp_reset_def deliver_def Let_def)
  ultimately show ?thesis using no_lost_interrupt [of m] unfolding m_def by blast
qed




lemma timer_freq_bounds: "48 \<le> compute_timer_freq t \<and> compute_timer_freq t \<le> 614400"
proof -
  have d: "48 \<le> f div d \<and> f div d \<le> 614400" if "12288 \<le> f" "f \<le> 614400" "0 < d" "d < 256" for f d :: nat
  proof -
    have "48 = 12288 div (255 :: nat)" by simp
    also have "\<dots> \<le> f div 255" using that(1) by (rule div_le_mono)
    also have "\<dots> \<le> f div d" using that by (intro div_le_mono2) simp_all
    finally show ?thesis using that(2) div_le_dividend [of f d] by linarith
  qed
  have "start_data t \<noteq> 0 \<Longrightarrow> 0 < unat (start_data t)" by (simp add: unat_gt_0)
  moreover have "unat (start_data t) < 256" using unsigned_less [of "start_data t"] by simp
  ultimately show ?thesis by (auto simp: compute_timer_freq_def Let_def MFP_FREQ_def intro: d [THEN conjunct1] d [THEN conjunct2])
qed

text \<open>
  C31. The period of timer C. For every control and data value the frequency is between 48 Hz and 614400 Hz, so
  no division by zero happens here; the period in milliseconds is at most 20. But it is 0 for every frequency
  above 1000 Hz, and one write of the guest to the timer control register brings this about: the
  caller \<open>invoke200HzInterrupt\<close> divides by this value.
\<close>
theorem timer_C_period:
  "48 \<le> compute_timer_freq (timer_C m) \<and> compute_timer_freq (timer_C m) \<le> 614400
   \<and> timerC_ms_ticks m \<le> 20 \<and> (timerC_ms_ticks m = 0 \<longleftrightarrow> 1000 < compute_timer_freq (timer_C m))
   \<and> timerC_ms_ticks (mfp_handleWrite 0xfffa1d 0x10 m) = 0"
proof -
  define t where "t = setControl 1 (timer_C m)"
  have d: "2409 \<le> 614400 div d" if "0 < d" "d < 256" for d :: nat
    using div_le_mono2 [of d 255 614400] that by simp
  have f: "compute_timer_freq t = (if start_data t = 0 then 3200 else 614400 div unat (start_data t))"
    by (simp add: compute_timer_freq_def t_def setControl_def MFP_FREQ_def Let_def)
  have "1000 < compute_timer_freq t"
  proof (cases "start_data t = 0")
    case False
    then have "2409 \<le> 614400 div unat (start_data t)"
      using unsigned_less [of "start_data t"] by (intro d) (simp_all add: unat_gt_0)
    then show ?thesis using False by (simp only: f if_False)
  qed (simp add: f)
  moreover have "timer_C (mfp_handleWrite 0xfffa1d 0x10 m) = t" by (simp add: mfp_handleWrite_def t_def)
  ultimately have z: "timerC_ms_ticks (mfp_handleWrite 0xfffa1d 0x10 m) = 0" by (simp add: timerC_ms_ticks_def)
  define q where "q = compute_timer_freq (timer_C m)"
  have q: "48 \<le> q" "q \<le> 614400" using timer_freq_bounds [of "timer_C m"] by (simp_all add: q_def)
  have "1000 div q \<le> 1000 div 48" using q(1) by (intro div_le_mono2) simp_all
  moreover have "1000 div q = 0 \<longleftrightarrow> 1000 < q" using q(1) by (simp add: div_eq_0_iff)
  ultimately show ?thesis using z q unfolding timerC_ms_ticks_def q_def by simp
qed

end
