(* ===== verification/Adler32.thy ===== *)
theory Adler32
  imports Dsp_Prelude
begin

text \<open>
  \<open>calc_adler\<close> (\<open>src/src/adler32.c\<close>): the Adler-32 checksum of a block of \<open>lines\<close> rows of
  bytes. The two sums are taken modulo \<open>2^32\<close> and reduced modulo 65521 at the end only. Memory is a
  function from addresses to bytes.
\<close>

abbreviation (input) MOD_ADLER :: nat where "MOD_ADLER \<equiv> 65521"

text \<open>\<open>(a & 0xffff) + (a >> 16) * (65536-MOD_ADLER)\<close>.\<close>

definition adler_fold :: "u32 \<Rightarrow> u32" where
  "adler_fold a = (a AND 0xffff) + drop_bit 16 a * (65536 - 65521)"

text \<open>The bodies of the inner and of the outer loop; the third component is the pointer.\<close>

definition adler_byte :: "(int \<Rightarrow> u8) \<Rightarrow> u32 \<times> u32 \<times> int \<Rightarrow> u32 \<times> u32 \<times> int" where
  "adler_byte mem = (\<lambda>(a, b, base_line).
     (let a = a + ucast (mem base_line);
          base_line = base_line + 1;
          b = b + a
      in (a, b, base_line)))"

definition adler_line :: "(int \<Rightarrow> u8) \<Rightarrow> int \<Rightarrow> int \<Rightarrow> u32 \<times> u32 \<times> int \<Rightarrow> u32 \<times> u32 \<times> int" where
  "adler_line mem rows pitch = (\<lambda>(a, b, base).
     (let (a, b, base_line) = fold (\<lambda>x. adler_byte mem) [0..<nat rows] (a, b, base)
      in (a, b, base + pitch)))"

definition calc_adler :: "(int \<Rightarrow> u8) \<Rightarrow> int \<Rightarrow> int \<Rightarrow> int \<Rightarrow> int \<Rightarrow> u32" where
  "calc_adler mem base rows lines pitch =
     (let (a, b, base) = fold (\<lambda>y. adler_line mem rows pitch) [0..<nat lines] (1, 0, base);
          a = adler_fold a;
          b = adler_fold b;
          a = (if a \<ge> 65521 then a - 65521 else a);
          b = adler_fold b;
          b = (if b \<ge> 65521 then b - 65521 else b)
      in push_bit 16 b OR a)"

section \<open>The checksum of RFC 1950\<close>

primrec adler_sums :: "u8 list \<Rightarrow> nat \<times> nat \<Rightarrow> nat \<times> nat" where
  "adler_sums [] s = s"
| "adler_sums (d # ds) s = (let a = (fst s + unat d) mod MOD_ADLER in adler_sums ds (a, (snd s + a) mod MOD_ADLER))"

definition adler32 :: "u8 list \<Rightarrow> u32" where
  "adler32 ds = (let (a, b) = adler_sums ds (1, 0) in of_nat (b * 65536 + a))"

definition block_bytes :: "(int \<Rightarrow> u8) \<Rightarrow> int \<Rightarrow> int \<Rightarrow> int \<Rightarrow> int \<Rightarrow> u8 list" where
  "block_bytes mem base rows lines pitch =
     concat (map (\<lambda>y. map (\<lambda>x. mem (base + int y * pitch + int x)) [0..<nat rows]) [0..<nat lines])"

section \<open>Proof\<close>

text \<open>The loops visit the bytes of the block in order.\<close>

definition add32 :: "u8 \<Rightarrow> u32 \<times> u32 \<Rightarrow> u32 \<times> u32" where
  "add32 d s = (fst s + ucast d, snd s + (fst s + ucast d))"

lemma line_loop:
  "fold (\<lambda>x. adler_byte mem) [0..<n] (fst s, snd s, base) =
   (fst (fold add32 (map (\<lambda>x. mem (base + int x)) [0..<n]) s), snd (fold add32 (map (\<lambda>x. mem (base + int x)) [0..<n]) s),
    base + int n)"
  by (induction n) (simp_all add: adler_byte_def add32_def Let_def)

lemma block_loop:
  "fold (\<lambda>y. adler_line mem rows pitch) [0..<n] (fst s, snd s, base) =
   (fst (fold add32 (block_bytes mem base rows (int n) pitch) s), snd (fold add32 (block_bytes mem base rows (int n) pitch) s),
    base + int n * pitch)"
proof (induction n)
  case 0
  then show ?case by (simp add: block_bytes_def)
next
  case (Suc n)
  have "block_bytes mem base rows (int (Suc n)) pitch = block_bytes mem base rows (int n) pitch @
      map (\<lambda>x. mem (base + int n * pitch + int x)) [0..<nat rows]"
    by (simp add: block_bytes_def nat_add_distrib)
  moreover have "adler_line mem rows pitch (fst t, snd t, p) =
      (fst (fold add32 (map (\<lambda>x. mem (p + int x)) [0..<nat rows]) t), snd (fold add32 (map (\<lambda>x. mem (p + int x)) [0..<nat rows]) t),
       p + pitch)" for t p
    by (simp add: adler_line_def line_loop)
  ultimately show ?case using Suc by (simp add: algebra_simps)
qed

lemma word_of_nat_unat: "unat (w :: u32) = n \<Longrightarrow> w = of_nat n"
  by auto

text \<open>Without overflow the sums are those of natural numbers.\<close>

definition addN :: "u8 \<Rightarrow> nat \<times> nat \<Rightarrow> nat \<times> nat" where
  "addN d s = (fst s + unat d, snd s + (fst s + unat d))"

lemma addN_bounds:
  "fst (fold addN ds (a, b)) \<le> a + 255 * length ds
   \<and> 2 * snd (fold addN ds (a, b)) \<le> 2 * b + 2 * length ds * a + 255 * (length ds * (length ds + 1))"
proof (induction ds arbitrary: a b)
  case Nil
  then show ?case by simp
next
  case (Cons d ds)
  define n where "n = length ds"
  have d: "unat d \<le> 255" using unsigned_less [of d, where 'a = nat] by simp
  have "2 * (b + (a + unat d)) + 2 * n * (a + unat d) + 255 * (n * (n + 1))
    \<le> 2 * b + 2 * (n + 1) * a + 255 * ((n + 1) * (n + 2))"
    using d mult_le_mono2 [OF d, of "2 * (n + 1)"] by (simp add: algebra_simps)
  with Cons [of "a + unat d" "b + (a + unat d)"] d show ?case
    unfolding n_def by (auto simp: addN_def intro: order_trans)
qed

lemma add32_addN: "fold add32 ds (of_nat a, of_nat b) = map_prod of_nat of_nat (fold addN ds (a, b))"
proof (induction ds arbitrary: a b)
  case Nil
  then show ?case by simp
next
  case (Cons d ds)
  have "add32 d (of_nat a, of_nat b) = (of_nat (a + unat d), of_nat (b + (a + unat d)))"
    by (simp add: add32_def)
  with Cons [of "a + unat d" "b + (a + unat d)"] show ?case by (simp add: addN_def)
qed

lemma adler_sums_addN:
  "adler_sums ds (a mod MOD_ADLER, b mod MOD_ADLER) = map_prod (\<lambda>x. x mod MOD_ADLER) (\<lambda>x. x mod MOD_ADLER) (fold addN ds (a, b))"
proof (induction ds arbitrary: a b)
  case Nil
  then show ?case by simp
next
  case (Cons d ds)
  have "(a mod MOD_ADLER + unat d) mod MOD_ADLER = (a + unat d) mod MOD_ADLER"
    "(b mod MOD_ADLER + (a + unat d) mod MOD_ADLER) mod MOD_ADLER = (b + (a + unat d)) mod MOD_ADLER"
    by (rule mod_add_left_eq, rule mod_add_eq)
  with Cons [of "a + unat d" "b + (a + unat d)"] show ?case by (simp only: adler_sums.simps fold_simps addN_def fst_conv snd_conv Let_def)
qed

lemma adler_fold_unat:
  assumes "n < 2 ^ 32"
  shows "unat (adler_fold (of_nat n)) = n mod 65536 + n div 65536 * 15"
    "(n mod 65536 + n div 65536 * 15) mod MOD_ADLER = n mod MOD_ADLER"
proof -
  have u: "unat (of_nat n :: u32) = n" using assms by (simp add: unsigned_of_nat take_bit_nat_eq_self)
  have m: "unat (of_nat n AND 0xffff :: u32) = n mod 65536"
  proof -
    have "(0xffff :: u32) = mask 16" by (simp add: mask_eq_exp_minus_1)
    then have "of_nat n AND (0xffff :: u32) = take_bit 16 (of_nat n)" by (simp only: take_bit_eq_mask)
    then have "unat (of_nat n AND 0xffff :: u32) = take_bit 16 n" by (simp only: unsigned_take_bit_eq u)
    then show ?thesis by (simp add: take_bit_eq_mod)
  qed
  have q: "n div 65536 < 65536" using assms by (simp add: less_mult_imp_div_less)
  have d: "drop_bit 16 (of_nat n :: u32) = of_nat (n div 65536)"
  proof (rule word_unat_eq_iff [THEN iffD2])
    have "unat (drop_bit 16 (of_nat n :: u32)) = drop_bit 16 (unat (of_nat n :: u32))"
      by (rule unat_drop_bit_eq)
    then show "unat (drop_bit 16 (of_nat n :: u32)) = unat (of_nat (n div 65536) :: u32)"
      using q by (simp only: u drop_bit_eq_div) (simp add: unsigned_of_nat take_bit_nat_eq_self)
  qed
  have "adler_fold (of_nat n) = of_nat (n mod 65536 + n div 65536 * 15)"
    unfolding adler_fold_def d word_of_nat_unat [OF m] by simp
  then show "unat (adler_fold (of_nat n)) = n mod 65536 + n div 65536 * 15"
  proof (rule ssubst)
    have "n mod 65536 + n div 65536 * 15 < 2 ^ 32" using q mod_less_divisor [of 65536 n] by simp
    then show "unat (of_nat (n mod 65536 + n div 65536 * 15) :: u32) = n mod 65536 + n div 65536 * 15"
      by (simp add: unsigned_of_nat take_bit_nat_eq_self del: of_nat_add of_nat_mult)
  qed
  have "n = n div 65536 * 65536 + n mod 65536" by (rule div_mult_mod_eq [symmetric])
  then have "n = (n mod 65536 + n div 65536 * 15) + n div 65536 * MOD_ADLER" by linarith
  then show "(n mod 65536 + n div 65536 * 15) mod MOD_ADLER = n mod MOD_ADLER" by (metis mod_mult_self1)
qed


text \<open>One and two folding steps and a conditional subtraction reduce modulo 65521.\<close>

lemma final_subtract:
  assumes "unat (w :: u32) < 2 * MOD_ADLER"
  shows "unat (if w \<ge> 65521 then w - 65521 else w) = unat w mod MOD_ADLER"
  using assms by (auto simp: word_le_nat_alt unat_sub mod_if not_le)

lemma reduce_a:
  assumes "n < 4000 * 65536"
  shows "unat (let a = adler_fold (of_nat n) in if a \<ge> 65521 then a - 65521 else a) = n mod MOD_ADLER"
proof -
  have n: "n < 2 ^ 32" using assms by simp
  have "n div 65536 < 4000" using assms by (simp add: less_mult_imp_div_less)
  then have "n mod 65536 + n div 65536 * 15 < 2 * MOD_ADLER" using mod_less_divisor [of 65536 n] by linarith
  then show ?thesis unfolding Let_def using final_subtract [of "adler_fold (of_nat n)"] adler_fold_unat [OF n] by simp
qed

lemma reduce_b:
  assumes "n < 2 ^ 32"
  shows "unat (let b = adler_fold (adler_fold (of_nat n)) in if b \<ge> 65521 then b - 65521 else b) = n mod MOD_ADLER"
proof -
  define m where "m = n mod 65536 + n div 65536 * 15"
  have "n div 65536 < 65536" using assms by (simp add: less_mult_imp_div_less)
  then have m: "m < 4000 * 65536" using mod_less_divisor [of 65536 n] unfolding m_def by linarith
  have "adler_fold (of_nat n) = of_nat m" using adler_fold_unat(1) [OF assms] unfolding m_def by (rule word_of_nat_unat)
  then show ?thesis using reduce_a [OF m] adler_fold_unat(2) [OF assms] by (simp add: m_def)
qed

text \<open>
  C33. For blocks of at most 5552 bytes \<open>calc_adler\<close> returns the Adler-32 checksum of RFC 1950 of the
  bytes of the block, in the order of the lines: neither sum overflows 32 bits, and one folding step for the first
  sum, two for the second, followed by one conditional subtraction reduce modulo 65521.
\<close>
theorem calc_adler_correct:
  assumes "length (block_bytes mem base rows lines pitch) \<le> 5552"
  shows "calc_adler mem base rows lines pitch = adler32 (block_bytes mem base rows lines pitch)"
proof -
  define ds where "ds = block_bytes mem base rows lines pitch"
  obtain A B where AB: "fold addN ds (1, 0) = (A, B)" by (cases "fold addN ds (1, 0)")
  define n where "n = length ds"
  have n: "n \<le> 5552" using assms by (simp add: n_def ds_def)
  then have "255 * (n * (n + 1)) \<le> 255 * (5552 * 5553)" by (intro mult_le_mono) simp_all
  then have b: "A < 4000 * 65536" "B < 2 ^ 32"
    using addN_bounds [of ds 1 0] n unfolding AB by (simp_all add: n_def)
  have "block_bytes mem base rows (int (nat lines)) pitch = ds" by (simp add: ds_def block_bytes_def)
  then have "fold (\<lambda>y. adler_line mem rows pitch) [0..<nat lines] (1, 0, base) = (of_nat A, of_nat B, base + int (nat lines) * pitch)"
    using block_loop [of mem rows pitch "nat lines" "(1, 0)" base] add32_addN [of ds 1 0] AB by simp
  then have c: "calc_adler mem base rows lines pitch =
      push_bit 16 (let b = adler_fold (adler_fold (of_nat B)) in if b \<ge> 65521 then b - 65521 else b) OR
      (let a = adler_fold (of_nat A) in if a \<ge> 65521 then a - 65521 else a)"
    by (simp add: calc_adler_def Let_def)
  have r: "adler32 ds = of_nat (B mod MOD_ADLER * 65536 + A mod MOD_ADLER)"
    using adler_sums_addN [of ds 1 0] AB by (simp add: adler32_def)
  have o: "push_bit 16 x OR y = of_nat (unat x * 65536 + unat y)" if "unat y < 65536" for x y :: u32
  proof -
    have "y = take_bit 16 y" using that by (simp add: word_unat_eq_iff unsigned_take_bit_eq take_bit_nat_eq_self)
    then have "\<not> 16 \<le> n \<or> \<not> bit y n" for n by (metis bit_take_bit_iff not_le)
    then have "push_bit 16 x + y = push_bit 16 x OR y" by (intro disjunctive_add) (auto simp: bit_simps)
    then show ?thesis by (simp add: push_bit_eq_mult)
  qed
  have "unat (let a = adler_fold (of_nat A) in if a \<ge> 65521 then a - 65521 else a) < 65536"
    unfolding reduce_a [OF b(1)] using mod_less_divisor [of MOD_ADLER A] by simp
  then show ?thesis unfolding c ds_def [symmetric] r by (simp only: o reduce_a [OF b(1)] reduce_b [OF b(2)])
qed

theorem calc_adler_correct_witness: "calc_adler (\<lambda>p. word_of_int p) 1 3 2 10 = 0x0068002b"
proof -
  have b: "block_bytes (\<lambda>p. word_of_int p) 1 3 2 10 = [1, 2, 3, 11, 12, 13]"
    by code_simp
  then have "length (block_bytes (\<lambda>p. word_of_int p) 1 3 2 10) \<le> 5552" by simp
  from calc_adler_correct [OF this] have "calc_adler (\<lambda>p. word_of_int p) 1 3 2 10 = adler32 [1, 2, 3, 11, 12, 13]" by (simp only: b)
  also have "\<dots> = 0x0068002b" 
    by (simp only: adler32_def adler_sums.simps Let_def fst_conv snd_conv) simp
  finally show ?thesis .
qed

end
