(* ===== verification/Md5.thy ===== *)
theory Md5
  imports Dsp_Prelude
begin

text \<open>
  MD5 (\<open>src/src/md5.cpp\<close>, \<open>src/src/include/aramd5.h\<close>), used to recognise ROM images. The member
  \<open>in\<close> of the context is kept as its 64 bytes; \<open>byteSwap\<close> makes the words of it little endian
  on every host, which is \<open>le_words\<close> here.
\<close>

record MD5Context =
  md5_buf :: "u32 list"
  md5_bytes :: "u32 \<times> u32"
  md5_in :: "u8 list"

definition F1 :: "u32 \<Rightarrow> u32 \<Rightarrow> u32 \<Rightarrow> u32" where
  "F1 x y z = (z XOR (x AND (y XOR z)))"

definition F2 :: "u32 \<Rightarrow> u32 \<Rightarrow> u32 \<Rightarrow> u32" where
  "F2 x y z = F1 z x y"

definition F3 :: "u32 \<Rightarrow> u32 \<Rightarrow> u32 \<Rightarrow> u32" where
  "F3 x y z = (x XOR y XOR z)"

definition F4 :: "u32 \<Rightarrow> u32 \<Rightarrow> u32 \<Rightarrow> u32" where
  "F4 x y z = (y XOR (x OR NOT z))"

definition MD5STEP :: "(u32 \<Rightarrow> u32 \<Rightarrow> u32 \<Rightarrow> u32) \<Rightarrow> u32 \<Rightarrow> u32 \<Rightarrow> u32 \<Rightarrow> u32 \<Rightarrow> u32 \<Rightarrow> nat \<Rightarrow> u32" where
  "MD5STEP f w x y z inp s =
     (let w = w + (f x y z + inp)
      in (push_bit s w OR drop_bit (32 - s) w) + x)"

definition MD5Transform :: "u32 list \<Rightarrow> u32 list \<Rightarrow> u32 list" where
  "MD5Transform buf inw =
     (let a = buf ! 0;
          b = buf ! 1;
          c = buf ! 2;
          d = buf ! 3;
          a = MD5STEP F1 a b c d (inw ! 0 + 0xd76aa478) 7;
          d = MD5STEP F1 d a b c (inw ! 1 + 0xe8c7b756) 12;
          c = MD5STEP F1 c d a b (inw ! 2 + 0x242070db) 17;
          b = MD5STEP F1 b c d a (inw ! 3 + 0xc1bdceee) 22;
          a = MD5STEP F1 a b c d (inw ! 4 + 0xf57c0faf) 7;
          d = MD5STEP F1 d a b c (inw ! 5 + 0x4787c62a) 12;
          c = MD5STEP F1 c d a b (inw ! 6 + 0xa8304613) 17;
          b = MD5STEP F1 b c d a (inw ! 7 + 0xfd469501) 22;
          a = MD5STEP F1 a b c d (inw ! 8 + 0x698098d8) 7;
          d = MD5STEP F1 d a b c (inw ! 9 + 0x8b44f7af) 12;
          c = MD5STEP F1 c d a b (inw ! 10 + 0xffff5bb1) 17;
          b = MD5STEP F1 b c d a (inw ! 11 + 0x895cd7be) 22;
          a = MD5STEP F1 a b c d (inw ! 12 + 0x6b901122) 7;
          d = MD5STEP F1 d a b c (inw ! 13 + 0xfd987193) 12;
          c = MD5STEP F1 c d a b (inw ! 14 + 0xa679438e) 17;
          b = MD5STEP F1 b c d a (inw ! 15 + 0x49b40821) 22;
          a = MD5STEP F2 a b c d (inw ! 1 + 0xf61e2562) 5;
          d = MD5STEP F2 d a b c (inw ! 6 + 0xc040b340) 9;
          c = MD5STEP F2 c d a b (inw ! 11 + 0x265e5a51) 14;
          b = MD5STEP F2 b c d a (inw ! 0 + 0xe9b6c7aa) 20;
          a = MD5STEP F2 a b c d (inw ! 5 + 0xd62f105d) 5;
          d = MD5STEP F2 d a b c (inw ! 10 + 0x02441453) 9;
          c = MD5STEP F2 c d a b (inw ! 15 + 0xd8a1e681) 14;
          b = MD5STEP F2 b c d a (inw ! 4 + 0xe7d3fbc8) 20;
          a = MD5STEP F2 a b c d (inw ! 9 + 0x21e1cde6) 5;
          d = MD5STEP F2 d a b c (inw ! 14 + 0xc33707d6) 9;
          c = MD5STEP F2 c d a b (inw ! 3 + 0xf4d50d87) 14;
          b = MD5STEP F2 b c d a (inw ! 8 + 0x455a14ed) 20;
          a = MD5STEP F2 a b c d (inw ! 13 + 0xa9e3e905) 5;
          d = MD5STEP F2 d a b c (inw ! 2 + 0xfcefa3f8) 9;
          c = MD5STEP F2 c d a b (inw ! 7 + 0x676f02d9) 14;
          b = MD5STEP F2 b c d a (inw ! 12 + 0x8d2a4c8a) 20;
          a = MD5STEP F3 a b c d (inw ! 5 + 0xfffa3942) 4;
          d = MD5STEP F3 d a b c (inw ! 8 + 0x8771f681) 11;
          c = MD5STEP F3 c d a b (inw ! 11 + 0x6d9d6122) 16;
          b = MD5STEP F3 b c d a (inw ! 14 + 0xfde5380c) 23;
          a = MD5STEP F3 a b c d (inw ! 1 + 0xa4beea44) 4;
          d = MD5STEP F3 d a b c (inw ! 4 + 0x4bdecfa9) 11;
          c = MD5STEP F3 c d a b (inw ! 7 + 0xf6bb4b60) 16;
          b = MD5STEP F3 b c d a (inw ! 10 + 0xbebfbc70) 23;
          a = MD5STEP F3 a b c d (inw ! 13 + 0x289b7ec6) 4;
          d = MD5STEP F3 d a b c (inw ! 0 + 0xeaa127fa) 11;
          c = MD5STEP F3 c d a b (inw ! 3 + 0xd4ef3085) 16;
          b = MD5STEP F3 b c d a (inw ! 6 + 0x04881d05) 23;
          a = MD5STEP F3 a b c d (inw ! 9 + 0xd9d4d039) 4;
          d = MD5STEP F3 d a b c (inw ! 12 + 0xe6db99e5) 11;
          c = MD5STEP F3 c d a b (inw ! 15 + 0x1fa27cf8) 16;
          b = MD5STEP F3 b c d a (inw ! 2 + 0xc4ac5665) 23;
          a = MD5STEP F4 a b c d (inw ! 0 + 0xf4292244) 6;
          d = MD5STEP F4 d a b c (inw ! 7 + 0x432aff97) 10;
          c = MD5STEP F4 c d a b (inw ! 14 + 0xab9423a7) 15;
          b = MD5STEP F4 b c d a (inw ! 5 + 0xfc93a039) 21;
          a = MD5STEP F4 a b c d (inw ! 12 + 0x655b59c3) 6;
          d = MD5STEP F4 d a b c (inw ! 3 + 0x8f0ccc92) 10;
          c = MD5STEP F4 c d a b (inw ! 10 + 0xffeff47d) 15;
          b = MD5STEP F4 b c d a (inw ! 1 + 0x85845dd1) 21;
          a = MD5STEP F4 a b c d (inw ! 8 + 0x6fa87e4f) 6;
          d = MD5STEP F4 d a b c (inw ! 15 + 0xfe2ce6e0) 10;
          c = MD5STEP F4 c d a b (inw ! 6 + 0xa3014314) 15;
          b = MD5STEP F4 b c d a (inw ! 13 + 0x4e0811a1) 21;
          a = MD5STEP F4 a b c d (inw ! 4 + 0xf7537e82) 6;
          d = MD5STEP F4 d a b c (inw ! 11 + 0xbd3af235) 10;
          c = MD5STEP F4 c d a b (inw ! 2 + 0x2ad7d2bb) 15;
          b = MD5STEP F4 b c d a (inw ! 9 + 0xeb86d391) 21
      in [buf ! 0 + a, buf ! 1 + b, buf ! 2 + c, buf ! 3 + d])"

text \<open>The bytes of \<open>in\<close> as 16 words, least significant byte first, and back.\<close>

definition le_word :: "u8 list \<Rightarrow> u32" where
  "le_word p = push_bit 16 (push_bit 8 (ucast (p ! 3)) OR ucast (p ! 2)) OR (push_bit 8 (ucast (p ! 1)) OR ucast (p ! 0))"

definition le_words :: "u8 list \<Rightarrow> u32 list" where
  "le_words bs = map (\<lambda>i. le_word (take 4 (drop (4 * i) bs))) [0..<16]"

definition le_bytes :: "u32 \<Rightarrow> u8 list" where
  "le_bytes w = [ucast w, ucast (drop_bit 8 w), ucast (drop_bit 16 w), ucast (drop_bit 24 w)]"

text \<open>\<open>memcpy\<close> into \<open>in\<close> at an offset.\<close>

definition copy_in :: "nat \<Rightarrow> u8 list \<Rightarrow> u8 list \<Rightarrow> u8 list" where
  "copy_in off bs inb = take off inb @ bs @ drop (off + length bs) inb"

definition MD5Init :: "MD5Context \<Rightarrow> MD5Context" where
  "MD5Init ctx =
     ctx\<lparr>md5_buf := [0x67452301, 0xefcdab89, 0x98badcfe, 0x10325476], md5_bytes := (0, 0)\<rparr>"

text \<open>The loop over blocks of 64 bytes.\<close>

function update_blocks :: "u8 list \<Rightarrow> MD5Context \<Rightarrow> u8 list \<times> MD5Context" where
  "update_blocks buf ctx =
     (if length buf \<ge> 64 then
        (let ctx = ctx\<lparr>md5_in := copy_in 0 (take 64 buf) (md5_in ctx)\<rparr>;
             ctx = ctx\<lparr>md5_buf := MD5Transform (md5_buf ctx) (le_words (md5_in ctx))\<rparr>
         in update_blocks (drop 64 buf) ctx)
      else (buf, ctx))"
  by pat_completeness auto
termination by (relation "measure (length \<circ> fst)") auto

definition MD5Update :: "u8 list \<Rightarrow> MD5Context \<Rightarrow> MD5Context" where
  "MD5Update buf ctx =
     (let len = of_nat (length buf);
          t = fst (md5_bytes ctx);
          ctx = ctx\<lparr>md5_bytes := (t + len, if t + len < t then snd (md5_bytes ctx) + 1 else snd (md5_bytes ctx))\<rparr>;
          t = 64 - (t AND 0x3f)
      in if t > len then ctx\<lparr>md5_in := copy_in (unat (64 - t)) buf (md5_in ctx)\<rparr>
         else
           (let ctx = ctx\<lparr>md5_in := copy_in (unat (64 - t)) (take (unat t) buf) (md5_in ctx)\<rparr>;
                ctx = ctx\<lparr>md5_buf := MD5Transform (md5_buf ctx) (le_words (md5_in ctx))\<rparr>;
                (rest, ctx) = update_blocks (drop (unat t) buf) ctx
            in ctx\<lparr>md5_in := copy_in 0 rest (md5_in ctx)\<rparr>))"

definition MD5Final :: "MD5Context \<Rightarrow> u8 list \<times> MD5Context" where
  "MD5Final ctx =
     (let count = int (unat (fst (md5_bytes ctx) AND 0x3f));
          p = nat count;
          ctx = ctx\<lparr>md5_in := copy_in p [0x80] (md5_in ctx)\<rparr>;
          p = p + 1;
          count = 56 - 1 - count;
          (p, count, ctx) =
            (if count < 0 then
               (let ctx = ctx\<lparr>md5_in := copy_in p (replicate (nat (count + 8)) 0) (md5_in ctx)\<rparr>;
                    ctx = ctx\<lparr>md5_buf := MD5Transform (md5_buf ctx) (le_words (md5_in ctx))\<rparr>
                in (0, 56, ctx))
             else (p, count, ctx));
          ctx = ctx\<lparr>md5_in := copy_in p (replicate (nat count) 0) (md5_in ctx)\<rparr>;
          inw = (le_words (md5_in ctx))[14 := push_bit 3 (fst (md5_bytes ctx)),
                  15 := push_bit 3 (snd (md5_bytes ctx)) OR drop_bit 29 (fst (md5_bytes ctx))];
          ctx = ctx\<lparr>md5_buf := MD5Transform (md5_buf ctx) inw\<rparr>;
          digest = concat (map le_bytes (md5_buf ctx))
      in (digest, \<lparr>md5_buf = replicate 4 0, md5_bytes = (0, 0), md5_in = replicate 64 0\<rparr>))"

definition computeSum :: "u8 list \<Rightarrow> MD5Context \<Rightarrow> u8 list \<times> MD5Context" where
  "computeSum buf ctx = MD5Final (MD5Update buf (MD5Init ctx))"

definition compareSum :: "u8 list \<Rightarrow> u8 list \<Rightarrow> MD5Context \<Rightarrow> bool" where
  "compareSum buf digest ctx \<longleftrightarrow> fst (computeSum buf ctx) = digest"

text \<open>
  \<open>computeSum(FILE*)\<close>: the file is read in pieces of 1024 bytes; \<open>ferror\<close> is what \<open>ferror\<close>
  returns at the end, and content the bytes \<open>fread\<close> delivers.
\<close>

function read_loop :: "u8 list \<Rightarrow> MD5Context \<Rightarrow> MD5Context" where
  "read_loop content ctx =
     (if content = [] then ctx else read_loop (drop 1024 content) (MD5Update (take 1024 content) ctx))"
  by pat_completeness auto
termination by (relation "measure (length \<circ> fst)") (auto simp: length_greater_0_conv)

definition computeSum_file :: "u8 list \<Rightarrow> bool \<Rightarrow> MD5Context \<Rightarrow> bool \<times> u8 list" where
  "computeSum_file content ferror ctx =
     (let digest = fst (MD5Final (read_loop content (MD5Init ctx)))
      in (\<not> ferror, digest))"

definition compareSum_file :: "u8 list \<Rightarrow> bool \<Rightarrow> u8 list \<Rightarrow> MD5Context \<Rightarrow> bool" where
  "compareSum_file content ferror digest ctx =
     (let (ok, file_digest) = computeSum_file content ferror ctx
      in if \<not> ok then False else if digest \<noteq> file_digest then False else True)"

declare update_blocks.simps [simp del] read_loop.simps [simp del]

section \<open>RFC 1321\<close>

text \<open>
  The reference: the compression function as a loop over 64 steps with the tables of the RFC, the message
  padded and cut into blocks.
\<close>

definition md5_T :: "u32 list" where
  "md5_T =
    [0xd76aa478, 0xe8c7b756, 0x242070db, 0xc1bdceee, 0xf57c0faf, 0x4787c62a, 0xa8304613, 0xfd469501,
     0x698098d8, 0x8b44f7af, 0xffff5bb1, 0x895cd7be, 0x6b901122, 0xfd987193, 0xa679438e, 0x49b40821,
     0xf61e2562, 0xc040b340, 0x265e5a51, 0xe9b6c7aa, 0xd62f105d, 0x02441453, 0xd8a1e681, 0xe7d3fbc8,
     0x21e1cde6, 0xc33707d6, 0xf4d50d87, 0x455a14ed, 0xa9e3e905, 0xfcefa3f8, 0x676f02d9, 0x8d2a4c8a,
     0xfffa3942, 0x8771f681, 0x6d9d6122, 0xfde5380c, 0xa4beea44, 0x4bdecfa9, 0xf6bb4b60, 0xbebfbc70,
     0x289b7ec6, 0xeaa127fa, 0xd4ef3085, 0x04881d05, 0xd9d4d039, 0xe6db99e5, 0x1fa27cf8, 0xc4ac5665,
     0xf4292244, 0x432aff97, 0xab9423a7, 0xfc93a039, 0x655b59c3, 0x8f0ccc92, 0xffeff47d, 0x85845dd1,
     0x6fa87e4f, 0xfe2ce6e0, 0xa3014314, 0x4e0811a1, 0xf7537e82, 0xbd3af235, 0x2ad7d2bb, 0xeb86d391]"

definition md5_shift :: "nat \<Rightarrow> nat" where
  "md5_shift i = [7, 12, 17, 22, 5, 9, 14, 20, 4, 11, 16, 23, 6, 10, 15, 21] ! (4 * (i div 16) + i mod 4)"

definition md5_index :: "nat \<Rightarrow> nat" where
  "md5_index i = (if i < 16 then i else if i < 32 then 5 * i + 1 else if i < 48 then 3 * i + 5 else 7 * i) mod 16"

definition md5_f :: "nat \<Rightarrow> u32 \<Rightarrow> u32 \<Rightarrow> u32 \<Rightarrow> u32" where
  "md5_f i b c d =
     (if i < 16 then (b AND c) OR (NOT b AND d)
      else if i < 32 then (b AND d) OR (c AND NOT d)
      else if i < 48 then b XOR c XOR d
      else c XOR (b OR NOT d))"

fun md5_step :: "u32 list \<Rightarrow> nat \<Rightarrow> u32 \<times> u32 \<times> u32 \<times> u32 \<Rightarrow> u32 \<times> u32 \<times> u32 \<times> u32" where
  "md5_step M i (a, b, c, d) =
     (d, b + word_rotl (md5_shift i) (a + md5_f i b c d + M ! md5_index i + md5_T ! i), b, c)"

fun md5_compress :: "u32 list \<Rightarrow> u32 \<times> u32 \<times> u32 \<times> u32 \<Rightarrow> u32 \<times> u32 \<times> u32 \<times> u32" where
  "md5_compress M (a, b, c, d) =
     (let (a', b', c', d') = fold (md5_step M) [0..<64] (a, b, c, d) in (a + a', b + b', c + c', d + d'))"

fun md5_blocks :: "u8 list \<Rightarrow> u32 \<times> u32 \<times> u32 \<times> u32 \<Rightarrow> u32 \<times> u32 \<times> u32 \<times> u32" where
  "md5_blocks m h = (if length m < 64 then h else md5_blocks (drop 64 m) (md5_compress (le_words (take 64 m)) h))"

declare md5_blocks.simps [simp del]

definition md5_pad :: "u8 list \<Rightarrow> u8 list" where
  "md5_pad m = m @ [0x80] @ replicate ((119 - length m mod 64) mod 64) 0
     @ map (\<lambda>i. of_nat (8 * length m div 256 ^ i)) [0..<8]"

definition md5 :: "u8 list \<Rightarrow> u8 list" where
  "md5 m = (let (a, b, c, d) = md5_blocks (md5_pad m) (0x67452301, 0xefcdab89, 0x98badcfe, 0x10325476)
            in concat (map le_bytes [a, b, c, d]))"

section \<open>The compression function\<close>

lemma step_functions:
  "F1 x y z = (x AND y) OR (NOT x AND z)" "F2 x y z = (x AND z) OR (y AND NOT z)"
  by (rule bit_word_eqI; auto simp: F1_def F2_def bit_simps)+

lemma step_rotl: "s < 32 \<Longrightarrow> 0 < s \<Longrightarrow> push_bit s (w :: u32) OR drop_bit (32 - s) w = word_rotl s w"
proof (rule bit_word_eqI)
  fix n
  assume n: "s < 32" "0 < s" "n < LENGTH(32)"
  then have "s \<le> n \<Longrightarrow> \<not> bit w (32 + n - s)" using bit_imp_le_length [of w "32 + n - s"] by auto
  moreover have "(n + 32 - s) mod 32 = (if s \<le> n then n - s else 32 + n - s)"
    using n by (auto simp: mod_if)
  ultimately show "bit (push_bit s w OR drop_bit (32 - s) w) n = bit (word_rotl s w) n"
    using n by (auto simp: bit_simps bit_word_rotl_iff)
qed

definition md5_value :: "u32 list \<Rightarrow> nat \<Rightarrow> u32 \<Rightarrow> u32 \<Rightarrow> u32 \<Rightarrow> u32 \<Rightarrow> u32" where
  "md5_value M i a b c d = b + word_rotl (md5_shift i) (a + md5_f i b c d + M ! md5_index i + md5_T ! i)"

lemma chain:
  assumes "e = md5_value M i a b c d" "\<And>v. P v = R (fold (md5_step M) is (d, v, b, c))"
  shows "(let v = e in P v) = R (fold (md5_step M) (i # is) (a, b, c, d))"
  using assms by (simp add: md5_value_def)

lemma step_value:
  assumes "i < 16 \<Longrightarrow> f = F1" "\<not> i < 16 \<Longrightarrow> i < 32 \<Longrightarrow> f = F2" "\<not> i < 32 \<Longrightarrow> i < 48 \<Longrightarrow> f = F3" "\<not> i < 48 \<Longrightarrow> f = F4"
    "k = md5_T ! i" "g = md5_index i" "s = md5_shift i" "0 < s" "s < 32"
  shows "MD5STEP f a b c d (M ! g + k) s = md5_value M i a b c d"
proof -
  have "f b c d = md5_f i b c d"
    using assms(1-4) by (auto simp: md5_f_def step_functions F3_def F4_def)
  then show ?thesis
    using assms(5-) by (simp add: MD5STEP_def md5_value_def Let_def step_rotl add.assoc add.commute add.left_commute)
qed

lemma let_step_value: "P e = y \<Longrightarrow> (let v = e in P v) = y"
  by simp

definition md5_out :: "u32 list \<Rightarrow> u32 \<times> u32 \<times> u32 \<times> u32 \<Rightarrow> u32 list" where
  "md5_out buf = (\<lambda>(a, b, c, d). [buf ! 0 + a, buf ! 1 + b, buf ! 2 + c, buf ! 3 + d])"

lemma transform_steps:
  "MD5Transform buf M = md5_out buf (fold (md5_step M)
    [0, 1, 2, 3, 4, 5, 6, 7, 8, 9, 10, 11, 12, 13, 14, 15, 16, 17, 18, 19, 20, 21, 22, 23, 24, 25, 26, 27, 28, 29, 30, 31,
     32, 33, 34, 35, 36, 37, 38, 39, 40, 41, 42, 43, 44, 45, 46, 47, 48, 49, 50, 51, 52, 53, 54, 55, 56, 57, 58, 59, 60, 61, 62, 63]
    (buf ! 0, buf ! 1, buf ! 2, buf ! 3))"
  unfolding MD5Transform_def
  by (rule let_step_value, rule let_step_value, rule let_step_value, rule let_step_value, (rule chain [where R = "md5_out buf"], (rule step_value; simp add: md5_T_def md5_index_def md5_shift_def))+,
    simp add: md5_out_def)


definition md5_list :: "u32 \<times> u32 \<times> u32 \<times> u32 \<Rightarrow> u32 list" where
  "md5_list = (\<lambda>(a, b, c, d). [a, b, c, d])"

lemma transform_compress: "MD5Transform (md5_list h) M = md5_list (md5_compress M h)"
proof -
  obtain a b c d where h: "h = (a, b, c, d)" by (cases h)
  have l: "[0..<64] = [0, 1, 2, 3, 4, 5, 6, 7, 8, 9, 10, 11, 12, 13, 14, 15, 16, 17, 18, 19, 20, 21, 22, 23, 24, 25, 26, 27,
     28, 29, 30, 31, 32, 33, 34, 35, 36, 37, 38, 39, 40, 41, 42, 43, 44, 45, 46, 47, 48, 49, 50, 51, 52, 53, 54, 55, 56, 57,
     58, 59, 60, 61, 62, 63]" by (simp add: upt_rec flip: numeral_2_eq_2)
  show ?thesis unfolding h md5_list_def prod.case transform_steps l [symmetric] md5_compress.simps
    by (simp add: md5_out_def split: prod.split)
qed

section \<open>Messages in pieces\<close>

lemma copy_in_length: "off + length bs \<le> length inb \<Longrightarrow> length (copy_in off bs inb) = length inb"
  by (simp add: copy_in_def)

lemma copy_in_take: "off + length bs \<le> length inb \<Longrightarrow> take (off + length bs) (copy_in off bs inb) = take off inb @ bs"
  by (simp add: copy_in_def)

lemma copy_in_all: "off + length bs = length inb \<Longrightarrow> copy_in off bs inb = take off inb @ bs"
  by (simp add: copy_in_def)

definition tail64 :: "u8 list \<Rightarrow> u8 list" where
  "tail64 m = drop (64 * (length m div 64)) m"

lemma length_tail64: "length (tail64 m) = length m mod 64"
  by (simp add: tail64_def minus_mult_div_eq_mod)

lemma tail64_drop: "64 \<le> length m \<Longrightarrow> tail64 (drop 64 m) = tail64 m"
proof -
  assume "64 \<le> length m"
  then have "length m div 64 = Suc ((length m - 64) div 64)" by (simp add: le_div_geq)
  then show ?thesis by (simp add: tail64_def add.commute)
qed

lemma tail64_short: "length m < 64 \<Longrightarrow> tail64 m = m"
  by (simp add: tail64_def)

lemma md5_blocks_append: "md5_blocks (m @ x) h = md5_blocks (tail64 m @ x) (md5_blocks m h)"
proof (induction m h rule: md5_blocks.induct)
  case (1 m h)
  show ?case
  proof (cases "length m < 64")
    case True
    then show ?thesis by (simp add: tail64_short md5_blocks.simps [of m])
  next
    case False
    then show ?thesis using 1 by (simp add: md5_blocks.simps [of "m @ x"] md5_blocks.simps [of m] tail64_drop)
  qed
qed

lemma tail64_append: "tail64 (m @ x) = tail64 (tail64 m @ x)"
proof (induction m "h0 :: u32 \<times> u32 \<times> u32 \<times> u32" rule: md5_blocks.induct)
  case (1 m h)
  show ?case
  proof (cases "length m < 64")
    case True
    then show ?thesis by (simp add: tail64_short)
  next
    case False
    then show ?thesis using 1 tail64_drop [of "m @ x"] by (simp add: tail64_drop)
  qed
qed

text \<open>The context after the bytes \<open>m\<close>.\<close>

abbreviation (input) md5_h0 :: "u32 \<times> u32 \<times> u32 \<times> u32" where
  "md5_h0 \<equiv> (0x67452301, 0xefcdab89, 0x98badcfe, 0x10325476)"

definition md5_rep :: "u8 list \<Rightarrow> MD5Context \<Rightarrow> bool" where
  "md5_rep m ctx \<longleftrightarrow> md5_buf ctx = md5_list (md5_blocks m md5_h0)
     \<and> md5_bytes ctx = (of_nat (length m), of_nat (length m div 2 ^ 32))
     \<and> length (md5_in ctx) = 64 \<and> take (length m mod 64) (md5_in ctx) = tail64 m"

lemma rep_init: "length (md5_in ctx) = 64 \<Longrightarrow> md5_rep [] (MD5Init ctx)"
  by (simp add: md5_rep_def MD5Init_def md5_list_def md5_blocks.simps tail64_def)

lemma update_blocks_spec:
  assumes "length (md5_in ctx) = 64" "md5_buf ctx = md5_list h"
  shows "\<exists>i. length i = 64 \<and>
    update_blocks buf ctx = (tail64 buf, ctx\<lparr>md5_in := i, md5_buf := md5_list (md5_blocks buf h)\<rparr>)"
  using assms
proof (induction "length buf" arbitrary: buf ctx h rule: less_induct)
  case less
  show ?case
  proof (cases "length buf < 64")
    case True
    then have "update_blocks buf ctx = (tail64 buf, ctx\<lparr>md5_in := md5_in ctx, md5_buf := md5_list (md5_blocks buf h)\<rparr>)"
      using less.prems by (simp add: update_blocks.simps [of buf] md5_blocks.simps [of buf] tail64_short)
    with less.prems(1) show ?thesis by blast
  next
    case False
    define c where "c = ctx\<lparr>md5_in := take 64 buf, md5_buf := md5_list (md5_compress (le_words (take 64 buf)) h)\<rparr>"
    have "copy_in 0 (take 64 buf) (md5_in ctx) = take 64 buf" using False less.prems(1) by (simp add: copy_in_def)
    then have u: "update_blocks buf ctx = update_blocks (drop 64 buf) c"
      using False less.prems(2) by (simp add: update_blocks.simps [of buf] c_def Let_def transform_compress)
    have "length (drop 64 buf) < length buf" "length (md5_in c) = 64" "md5_buf c = md5_list (md5_compress (le_words (take 64 buf)) h)"
      using False by (simp_all add: c_def)
    from less.hyps [OF this] show ?thesis
      using False by (auto simp: u c_def tail64_drop md5_blocks.simps [of buf])
  qed
qed

lemma u32_of_nat_mod: "unat (of_nat n :: u32) = n mod 2 ^ 32"
  by (simp add: unsigned_of_nat take_bit_eq_mod)

lemma low6: "unat ((of_nat n :: u32) AND 0x3f) = n mod 64"
proof -
  have "(of_nat n :: u32) AND 0x3f = take_bit 6 (of_nat n)" by (simp add: take_bit_eq_mask mask_eq_exp_minus_1)
  then have "unat ((of_nat n :: u32) AND 0x3f) = take_bit 6 (n mod 2 ^ 32)" by (simp only: unsigned_take_bit_eq u32_of_nat_mod)
  also have "\<dots> = n mod 64" unfolding take_bit_eq_mod by (simp add: mod_mod_cancel)
  finally show ?thesis .
qed

lemma count_carry:
  assumes "k < 2 ^ 32"
  shows "(if of_nat n + of_nat k < (of_nat n :: u32) then of_nat (n div 2 ^ 32) + 1 else of_nat (n div 2 ^ 32)) =
    (of_nat ((n + k) div 2 ^ 32) :: u32)"
proof -
  define r q where "r = n mod 2 ^ 32" and "q = n div 2 ^ 32"
  have n: "n = q * 2 ^ 32 + r" "r < 2 ^ 32" by (simp_all add: r_def q_def)
  have c: "(of_nat n + of_nat k < (of_nat n :: u32)) \<longleftrightarrow> 2 ^ 32 \<le> r + k"
  proof -
    have "unat (of_nat n + of_nat k :: u32) = (r + k) mod 2 ^ 32"
      unfolding of_nat_add [symmetric] u32_of_nat_mod r_def by (simp only: mod_add_left_eq)
    moreover have "(r + k) mod 2 ^ 32 = (if 2 ^ 32 \<le> r + k then r + k - 2 ^ 32 else r + k)"
      using n(2) assms by (simp add: mod_if)
    ultimately show ?thesis unfolding word_less_nat_alt u32_of_nat_mod r_def [symmetric] using assms n(2) by auto
  qed
  have "(n + k) div 2 ^ 32 = q + (r + k) div 2 ^ 32" using n(1) by (metis add.assoc div_mult_self3 mult.commute zero_neq_numeral power_not_zero)
  moreover have "(r + k) div 2 ^ 32 = (if 2 ^ 32 \<le> r + k then 1 else 0)"
    using n(2) assms by (auto simp: div_if)
  ultimately show ?thesis unfolding c q_def [symmetric] by (simp add: add.commute)
qed

lemma rep_update:
  assumes "md5_rep m ctx" "length x < 2 ^ 32"
  shows "md5_rep (m @ x) (MD5Update x ctx)"
proof -
  define r where "r = length m mod 64"
  define t where "t = 64 - (fst (md5_bytes ctx) AND 0x3f)"
  define c where "c = ctx\<lparr>md5_bytes := (of_nat (length (m @ x)), of_nat (length (m @ x) div 2 ^ 32))\<rparr>"
  have i: "md5_buf ctx = md5_list (md5_blocks m md5_h0)" "md5_bytes ctx = (of_nat (length m), of_nat (length m div 2 ^ 32))"
    "length (md5_in ctx) = 64" "take r (md5_in ctx) = tail64 m"
    using assms(1) by (simp_all add: md5_rep_def r_def)
  have r: "r < 64" by (simp add: r_def)
  have b: "unat (fst (md5_bytes ctx) AND 0x3f) = r" by (simp add: i(2) low6 r_def)
  have t: "unat t = 64 - r" "unat (64 - t) = r"
    using r b by (simp_all add: t_def unat_sub word_le_nat_alt)
  have l: "unat (of_nat (length x) :: u32) = length x" using assms(2) by (simp add: u32_of_nat_mod)
  have cc: "(fst (md5_bytes ctx) + of_nat (length x),
      if fst (md5_bytes ctx) + of_nat (length x) < fst (md5_bytes ctx) then snd (md5_bytes ctx) + 1 else snd (md5_bytes ctx)) =
      (of_nat (length (m @ x)), of_nat (length (m @ x) div 2 ^ 32))"
    using count_carry [OF assms(2), of "length m"] by (simp only: i(2) fst_conv snd_conv length_append of_nat_add)
  have cmp: "(of_nat (length x) < t) = (length x < 64 - r)" by (simp only: word_less_nat_alt t(1) l)
  have u: "MD5Update x ctx = (if length x < 64 - r then c\<lparr>md5_in := copy_in r x (md5_in ctx)\<rparr>
      else (let c = c\<lparr>md5_in := copy_in r (take (64 - r) x) (md5_in ctx)\<rparr>;
                c = c\<lparr>md5_buf := MD5Transform (md5_buf c) (le_words (md5_in c))\<rparr>;
                (rest, c) = update_blocks (drop (64 - r) x) c
            in c\<lparr>md5_in := copy_in 0 rest (md5_in c)\<rparr>))"
    unfolding MD5Update_def Let_def cc t_def [symmetric] cmp t c_def [symmetric] by (simp add: c_def)
  show ?thesis
  proof (cases "length x < 64 - r")
    case True
    then have s64: "length m mod 64 + length x < 64" using r unfolding r_def by linarith
    have "tail64 (m @ x) = tail64 m @ x" unfolding tail64_append [of m]
      using True r by (intro tail64_short) (simp add: length_tail64 r_def)
    moreover have "md5_blocks (m @ x) md5_h0 = md5_blocks m md5_h0" unfolding md5_blocks_append [of m]
      using s64 by (subst md5_blocks.simps) (simp add: length_tail64)
    moreover have "length (m @ x) mod 64 = r + length x" using True r by (simp add: r_def mod_add_left_eq [symmetric, of "length m"])
    ultimately show ?thesis
      using True i r copy_in_length [of r x "md5_in ctx"] copy_in_take [of r x "md5_in ctx"]
      by (simp add: u md5_rep_def c_def)
  next
    case False
    define first where "first = tail64 m @ take (64 - r) x"
    define h where "h = md5_compress (le_words first) (md5_blocks m md5_h0)"
    define d where "d = c\<lparr>md5_in := first, md5_buf := md5_list h\<rparr>"
    have f: "length first = 64" using False r by (simp add: first_def length_tail64 r_def)
    have "copy_in r (take (64 - r) x) (md5_in ctx) = first" using False i(3,4) r by (simp add: copy_in_all first_def)
    then have "MD5Update x ctx = (let (rest, c) = update_blocks (drop (64 - r) x) d in c\<lparr>md5_in := copy_in 0 rest (md5_in c)\<rparr>)"
      using False by (simp add: u d_def c_def i(1) transform_compress h_def Let_def)
    moreover obtain j where j: "length j = 64" "update_blocks (drop (64 - r) x) d =
        (tail64 (drop (64 - r) x), d\<lparr>md5_in := j, md5_buf := md5_list (md5_blocks (drop (64 - r) x) h)\<rparr>)"
      using update_blocks_spec [of d h "drop (64 - r) x"] f by (auto simp: d_def)
    moreover have mx: "tail64 m @ x = first @ drop (64 - r) x" by (simp add: first_def)
    have "md5_blocks (m @ x) md5_h0 = md5_blocks (drop (64 - r) x) h"
      unfolding md5_blocks_append [of m] mx using f by (subst md5_blocks.simps) (simp add: h_def)
    moreover have tl: "tail64 (m @ x) = tail64 (drop (64 - r) x)"
      unfolding tail64_append [of m] mx using tail64_drop [of "first @ drop (64 - r) x"] f by simp
    moreover have "length (tail64 (m @ x)) = length (m @ x) mod 64" by (rule length_tail64)
    ultimately show ?thesis
      using copy_in_take [of 0 "tail64 (drop (64 - r) x)" j] copy_in_length [of 0 "tail64 (drop (64 - r) x)" j]
        mod_less_divisor [of 64 "length (m @ x)"]
      by (simp add: md5_rep_def d_def c_def)
  qed
qed

text \<open>The length field.\<close>

lemma bit_le_word:
  assumes "length p = 4" "k < 32"
  shows "bit (le_word p) k = bit (p ! (k div 8)) (k mod 8)"
proof -
  have "k < 8 \<or> 8 \<le> k \<and> k < 16 \<or> 16 \<le> k \<and> k < 24 \<or> 24 \<le> k" by linarith
  then show ?thesis
  proof (elim disjE)
    assume k: "k < 8"
    then show ?thesis by (auto simp: le_word_def bit_simps)
  next
    assume k: "8 \<le> k \<and> k < 16"
    then have q: "k div 8 = 1" by (simp add: div_nat_eqI)
    then have "k mod 8 = k - 8" using minus_div_mult_eq_mod [of k 8] by simp
    with k q show ?thesis by (auto simp: le_word_def bit_simps dest: bit_imp_le_length)
  next
    assume k: "16 \<le> k \<and> k < 24"
    then have q: "k div 8 = 2" by (simp add: div_nat_eqI)
    then have "k mod 8 = k - 16" using minus_div_mult_eq_mod [of k 8] by simp
    with k q show ?thesis by (auto simp: le_word_def bit_simps dest: bit_imp_le_length)
  next
    assume k: "24 \<le> k"
    then have q: "k div 8 = 3" using assms(2) by (simp add: div_nat_eqI)
    then have "k mod 8 = k - 24" using minus_div_mult_eq_mod [of k 8] by simp
    with k q show ?thesis using assms(2) by (auto simp: le_word_def bit_simps dest: bit_imp_le_length)
  qed
qed

lemma bit_le_word_map: "k < 32 \<Longrightarrow> bit (le_word (map g [a..<a + 4])) k = bit (g (a + k div 8)) (k mod 8)"
  by (simp add: bit_le_word less_mult_imp_div_less)

lemma length_byte: "j < 8 \<Longrightarrow> bit (of_nat (n div 256 ^ i) :: u8) j = bit n (8 * i + j)"
proof -
  assume j: "j < 8"
  have "(256 :: nat) ^ i = 2 ^ (8 * i)" by (simp add: power_mult)
  then have "n div 256 ^ i = drop_bit (8 * i) n" by (simp add: drop_bit_eq_div)
  then show ?thesis using j by (simp add: bit_simps)
qed

lemma length_words:
  "le_word (map (\<lambda>i. of_nat (8 * n div 256 ^ i)) [0..<4]) = push_bit 3 (of_nat n)"
  "le_word (map (\<lambda>i. of_nat (8 * n div 256 ^ i)) [4..<8]) = push_bit 3 (of_nat (n div 2 ^ 32)) OR drop_bit 29 (of_nat n)"
proof -
  have e: "bit (8 * n) k \<longleftrightarrow> 3 \<le> k \<and> bit n (k - 3)" for k
  proof -
    have "8 * n = push_bit 3 n" by (simp add: push_bit_eq_mult)
    then show ?thesis by (simp only: bit_push_bit_iff_nat)
  qed
  have d: "bit (n div 2 ^ 32) k = bit n (32 + k)" for k unfolding drop_bit_eq_div [symmetric] by (simp add: bit_simps)
  show "le_word (map (\<lambda>i. of_nat (8 * n div 256 ^ i)) [0..<4]) = push_bit 3 (of_nat n)"
  proof (rule bit_word_eqI)
    fix k
    assume k: "k < LENGTH(32)"
    then have "k div 8 < 4" "k mod 8 < 8" by auto
    then have "bit (le_word (map (\<lambda>i. of_nat (8 * n div 256 ^ i)) [0..<4])) k = bit (8 * n) (8 * (k div 8) + k mod 8)"
      using k by (simp add: bit_le_word length_byte)
    then show "bit (le_word (map (\<lambda>i. of_nat (8 * n div 256 ^ i)) [0..<4])) k = bit (push_bit 3 (of_nat n :: u32)) k"
      using k e [of k] by (auto simp: bit_simps)
  qed
  show "le_word (map (\<lambda>i. of_nat (8 * n div 256 ^ i)) [4..<8]) = push_bit 3 (of_nat (n div 2 ^ 32)) OR drop_bit 29 (of_nat n)"
  proof (rule bit_word_eqI)
    fix k
    assume k: "k < LENGTH(32)"
    then have "k div 8 < 4" "k mod 8 < 8" by auto
    moreover have "8 * (4 + k div 8) + k mod 8 = 32 + k" by (simp add: algebra_simps)
    ultimately have "bit (le_word (map (\<lambda>i. of_nat (8 * n div 256 ^ i)) [4..<8])) k = bit n (29 + k)"
      using bit_le_word_map [of k "\<lambda>i. of_nat (8 * n div 256 ^ i)" 4] k e [of "32 + k"] length_byte [of "k mod 8" "8 * n" "4 + k div 8"]
      by (simp only: numeral_plus_numeral semiring_norm) simp
    moreover have "bit n (29 + k) \<longleftrightarrow> (3 \<le> k \<and> bit n (32 + (k - 3))) \<or> (29 + k < 32 \<and> bit n (29 + k))"
      by (cases "3 \<le> k") auto
    ultimately show "bit (le_word (map (\<lambda>i. of_nat (8 * n div 256 ^ i)) [4..<8])) k =
        bit (push_bit 3 (of_nat (n div 2 ^ 32)) OR drop_bit 29 (of_nat n) :: u32) k"
      using k less_imp_diff_less [of k 32 3] by (simp add: bit_simps d [simplified])
  qed
qed

lemma le_words_length_field:
  assumes "length z = 64" "take 56 z = x" "length y = 8"
  shows "(le_words z)[14 := le_word (take 4 y), 15 := le_word (drop 4 y)] = le_words (x @ y)"
proof (rule nth_equalityI)
  show "length ((le_words z)[14 := le_word (take 4 y), 15 := le_word (drop 4 y)]) = length (le_words (x @ y))"
    by (simp add: le_words_def)
next
  fix i
  assume "i < length ((le_words z)[14 := le_word (take 4 y), 15 := le_word (drop 4 y)])"
  then have i: "i < 16" by (simp add: le_words_def)
  have x: "length x = 56" using assms(1,2) by auto
  show "(le_words z)[14 := le_word (take 4 y), 15 := le_word (drop 4 y)] ! i = le_words (x @ y) ! i"
  proof (cases "i < 14")
    case True
    then have "take 4 (drop (4 * i) z) = take 4 (drop (4 * i) x)"
      unfolding assms(2) [symmetric] by (simp add: drop_take min_def)
    with True x show ?thesis by (simp add: le_words_def nth_list_update)
  next
    case False
    then have "i = 14 \<or> i = 15" using i by auto
    then show ?thesis using x assms(3) by (auto simp: le_words_def)
  qed
qed

lemma pad_blocks:
  assumes "r = length m mod 64" "lf = map (\<lambda>i. of_nat (8 * length m div 256 ^ i)) [0..<8]"
  shows "md5_blocks (md5_pad m) h0 = (let h = md5_blocks m h0 in
     if r \<le> 55 then md5_compress (le_words ((tail64 m @ [0x80] @ replicate (55 - r) 0) @ lf)) h
     else md5_compress (le_words (replicate 56 0 @ lf)) (md5_compress (le_words (tail64 m @ [0x80] @ replicate (63 - r) 0)) h))"
proof -
  define h where "h = md5_blocks m h0"
  have r: "r < 64" by (simp add: assms(1))
  have one: "md5_blocks x g = md5_compress (le_words x) g" if "length x = 64" for x g
    using that by (simp add: md5_blocks.simps [of x] md5_blocks.simps [of "[]"])
  have two: "md5_blocks (a @ b) g = md5_blocks b (md5_compress (le_words a) g)" if "length a = 64" for a b g
    using that by (simp add: md5_blocks.simps [of "a @ b"])
  have p: "md5_blocks (md5_pad m) h0 = md5_blocks (tail64 m @ [0x80] @ replicate ((119 - r) mod 64) 0 @ lf) h"
    unfolding md5_pad_def md5_blocks_append [of m] h_def assms by simp
  show ?thesis
  proof (cases "r \<le> 55")
    case True
    then have "(119 - r) mod 64 = 55 - r" using mod_add_self2 [of "55 - r" 64] by simp
    with True p one [of "tail64 m @ [0x80] @ replicate (55 - r) 0 @ lf"] show ?thesis
      by (simp add: h_def length_tail64 assms)
  next
    case False
    then have "replicate ((119 - r) mod 64) (0 :: u8) = replicate (63 - r) 0 @ replicate 56 0"
      using r by (simp flip: replicate_add)
    then have e: "tail64 m @ [0x80] @ replicate ((119 - r) mod 64) 0 @ lf =
        (tail64 m @ [0x80] @ replicate (63 - r) 0) @ (replicate 56 0 @ lf)" by simp
    have l: "length (tail64 m @ [0x80] @ replicate (63 - r) 0) = 64" "length (replicate 56 (0 :: u8) @ lf) = 64"
      using r by (simp_all add: length_tail64 assms)
    show ?thesis using False unfolding p e two [OF l(1)] one [OF l(2)] by (simp add: h_def)
  qed
qed

lemma rep_final:
  assumes "md5_rep m ctx"
  shows "fst (MD5Final ctx) = md5 m"
proof -
  define r where "r = length m mod 64"
  define lf :: "u8 list" where "lf = map (\<lambda>i. of_nat (8 * length m div 256 ^ i)) [0..<8]"
  define h where "h = md5_blocks m md5_h0"
  have i: "md5_buf ctx = md5_list h" "md5_bytes ctx = (of_nat (length m), of_nat (length m div 2 ^ 32))"
    "length (md5_in ctx) = 64" "take r (md5_in ctx) = tail64 m"
    using assms by (simp_all add: md5_rep_def r_def h_def)
  have r: "r < 64" by (simp add: r_def)
  have b: "unat (fst (md5_bytes ctx) AND 0x3f) = r" by (simp add: i(2) low6 r_def)
  define c1 where "c1 = copy_in r [0x80] (md5_in ctx)"
  have c1: "length c1 = 64" "take (r + 1) c1 = tail64 m @ [0x80]"
    using copy_in_length [of r "[0x80]" "md5_in ctx"] copy_in_take [of r "[0x80]" "md5_in ctx"] r i(3,4) by (simp_all add: c1_def)
  have lf: "take 4 lf = map (\<lambda>i. of_nat (8 * length m div 256 ^ i)) [0..<4]" "drop 4 lf = map (\<lambda>i. of_nat (8 * length m div 256 ^ i)) [4..<8]"
    "length lf = 8"
    by (simp_all add: lf_def take_map drop_map)
  have fin: "(le_words z)[14 := push_bit 3 (fst (md5_bytes ctx)), 15 := push_bit 3 (snd (md5_bytes ctx)) OR drop_bit 29 (fst (md5_bytes ctx))]
      = le_words (x @ lf)" if "length z = 64" "take 56 z = x" for x z
    using le_words_length_field [OF that lf(3)] by (simp only: lf(1,2) length_words i(2) fst_conv snd_conv)
  have dig: "md5 m = concat (map le_bytes (md5_list (md5_blocks (md5_pad m) md5_h0)))"
    by (simp add: md5_def md5_list_def split: prod.split)
  show ?thesis
  proof (cases "r \<le> 55")
    case True
    define z where "z = copy_in (r + 1) (replicate (55 - r) 0) c1"
    have z: "length z = 64" "take 56 z = tail64 m @ [0x80] @ replicate (55 - r) 0"
      using copy_in_length [of "r + 1" "replicate (55 - r) 0" c1] copy_in_take [of "r + 1" "replicate (55 - r) 0" c1] True c1
      by (simp_all add: z_def)
    have "nat (55 - int r) = 55 - r" by simp
    then have "fst (MD5Final ctx) = concat (map le_bytes (MD5Transform (md5_list h) (le_words ((tail64 m @ [0x80] @ replicate (55 - r) 0) @ lf))))"
      unfolding MD5Final_def Let_def b using True fin [OF z] i(1)
      by (simp add: z_def c1_def)
    then show ?thesis using True unfolding dig pad_blocks [OF r_def lf_def] by (simp add: transform_compress h_def)
  next
    case False
    define z1 where "z1 = copy_in (r + 1) (replicate (63 - r) 0) c1"
    define z2 where "z2 = copy_in 0 (replicate 56 0) z1"
    have z1: "z1 = tail64 m @ [0x80] @ replicate (63 - r) 0" "length z1 = 64"
      using copy_in_all [of "r + 1" "replicate (63 - r) 0" c1] copy_in_length [of "r + 1" "replicate (63 - r) 0" c1] r c1
      by (simp_all add: z1_def length_tail64 flip: r_def)
    have z2: "length z2 = 64" "take 56 z2 = replicate 56 0"
      using copy_in_length [of 0 "replicate 56 0" z1] copy_in_take [of 0 "replicate 56 0" z1] z1(2) by (simp_all add: z2_def)
    have "nat (55 - int r + 8) = 63 - r" by simp
    then have "fst (MD5Final ctx) = concat (map le_bytes (MD5Transform (MD5Transform (md5_list h) (le_words z1)) (le_words (replicate 56 0 @ lf))))"
      unfolding MD5Final_def Let_def b using False fin [OF z2] i(1)
      by (simp add: z2_def z1_def c1_def)
    then show ?thesis using False unfolding dig pad_blocks [OF r_def lf_def] by (simp add: transform_compress h_def z1(1))
  qed
qed

lemma rep_read_loop: "md5_rep m ctx \<Longrightarrow> md5_rep (m @ content) (read_loop content ctx)"
proof (induction content ctx arbitrary: m rule: read_loop.induct)
  case (1 content ctx)
  show ?case
  proof (cases "content = []")
    case True
    then show ?thesis using "1.prems" by (simp add: read_loop.simps [of "[]"])
  next
    case False
    have "md5_rep (m @ take 1024 content) (MD5Update (take 1024 content) ctx)"
      using "1.prems" by (rule rep_update) simp
    from "1.IH" [OF False this] False show ?thesis by (simp add: read_loop.simps [of content])
  qed
qed

text \<open>
  C32. The implementation computes MD5 as RFC 1321 defines it, for every message and however it is cut
  into pieces of less than 4 GiB: any sequence of \<open>MD5Update\<close> calls between \<open>MD5Init\<close> and
  \<open>MD5Final\<close> gives the digest of the concatenation. In particular the digest of a memory block and the digest of
  a file read in pieces of 1024 bytes are the MD5 of their content.
\<close>
theorem md5_correct:
  assumes "length (md5_in ctx) = 64" and "\<forall>x\<in>set xs. length x < 2 ^ 32" and "length x < 2 ^ 32"
  shows "fst (MD5Final (fold MD5Update xs (MD5Init ctx))) = md5 (concat xs)
    \<and> fst (computeSum x ctx) = md5 x \<and> computeSum_file content ferror ctx = (\<not> ferror, md5 content)"
proof -
  have "md5_rep m c \<Longrightarrow> \<forall>x\<in>set xs. length x < 2 ^ 32 \<Longrightarrow> md5_rep (m @ concat xs) (fold MD5Update xs c)" for m c
  proof (induction xs arbitrary: m c)
    case (Cons y ys)
    then show ?case using rep_update [of m c y] Cons.IH [of "m @ y" "MD5Update y c"] by simp
  qed simp
  from this [OF rep_init [OF assms(1)] assms(2)] rep_update [OF rep_init [OF assms(1)] assms(3)]
    rep_read_loop [OF rep_init [OF assms(1)], of content]
  show ?thesis by (simp add: rep_final computeSum_def computeSum_file_def)
qed

theorem md5_correct_witness:
  "fst (MD5Final (MD5Update [0x62, 0x63] (MD5Update [0x61] (MD5Init \<lparr>md5_buf = [], md5_bytes = (0, 0), md5_in = replicate 64 0\<rparr>))))
   = fst (computeSum [0x61, 0x62, 0x63] \<lparr>md5_buf = [], md5_bytes = (0, 0), md5_in = replicate 64 0\<rparr>)"
  using md5_correct [of "\<lparr>md5_buf = [], md5_bytes = (0, 0), md5_in = replicate 64 0\<rparr>" "[[0x61], [0x62, 0x63]]" "[0x61, 0x62, 0x63]" "[]" False]
  by simp

end
