(* ===== verification/Dirty_Rects.thy ===== *)
theory Dirty_Rects
  imports Dsp_Prelude
begin

text \<open>
  The dirty rectangle map of a screen or surface (\<open>src/src/dirty_rects.cpp\<close>) and the loop of
  \<open>HostScreen::refreshScreen\<close> (\<open>src/src/hostscreen.cpp\<close>) that turns the map into update rectangles.
  Coordinates are C ints, taken as mathematical integers: the code relies on no wrap-around.
  A write outside \<open>dirtyMarker\<close>, or a negative array size, is the value None.
\<close>

section \<open>Model\<close>

record DirtyRects =
  dirtyMarker :: "u8 list"
  dirtyW :: int
  dirtyH :: int
  areaW :: int
  areaH :: int
  minDirtX :: int
  minDirtY :: int
  maxDirtX :: int
  maxDirtY :: int

definition blocks16 :: "int \<Rightarrow> int" where
  "blocks16 width = (let n = drop_bit 4 width in if width AND 15 \<noteq> 0 then n + 1 else n)"

definition resizeDirty :: "int \<Rightarrow> int \<Rightarrow> DirtyRects option" where
  "resizeDirty width height =
     (let w = blocks16 width; h = blocks16 height
      in if w * h < 0 then None
         else Some \<lparr>dirtyMarker = replicate (nat (w * h)) 1, dirtyW = w, dirtyH = h,
                    areaW = width, areaH = height,
                    minDirtX = 0, minDirtY = 0, maxDirtX = width - 1, maxDirtY = height - 1\<rparr>)"

definition mark_block :: "int \<Rightarrow> int \<Rightarrow> DirtyRects \<Rightarrow> DirtyRects option" where
  "mark_block y x s =
     (if x \<ge> 0 \<and> x < dirtyW s \<and> y \<ge> 0 \<and> y < dirtyH s
      then let i = y * dirtyW s + x
           in if 0 \<le> i \<and> i < int (length (dirtyMarker s))
              then Some (s\<lparr>dirtyMarker := (dirtyMarker s)[nat i := 1]\<rparr>)
              else None
      else Some s)"

fun foldo :: "('a \<Rightarrow> 's \<Rightarrow> 's option) \<Rightarrow> 'a list \<Rightarrow> 's \<Rightarrow> 's option" where
  "foldo f [] s = Some s"
| "foldo f (x # xs) s = (case f x s of None \<Rightarrow> None | Some s' \<Rightarrow> foldo f xs s')"

definition mark_bounds :: "int \<Rightarrow> int \<Rightarrow> int \<Rightarrow> int \<Rightarrow> DirtyRects \<Rightarrow> DirtyRects" where
  "mark_bounds x y w h s =
     (let s = (if x < minDirtX s then s\<lparr>minDirtX := x AND NOT 15\<rparr> else s);
          s = (if y < minDirtY s then s\<lparr>minDirtY := y AND NOT 15\<rparr> else s);
          s = (if x + w - 1 > maxDirtX s then s\<lparr>maxDirtX := x + w - 1\<rparr> else s);
          s = (if y + h - 1 > maxDirtY s then s\<lparr>maxDirtY := y + h - 1\<rparr> else s)
      in s)"

definition end_block :: "int \<Rightarrow> int" where
  "end_block x2 = drop_bit 4 (if x2 AND 15 \<noteq> 0 then (x2 OR 15) + 1 else x2)"

definition setDirtyRect :: "int \<Rightarrow> int \<Rightarrow> int \<Rightarrow> int \<Rightarrow> DirtyRects \<Rightarrow> DirtyRects option" where
  "setDirtyRect x y w h s =
     (let s = mark_bounds x y w h s;
          x2 = end_block (x + w);
          y2 = end_block (y + h);
          x1 = drop_bit 4 x; y1 = drop_bit 4 y
      in foldo (\<lambda>y. foldo (mark_block y) [x1..x2 - 1]) [y1..y2 - 1] s)"

definition setDirtyLine :: "int \<Rightarrow> int \<Rightarrow> int \<Rightarrow> int \<Rightarrow> DirtyRects \<Rightarrow> DirtyRects option" where
  "setDirtyLine x1 y1 x2 y2 s =
     (let (min_x, max_x) = (if x1 \<le> x2 then (x1, x2) else (x2, x1));
          (min_y, max_y) = (if y1 \<le> y2 then (y1, y2) else (y2, y1))
      in setDirtyRect min_x min_y (max_x - min_x + 1) (max_y - min_y + 1) s)"

definition clearDirtyRects :: "DirtyRects \<Rightarrow> DirtyRects" where
  "clearDirtyRects s =
     s\<lparr>dirtyMarker := replicate (nat (dirtyW s * dirtyH s)) 0,
       minDirtX := areaW s, minDirtY := areaH s, maxDirtX := 0, maxDirtY := 0\<rparr>"

definition hasDirtyRect :: "DirtyRects \<Rightarrow> bool" where
  "hasDirtyRect s \<longleftrightarrow> minDirtX s \<le> maxDirtX s"

text \<open>
  The block loop of \<open>HostScreen::refreshScreen\<close>: \<open>scan_row\<close> is the inner loop at column \<open>x\<close>, with the
  locals \<open>block_w\<close> and \<open>block_x\<close>; \<open>scan_rows\<close> is the outer loop.
\<close>

record SDL_Rect =
  rect_x :: int
  rect_y :: int
  rect_w :: int
  rect_h :: int

definition block_len :: "int \<Rightarrow> int \<Rightarrow> int" where
  "block_len dim b = (if dim - push_bit 4 b < 16 then dim - push_bit 4 b else 16)"

fun scan_row :: "DirtyRects \<Rightarrow> int \<Rightarrow> int \<Rightarrow> int \<Rightarrow> int list \<Rightarrow> int \<Rightarrow> int \<Rightarrow> SDL_Rect list" where
  "scan_row s sw sh y [] block_w block_x = []"
| "scan_row s sw sh y (x # xs) block_w block_x =
     (let dirty = dirtyMarker s ! nat (y * dirtyW s + x) \<noteq> 0;
          block_update = (x = dirtyW s - 1) \<or> \<not> dirty;
          block_x = (if dirty \<and> block_w = 0 then x else block_x);
          block_w = (if dirty then block_w + block_len sw x else block_w)
      in if block_update \<and> block_w > 0
         then \<lparr>rect_x = push_bit 4 block_x, rect_y = push_bit 4 y, rect_w = block_w,
               rect_h = block_len sh y\<rparr> # scan_row s sw sh y xs 0 block_x
         else scan_row s sw sh y xs block_w block_x)"

definition scan_rows :: "DirtyRects \<Rightarrow> int \<Rightarrow> int \<Rightarrow> SDL_Rect list" where
  "scan_rows s sw sh =
     concat (map (\<lambda>y. scan_row s sw sh y [0..dirtyW s - 1] 0 0) [0..dirtyH s - 1])"

definition refreshScreen_rects :: "bool \<Rightarrow> int \<Rightarrow> int \<Rightarrow> DirtyRects \<Rightarrow> SDL_Rect list \<times> DirtyRects" where
  "refreshScreen_rects single_blit_refresh sw sh s =
     (if \<not> hasDirtyRect s then ([], s)
      else if single_blit_refresh
      then ([\<lparr>rect_x = minDirtX s, rect_y = minDirtY s, rect_w = maxDirtX s - minDirtX s + 1,
              rect_h = maxDirtY s - minDirtY s + 1\<rparr>], clearDirtyRects s)
      else (scan_rows s sw sh, clearDirtyRects s))"

section \<open>Specification\<close>

definition in_rect :: "int \<Rightarrow> int \<Rightarrow> SDL_Rect \<Rightarrow> bool" where
  "in_rect px py r \<longleftrightarrow>
     rect_x r \<le> px \<and> px < rect_x r + rect_w r \<and> rect_y r \<le> py \<and> py < rect_y r + rect_h r"

definition dirty_wf :: "DirtyRects \<Rightarrow> bool" where
  "dirty_wf s \<longleftrightarrow>
     areaW s \<ge> 0 \<and> areaH s \<ge> 0 \<and> dirtyW s = (areaW s + 15) div 16 \<and> dirtyH s = (areaH s + 15) div 16 \<and>
     length (dirtyMarker s) = nat (dirtyW s * dirtyH s)"

definition marked :: "DirtyRects \<Rightarrow> int \<Rightarrow> int \<Rightarrow> bool" where
  "marked s bx b \<longleftrightarrow>
     0 \<le> bx \<and> bx < dirtyW s \<and> 0 \<le> b \<and> b < dirtyH s \<and>
     dirtyMarker s ! nat (b * dirtyW s + bx) \<noteq> 0"

datatype dirty_op = Rect int int int int | Line int int int int

fun touches :: "dirty_op \<Rightarrow> int \<Rightarrow> int \<Rightarrow> bool" where
  "touches (Rect x y w h) px py \<longleftrightarrow> x \<le> px \<and> px < x + w \<and> y \<le> py \<and> py < y + h"
| "touches (Line x1 y1 x2 y2) px py \<longleftrightarrow>
     min x1 x2 \<le> px \<and> px \<le> max x1 x2 \<and> min y1 y2 \<le> py \<and> py \<le> max y1 y2"

fun op_ok :: "dirty_op \<Rightarrow> bool" where
  "op_ok (Rect x y w h) \<longleftrightarrow> w > 0 \<and> h > 0"
| "op_ok (Line x1 y1 x2 y2) \<longleftrightarrow> True"

fun dirty_run :: "dirty_op \<Rightarrow> DirtyRects \<Rightarrow> DirtyRects option" where
  "dirty_run (Rect x y w h) s = setDirtyRect x y w h s"
| "dirty_run (Line x1 y1 x2 y2) s = setDirtyLine x1 y1 x2 y2 s"

section \<open>Block arithmetic\<close>

named_theorems blk

lemma and15 [blk]: "x AND 15 = x mod (16::int)"
  using take_bit_eq_mask [of 4 x] by (simp add: take_bit_eq_mod mask_numeral)

lemma drop4 [blk]: "drop_bit 4 x = x div (16::int)"
  by (simp add: drop_bit_eq_div)

lemma push4 [blk]: "push_bit 4 x = 16 * (x::int)"
  by (simp add: push_bit_eq_mult)

lemma or15: "x OR 15 = x - x mod 16 + (15::int)"
  using plus_and_or [of x 15] by (simp add: and15)

lemma and_split: "(x AND m) + (x AND NOT m) = (x::int)"
  by (subst disjunctive_add) (auto simp: bit_and_iff bit_or_iff bit_not_iff intro!: bit_eqI)

lemma round16: "x AND NOT 15 = x - x mod (16::int)"
  using and_split [of x 15] by (simp only: and15)

lemma block_ends:
  "x mod 16 = (0::int) \<Longrightarrow> (x + 15) div 16 = x div 16"
  "x mod 16 \<noteq> (0::int) \<Longrightarrow> (x + 15) div 16 = x div 16 + 1"
  "(x - x mod 16 + 15 + 1) div 16 = x div (16::int) + 1"
proof -
  have x: "x = x div 16 * 16 + x mod 16" by simp
  have m: "0 \<le> x mod 16" "x mod 16 < 16" by simp_all
  show "x mod 16 = 0 \<Longrightarrow> (x + 15) div 16 = x div 16"
    using x by (intro int_div_pos_eq [of _ _ _ 15]) auto
  show "x mod 16 \<noteq> 0 \<Longrightarrow> (x + 15) div 16 = x div 16 + 1"
    using x m by (intro int_div_pos_eq [of _ _ _ "x mod 16 - 1"]) auto
  show "(x - x mod 16 + 15 + 1) div 16 = x div 16 + 1"
    using x by (intro int_div_pos_eq [of _ _ _ 0]) (simp_all add: minus_mod_eq_mult_div)
qed

lemma blocks16_eq [blk]: "blocks16 x = (x + 15) div 16"
  unfolding blocks16_def Let_def and15 drop4 by (cases "x mod 16 = 0") (simp_all only: block_ends simp_thms if_True if_False)

lemma end_block_eq [blk]: "end_block x = (x + 15) div 16"
  unfolding end_block_def and15 or15 drop4
  by (cases "x mod 16 = 0") (simp_all only: block_ends simp_thms if_True if_False)

lemma span_blocks:
  "w > 0 \<Longrightarrow> x div 16 \<le> b \<and> b < (x + w + 15) div 16 \<longleftrightarrow> (\<exists>p. x \<le> p \<and> p < x + w \<and> p div 16 = (b::int))"
proof
  assume w: "w > 0" and b: "x div 16 \<le> b \<and> b < (x + w + 15) div 16"
  show "\<exists>p. x \<le> p \<and> p < x + w \<and> p div 16 = b"
  proof (cases "x \<le> 16 * b")
    case True
    then show ?thesis using w b by (intro exI [of _ "16 * b"] conjI; linarith)
  next
    case False
    then show ?thesis using w b by (intro exI [of _ x] conjI; linarith)
  qed
next
  assume "\<exists>p. x \<le> p \<and> p < x + w \<and> p div 16 = b"
  then show "x div 16 \<le> b \<and> b < (x + w + 15) div 16" by (elim exE conjE) (intro conjI; linarith)
qed

lemma index_bounds:
  "0 \<le> x \<Longrightarrow> x < W \<Longrightarrow> 0 \<le> y \<Longrightarrow> y < H \<Longrightarrow> 0 \<le> y * W + x \<and> y * W + x < W * (H::int)"
proof -
  assume a: "0 \<le> x" "x < W" "0 \<le> y" "y < H"
  have "y * W + x < (y + 1) * W" using a by (simp add: algebra_simps)
  also have "\<dots> \<le> H * W" using a by (intro mult_right_mono) auto
  finally show ?thesis using a by (simp add: algebra_simps)
qed

lemma index_inj:
  "0 \<le> x \<Longrightarrow> x < W \<Longrightarrow> 0 \<le> x' \<Longrightarrow> x' < W \<Longrightarrow> y * W + x = y' * W + (x'::int) \<Longrightarrow> y = y' \<and> x = x'"
proof -
  assume a: "0 \<le> x" "x < W" "0 \<le> x'" "x' < W" "y * W + x = y' * W + x'"
  have "(y * W + x) div W = y" "(y' * W + x') div W = y'" using a(1-4) by simp_all
  then show ?thesis using a by simp
qed

section \<open>Marking\<close>

lemma mark_block_spec:
  assumes "dirty_wf s"
  shows "\<exists>s'. mark_block y x s = Some s' \<and> dirty_wf s' \<and> s' = s\<lparr>dirtyMarker := dirtyMarker s'\<rparr> \<and>
     (\<forall>bx b. marked s' bx b \<longleftrightarrow>
        marked s bx b \<or> (bx = x \<and> b = y \<and> 0 \<le> x \<and> x < dirtyW s \<and> 0 \<le> y \<and> y < dirtyH s))"
proof (cases "x \<ge> 0 \<and> x < dirtyW s \<and> y \<ge> 0 \<and> y < dirtyH s")
  case False
  then show ?thesis using assms by (auto simp: mark_block_def marked_def)
next
  case True
  let ?i = "y * dirtyW s + x" and ?s = "s\<lparr>dirtyMarker := (dirtyMarker s)[nat (y * dirtyW s + x) := 1]\<rparr>"
  have len: "0 \<le> ?i" "?i < int (length (dirtyMarker s))"
    using index_bounds [of x "dirtyW s" y "dirtyH s"] True assms by (auto simp: dirty_wf_def)
  then have *: "mark_block y x s = Some ?s" using True by (simp add: mark_block_def)
  have "marked ?s bx b \<longleftrightarrow> marked s bx b \<or> (bx = x \<and> b = y)" for bx b
  proof (cases "bx = x \<and> b = y")
    case True
    with \<open>x \<ge> 0 \<and> x < dirtyW s \<and> y \<ge> 0 \<and> y < dirtyH s\<close> len show ?thesis
      by (simp add: marked_def nat_less_iff)
  next
    case False
    have "nat (b * dirtyW s + bx) \<noteq> nat ?i" if "0 \<le> bx" "bx < dirtyW s" "0 \<le> b"
      using False that True index_inj [of bx "dirtyW s" x b y] eq_nat_nat_iff [of "b * dirtyW s + bx" ?i]
        index_bounds [of bx "dirtyW s" b "b + 1"] len(1)
      by (metis less_add_one)
    then show ?thesis using False by (auto simp: marked_def)
  qed
  then show ?thesis using * True assms by (intro exI [of _ ?s]) (auto simp: dirty_wf_def)
qed

text \<open>
  A loop of fallible steps each of which adds a set to an observation.
\<close>

lemma foldo_adds:
  assumes step: "\<And>x s. I s \<Longrightarrow> \<exists>s'. f x s = Some s' \<and> I s' \<and> R s s' \<and> (\<forall>a. obs s' a \<longleftrightarrow> obs s a \<or> new s x a)"
    and refl: "\<And>s. R s s" and trans: "\<And>s t u. R s t \<Longrightarrow> R t u \<Longrightarrow> R s u"
    and stable: "\<And>s s' x a. R s s' \<Longrightarrow> new s' x a = new s x a"
  shows "I s \<Longrightarrow> \<exists>s'. foldo f xs s = Some s' \<and> I s' \<and> R s s' \<and>
           (\<forall>a. obs s' a \<longleftrightarrow> obs s a \<or> (\<exists>x \<in> set xs. new s x a))"
proof (induction xs arbitrary: s)
  case Nil
  then show ?case by (auto simp: refl)
next
  case (Cons x xs)
  from step [OF Cons.prems, of x] obtain s1 where s1: "f x s = Some s1" "I s1" "R s s1"
    "\<forall>a. obs s1 a \<longleftrightarrow> obs s a \<or> new s x a" by blast
  from Cons.IH [OF s1(2)] obtain s2 where s2: "foldo f xs s1 = Some s2" "I s2" "R s1 s2"
    "\<forall>a. obs s2 a \<longleftrightarrow> obs s1 a \<or> (\<exists>x \<in> set xs. new s1 x a)" by blast
  show ?case using s1 s2 trans [OF s1(3) s2(3)] stable [OF s1(3)]
    by (intro exI [of _ s2]) auto
qed

definition same_frame :: "DirtyRects \<Rightarrow> DirtyRects \<Rightarrow> bool" where
  "same_frame s s' \<longleftrightarrow> s' = s\<lparr>dirtyMarker := dirtyMarker s'\<rparr>"

lemma same_frame_refl: "same_frame s s"
  by (simp add: same_frame_def)

lemma same_frame_trans: "same_frame s t \<Longrightarrow> same_frame t u \<Longrightarrow> same_frame s u"
  by (cases s; cases t; cases u) (simp add: same_frame_def)

lemma same_frameD:
  "same_frame s s' \<Longrightarrow> dirtyW s' = dirtyW s \<and> dirtyH s' = dirtyH s \<and> areaW s' = areaW s \<and> areaH s' = areaH s \<and>
     minDirtX s' = minDirtX s \<and> maxDirtX s' = maxDirtX s \<and> minDirtY s' = minDirtY s \<and> maxDirtY s' = maxDirtY s"
  by (cases s; cases s') (simp add: same_frame_def)

abbreviation on_map :: "DirtyRects \<Rightarrow> int \<Rightarrow> int \<Rightarrow> bool" where
  "on_map s x y \<equiv> 0 \<le> x \<and> x < dirtyW s \<and> 0 \<le> y \<and> y < dirtyH s"

lemma mark_row:
  assumes "dirty_wf s"
  shows "\<exists>s'. foldo (mark_block y) xs s = Some s' \<and> dirty_wf s' \<and> same_frame s s' \<and>
     (\<forall>c. marked s' (fst c) (snd c) \<longleftrightarrow>
        marked s (fst c) (snd c) \<or> (\<exists>x \<in> set xs. c = (x, y) \<and> on_map s x y))"
proof (rule foldo_adds [where f = "mark_block y" and I = dirty_wf and R = same_frame
      and obs = "\<lambda>s c. marked s (fst c) (snd c)" and new = "\<lambda>s x c. c = (x, y) \<and> on_map s x y"])
  show "\<exists>s'. mark_block y x s = Some s' \<and> dirty_wf s' \<and> same_frame s s' \<and>
      (\<forall>a. marked s' (fst a) (snd a) \<longleftrightarrow> marked s (fst a) (snd a) \<or> a = (x, y) \<and> on_map s x y)"
    if "dirty_wf s" for x s
    using mark_block_spec [OF that, of y x] unfolding same_frame_def by (auto simp: prod_eq_iff)
qed (use assms in \<open>auto simp: same_frame_refl dest: same_frame_trans same_frameD\<close>)

lemma mark_area:
  assumes "dirty_wf s"
  shows "\<exists>s'. foldo (\<lambda>y. foldo (mark_block y) xs) ys s = Some s' \<and> dirty_wf s' \<and> same_frame s s' \<and>
     (\<forall>c. marked s' (fst c) (snd c) \<longleftrightarrow>
        marked s (fst c) (snd c) \<or> (\<exists>y \<in> set ys. \<exists>x \<in> set xs. c = (x, y) \<and> on_map s x y))"
proof (rule foldo_adds [where I = dirty_wf and R = same_frame
      and obs = "\<lambda>s c. marked s (fst c) (snd c)" and new = "\<lambda>s y c. \<exists>x \<in> set xs. c = (x, y) \<and> on_map s x y"])
qed (use assms mark_row in \<open>auto simp: same_frame_refl dest: same_frame_trans same_frameD\<close>)

definition bounds_of :: "DirtyRects \<Rightarrow> int \<Rightarrow> int \<Rightarrow> bool" where
  "bounds_of s px py \<longleftrightarrow> minDirtX s \<le> px \<and> px \<le> maxDirtX s \<and> minDirtY s \<le> py \<and> py \<le> maxDirtY s"

lemma mark_bounds_frame:
  "mark_bounds x y w h s = s\<lparr>minDirtX := minDirtX (mark_bounds x y w h s), minDirtY := minDirtY (mark_bounds x y w h s),
     maxDirtX := maxDirtX (mark_bounds x y w h s), maxDirtY := maxDirtY (mark_bounds x y w h s)\<rparr>"
  by (cases s) (simp add: mark_bounds_def Let_def)

lemma mark_bounds_same [simp]:
  "dirtyMarker (mark_bounds x y w h s) = dirtyMarker s" "dirtyW (mark_bounds x y w h s) = dirtyW s"
  "dirtyH (mark_bounds x y w h s) = dirtyH s" "areaW (mark_bounds x y w h s) = areaW s"
  "areaH (mark_bounds x y w h s) = areaH s"
  by (simp_all add: mark_bounds_def Let_def)

lemma mark_bounds_covers:
  "bounds_of s px py \<Longrightarrow> bounds_of (mark_bounds x y w h s) px py"
  "touches (Rect x y w h) px py \<Longrightarrow> bounds_of (mark_bounds x y w h s) px py"
proof -
  have le: "z AND NOT 15 \<le> z" for z :: int unfolding round16 by simp
  show "bounds_of s px py \<Longrightarrow> bounds_of (mark_bounds x y w h s) px py"
    and "touches (Rect x y w h) px py \<Longrightarrow> bounds_of (mark_bounds x y w h s) px py"
    using le [of x] le [of y] by (auto simp: bounds_of_def mark_bounds_def Let_def)
qed

definition block_touched :: "dirty_op \<Rightarrow> int \<Rightarrow> int \<Rightarrow> bool" where
  "block_touched d bx b \<longleftrightarrow> (\<exists>px py. touches d px py \<and> px div 16 = bx \<and> py div 16 = b)"

lemma setDirtyRect_spec:
  assumes "dirty_wf s" "w > 0" "h > 0"
  shows "\<exists>s'. setDirtyRect x y w h s = Some s' \<and> dirty_wf s' \<and> areaW s' = areaW s \<and> areaH s' = areaH s \<and>
     (\<forall>bx b. marked s' bx b \<longleftrightarrow> marked s bx b \<or> (on_map s bx b \<and> block_touched (Rect x y w h) bx b)) \<and>
     (\<forall>px py. bounds_of s px py \<or> touches (Rect x y w h) px py \<longrightarrow> bounds_of s' px py)"
proof -
  let ?m = "mark_bounds x y w h s"
  have wf: "dirty_wf ?m" using assms(1) by (simp add: dirty_wf_def)
  have mk: "marked ?m bx b = marked s bx b" for bx b by (simp add: marked_def)
  from mark_area [OF wf, of "[x div 16..(x + w + 15) div 16 - 1]" "[y div 16..(y + h + 15) div 16 - 1]"]
  obtain s' where s': "setDirtyRect x y w h s = Some s'" "dirty_wf s'" "same_frame ?m s'"
    and new: "\<And>c. marked s' (fst c) (snd c) \<longleftrightarrow> marked s (fst c) (snd c) \<or>
      (\<exists>b \<in> {y div 16..(y + h + 15) div 16 - 1}. \<exists>bx \<in> {x div 16..(x + w + 15) div 16 - 1}. c = (bx, b) \<and> on_map s bx b)"
    unfolding setDirtyRect_def Let_def end_block_eq drop4 by (auto simp: mk)
  have touch: "block_touched (Rect x y w h) bx b \<longleftrightarrow>
      (x div 16 \<le> bx \<and> bx < (x + w + 15) div 16) \<and> (y div 16 \<le> b \<and> b < (y + h + 15) div 16)" for bx b
    unfolding span_blocks [OF assms(2)] span_blocks [OF assms(3)] block_touched_def by auto
  have "marked s' bx b \<longleftrightarrow> marked s bx b \<or> (on_map s bx b \<and> block_touched (Rect x y w h) bx b)" for bx b
    using new [of "(bx, b)"] by (auto simp: touch)
  moreover have "bounds_of s' px py = bounds_of ?m px py" for px py
    using same_frameD [OF s'(3)] by (simp add: bounds_of_def)
  ultimately show ?thesis using s' same_frameD [OF s'(3)] mark_bounds_covers by auto
qed

lemma dirty_run_spec:
  assumes "dirty_wf s" "op_ok d"
  shows "\<exists>s'. dirty_run d s = Some s' \<and> dirty_wf s' \<and> (areaW s' = areaW s \<and> areaH s' = areaH s) \<and>
     (\<forall>bx b. marked s' bx b \<longleftrightarrow> marked s bx b \<or> (on_map s bx b \<and> block_touched d bx b)) \<and>
     (\<forall>px py. bounds_of s px py \<or> touches d px py \<longrightarrow> bounds_of s' px py)"
proof (cases d)
  case (Rect x y w h)
  then show ?thesis using setDirtyRect_spec [OF assms(1), of w h x y] assms(2) by simp
next
  case (Line x1 y1 x2 y2)
  let ?r = "Rect (min x1 x2) (min y1 y2) (max x1 x2 - min x1 x2 + 1) (max y1 y2 - min y1 y2 + 1)"
  have t: "touches d = touches ?r" by (intro ext) (auto simp: Line)
  have "dirty_run d s = dirty_run ?r s"
    by (simp add: Line setDirtyLine_def min_def max_def)
  then show ?thesis
    using setDirtyRect_spec [OF assms(1), of "max x1 x2 - min x1 x2 + 1" "max y1 y2 - min y1 y2 + 1" "min x1 x2" "min y1 y2"]
    unfolding block_touched_def t by simp
qed

lemma dirty_runs_spec:
  assumes "dirty_wf s" "\<forall>d \<in> set ds. op_ok d"
  shows "\<exists>s'. foldo dirty_run ds s = Some s' \<and> dirty_wf s' \<and> (areaW s' = areaW s \<and> areaH s' = areaH s) \<and>
     (\<forall>bx b. marked s' bx b \<longleftrightarrow> marked s bx b \<or> (on_map s bx b \<and> (\<exists>d \<in> set ds. block_touched d bx b))) \<and>
     (\<forall>d \<in> set ds. \<forall>px py. touches d px py \<longrightarrow> bounds_of s' px py) \<and>
     (\<forall>px py. bounds_of s px py \<longrightarrow> bounds_of s' px py)"
  using assms
proof (induction ds arbitrary: s)
  case Nil
  then show ?case by simp
next
  case (Cons d ds)
  from dirty_run_spec [OF Cons.prems(1), of d] Cons.prems(2) obtain s1 where
    s1: "dirty_run d s = Some s1" "dirty_wf s1" "areaW s1 = areaW s \<and> areaH s1 = areaH s"
    "\<forall>bx b. marked s1 bx b \<longleftrightarrow> marked s bx b \<or> (on_map s bx b \<and> block_touched d bx b)"
    "\<forall>px py. bounds_of s px py \<or> touches d px py \<longrightarrow> bounds_of s1 px py" by auto
  have "dirtyW s1 = dirtyW s" "dirtyH s1 = dirtyH s" using s1(2,3) Cons.prems(1) by (auto simp: dirty_wf_def)
  with Cons.IH [OF s1(2)] Cons.prems(2) s1 show ?case by fastforce
qed

section \<open>Update rectangles\<close>

definition hits :: "int \<Rightarrow> int \<Rightarrow> SDL_Rect list \<Rightarrow> nat" where
  "hits px py rs = length (filter (in_rect px py) rs)"

lemma hits_simps [simp]:
  "hits px py [] = 0" "hits px py (r # rs) = of_bool (in_rect px py r) + hits px py rs"
  "hits px py (rs @ rs') = hits px py rs + hits px py rs'"
  by (simp_all add: hits_def)

declare scan_row.simps [simp del]

lemma scan_row_length: "length (scan_row s sw sh y xs bw bx) \<le> length xs"
  by (induction xs arbitrary: bw bx) (auto simp: scan_row.simps Let_def le_SucI)

lemma block_len_inner: "W = (d + 15) div 16 \<Longrightarrow> b < W - 1 \<Longrightarrow> block_len d b = 16"
  by (simp add: block_len_def push4)

lemma block_len_last: "b = (d + 15) div 16 - 1 \<Longrightarrow> block_len d b = d - 16 * b \<and> 0 < d - 16 * b"
proof -
  assume b: "b = (d + 15) div 16 - 1"
  then have "0 < d - 16 * b \<and> d - 16 * b \<le> 16" by linarith
  then show ?thesis by (auto simp: block_len_def push4)
qed

lemma inner_full: "W = (d + 15) div 16 \<Longrightarrow> b < W \<Longrightarrow> b \<noteq> W - 1 \<Longrightarrow> 16 * (b + 1) \<le> (d::int)"
proof -
  assume a: "W = (d + 15) div 16" "b < W" "b \<noteq> W - 1"
  have "16 * W + (d + 15) mod 16 = d + 15" unfolding a(1) by (rule mult_div_mod_eq)
  then have "16 * W \<le> d + 15" using pos_mod_sign [of 16 "d + 15"] by linarith
  moreover have "b + 2 \<le> W" using a(2,3) by simp
  ultimately show ?thesis by simp
qed

lemma block_len_pos: "W = (d + 15) div 16 \<Longrightarrow> b < W \<Longrightarrow> 0 < block_len d b"
  using block_len_inner [of W d b] block_len_last [of b d] by (cases "b = W - 1") auto

lemma upto_Cons: "x < W \<Longrightarrow> [x..W - 1] = x # [x + 1..W - (1::int)]"
  by (subst upto.simps) simp

definition block_rect :: "int \<Rightarrow> int \<Rightarrow> int \<Rightarrow> int \<Rightarrow> SDL_Rect" where
  "block_rect sh y c l = \<lparr>rect_x = push_bit 4 c, rect_y = push_bit 4 y, rect_w = l, rect_h = block_len sh y\<rparr>"

definition row_of :: "int \<Rightarrow> int \<Rightarrow> int \<Rightarrow> bool" where
  "row_of sh y py \<longleftrightarrow> 16 * y \<le> py \<and> py < 16 * y + block_len sh y"

definition dirty_from :: "DirtyRects \<Rightarrow> int \<Rightarrow> int \<Rightarrow> int \<Rightarrow> int \<Rightarrow> bool" where
  "dirty_from s sw y x px \<longleftrightarrow> 16 * x \<le> px \<and> px < sw \<and> dirtyMarker s ! nat (y * dirtyW s + px div 16) \<noteq> 0"

lemma in_block_rect: "in_rect px py (block_rect sh y c l) \<longleftrightarrow> row_of sh y py \<and> 16 * c \<le> px \<and> px < 16 * c + l"
  by (auto simp: block_rect_def row_of_def in_rect_def push4)

lemma dirty_from_step:
  "dirty_from s sw y x px \<longleftrightarrow>
     16 * x \<le> px \<and> px < 16 * x + 16 \<and> px < sw \<and> dirtyMarker s ! nat (y * dirtyW s + x) \<noteq> 0 \<or>
     dirty_from s sw y (x + 1) px"
proof (cases "16 * x \<le> px \<and> px < 16 * x + 16")
  case True
  then have "px div 16 = x" by linarith
  with True show ?thesis by (simp add: dirty_from_def)
qed (auto simp: dirty_from_def)

lemma scan_row_clean:
  "x < dirtyW s \<Longrightarrow> dirtyMarker s ! nat (y * dirtyW s + x) = 0 \<Longrightarrow> 0 \<le> bw \<Longrightarrow>
   scan_row s sw sh y [x..dirtyW s - 1] bw bx =
     (if bw = 0 then [] else [block_rect sh y bx bw]) @ scan_row s sw sh y [x + 1..dirtyW s - 1] 0 bx"
  by (auto simp: upto_Cons scan_row.simps Let_def block_rect_def)

lemma scan_row_dirty:
  "x < dirtyW s \<Longrightarrow> dirtyMarker s ! nat (y * dirtyW s + x) \<noteq> 0 \<Longrightarrow> 0 < bw + block_len sw x \<Longrightarrow>
   scan_row s sw sh y [x..dirtyW s - 1] bw bx =
     (if x = dirtyW s - 1 then [block_rect sh y (if bw = 0 then x else bx) (bw + block_len sw x)]
      else scan_row s sw sh y [x + 1..dirtyW s - 1] (bw + block_len sw x) (if bw = 0 then x else bx))"
  by (auto simp: upto_Cons scan_row.simps Let_def block_rect_def)

lemma scan_row_hits:
  assumes W: "dirtyW s = (sw + 15) div 16"
  shows "0 \<le> x \<Longrightarrow> x \<le> dirtyW s \<Longrightarrow> bw = 0 \<or> (bw = 16 * (x - bx) \<and> bx < x \<and> x < dirtyW s) \<Longrightarrow>
    hits px py (scan_row s sw sh y [x..dirtyW s - 1] bw bx) =
      of_bool (row_of sh y py \<and> (bw \<noteq> 0 \<and> 16 * bx \<le> px \<and> px < 16 * x \<or> dirty_from s sw y x px))"
proof (induction "nat (dirtyW s - x)" arbitrary: x bw bx)
  case 0
  then have "x = dirtyW s" by simp
  with 0 W show ?case by (auto simp: scan_row.simps dirty_from_def)
next
  case (Suc n)
  then have x: "x < dirtyW s" by simp
  have IH: "bw' = 0 \<or> (bw' = 16 * (x + 1 - bx') \<and> bx' < x + 1 \<and> x + 1 < dirtyW s) \<Longrightarrow>
    hits px py (scan_row s sw sh y [x + 1..dirtyW s - 1] bw' bx') =
      of_bool (row_of sh y py \<and> (bw' \<noteq> 0 \<and> 16 * bx' \<le> px \<and> px < 16 * (x + 1) \<or> dirty_from s sw y (x + 1) px))" for bw' bx'
    using Suc.hyps(1) [of "x + 1" bw' bx'] Suc.hyps(2) Suc.prems(1) x by simp
  show ?case
  proof (cases "dirtyMarker s ! nat (y * dirtyW s + x) = 0")
    case True
    have "px < 16 * x \<Longrightarrow> \<not> dirty_from s sw y (x + 1) px" by (simp add: dirty_from_def)
    then show ?thesis
      unfolding dirty_from_step [of s sw y x] using True Suc.prems(3) IH [of 0 bx] x
      by (auto simp: scan_row_clean in_block_rect)
  next
    case False
    define bx' where "bx' = (if bw = 0 then x else bx)"
    have bx': "bx' \<le> x" "bw = 16 * (x - bx')" using Suc.prems(3) by (auto simp: bx'_def)
    then have pos: "0 < bw + block_len sw x" using block_len_pos [OF W x] by simp
    note scan = scan_row_dirty [OF x False pos, of sh bx, folded bx'_def]
    show ?thesis
    proof (cases "x = dirtyW s - 1")
      case last: True
      then have sw: "16 * bx' + (bw + block_len sw x) = sw" "sw \<le> 16 * x + 16" "16 * x < sw" "\<not> dirty_from s sw y (x + 1) px"
        using bx' block_len_last [of x sw] W by (auto simp: dirty_from_def)
      then have "16 * bx' \<le> px \<and> px < sw \<longleftrightarrow>
          bw \<noteq> 0 \<and> 16 * bx \<le> px \<and> px < 16 * x \<or> 16 * x \<le> px \<and> px < 16 * x + 16 \<and> px < sw"
        using bx'(1) sw(2,3) unfolding bx'_def by (cases "bw = 0") (simp_all, linarith+)
      then show ?thesis unfolding scan dirty_from_step [of s sw y x] using False last sw by (simp add: in_block_rect)
    next
      case inner: False
      then have l: "block_len sw x = 16" using x W block_len_inner by simp
      have "16 * (x + 1) \<le> sw" using inner_full [OF W x inner] .
      then have "bw + 16 \<noteq> 0 \<and> 16 * bx' \<le> px \<and> px < 16 * (x + 1) \<longleftrightarrow>
          bw \<noteq> 0 \<and> 16 * bx \<le> px \<and> px < 16 * x \<or> 16 * x \<le> px \<and> px < 16 * x + 16 \<and> px < sw"
        using bx' unfolding bx'_def by (cases "bw = 0") (simp_all, linarith+)
      moreover have "bw + 16 = 16 * (x + 1 - bx') \<and> bx' < x + 1 \<and> x + 1 < dirtyW s"
        using bx' inner x by simp
      ultimately show ?thesis
        unfolding scan dirty_from_step [of s sw y x] using False inner IH [of "bw + 16" bx'] by (simp add: l disj_assoc)
    qed
  qed
qed

lemma row_of_unique:
  assumes "dirtyH s = (sh + 15) div 16" "0 \<le> y" "y < dirtyH s"
  shows "row_of sh y py \<longleftrightarrow> y = py div 16 \<and> py < sh"
proof (cases "y = dirtyH s - 1")
  case True
  then show ?thesis using block_len_last [of y sh] assms unfolding row_of_def by auto
next
  case False
  then have "block_len sh y = 16" using block_len_inner [of "dirtyH s" sh y] assms by simp
  moreover have "16 * (y + 1) \<le> sh" using inner_full [OF assms(1,3) False] .
  ultimately show ?thesis unfolding row_of_def by auto
qed

lemma hits_concat:
  assumes "distinct ys" "\<And>y. y \<in> set ys \<Longrightarrow> hits px py (f y) = of_bool (y = k \<and> P)"
  shows "hits px py (concat (map f ys)) = of_bool (k \<in> set ys \<and> P)"
  using assms by (induction ys) auto

lemma scan_rows_hits:
  assumes "dirty_wf s"
  shows "hits px py (scan_rows s (areaW s) (areaH s)) =
     of_bool (0 \<le> px \<and> px < areaW s \<and> 0 \<le> py \<and> py < areaH s \<and> marked s (px div 16) (py div 16))"
proof -
  have W: "dirtyW s = (areaW s + 15) div 16" and H: "dirtyH s = (areaH s + 15) div 16"
    and W0: "0 \<le> dirtyW s" using assms by (auto simp: dirty_wf_def)
  let ?P = "py < areaH s \<and> dirty_from s (areaW s) (py div 16) 0 px"
  have "hits px py (scan_rows s (areaW s) (areaH s)) = of_bool (py div 16 \<in> set [0..dirtyH s - 1] \<and> ?P)"
    unfolding scan_rows_def
    by (rule hits_concat) (use W0 in \<open>auto simp: scan_row_hits [OF W] row_of_unique [OF H]\<close>)
  also have "py div 16 \<in> set [0..dirtyH s - 1] \<and> ?P \<longleftrightarrow>
     0 \<le> px \<and> px < areaW s \<and> 0 \<le> py \<and> py < areaH s \<and> marked s (px div 16) (py div 16)"
  proof -
    have "px < areaW s \<Longrightarrow> px div 16 < dirtyW s" "py < areaH s \<Longrightarrow> py div 16 < dirtyH s"
      unfolding W H by linarith+
    then show ?thesis by (auto simp: dirty_from_def marked_def)
  qed
  finally show ?thesis .
qed

lemma scan_rows_length:
  assumes "dirty_wf s"
  shows "length (scan_rows s sw sh) \<le> nat (dirtyW s * dirtyH s)"
proof -
  have "length (concat (map (\<lambda>y. scan_row s sw sh y [0..dirtyW s - 1] 0 0) ys)) \<le> length ys * nat (dirtyW s)" for ys
    using scan_row_length [of s sw sh _ "[0..dirtyW s - 1]" 0 0] by (induction ys) (simp_all add: add_mono)
  from this [of "[0..dirtyH s - 1]"] have "length (scan_rows s sw sh) \<le> nat (dirtyH s) * nat (dirtyW s)"
    by (simp add: scan_rows_def)
  moreover have "0 \<le> dirtyW s" "0 \<le> dirtyH s" using assms by (auto simp: dirty_wf_def)
  ultimately show ?thesis by (simp add: nat_mult_distrib mult.commute)
qed

lemma clear_wf: "dirty_wf s \<Longrightarrow> dirty_wf (clearDirtyRects s)"
  by (simp add: dirty_wf_def clearDirtyRects_def)

lemma clear_unmarked: "dirty_wf s \<Longrightarrow> \<not> marked (clearDirtyRects s) bx b"
  using index_bounds [of bx "dirtyW s" b "dirtyH s"] by (auto simp: marked_def clearDirtyRects_def nat_less_iff)

lemma resize_wf: "0 \<le> w \<Longrightarrow> 0 \<le> h \<Longrightarrow> resizeDirty w h = Some s \<Longrightarrow> dirty_wf s \<and> areaW s = w \<and> areaH s = h"
  by (auto simp: resizeDirty_def Let_def blocks16_eq dirty_wf_def split: if_splits)

lemma resize_total: "0 \<le> w \<Longrightarrow> 0 \<le> h \<Longrightarrow> \<exists>s. resizeDirty w h = Some s"
  by (auto simp: resizeDirty_def Let_def blocks16_eq mult_less_0_iff)

lemma op_touches: "op_ok d \<Longrightarrow> \<exists>px py. touches d px py"
proof (cases d)
  case (Rect x y w h)
  then show "op_ok d \<Longrightarrow> ?thesis" by (intro exI [of _ x] exI [of _ y]) simp
next
  case (Line x1 y1 x2 y2)
  then show ?thesis by (intro exI [of _ x1] exI [of _ y1]) simp
qed

section \<open>The properties\<close>

text \<open>
  C34. Drawing never writes outside the marker map, and the next refresh updates the right pixels. From a
  cleared map, any sequence of rectangles (of positive size, also partly or wholly outside the
  screen) and lines succeeds; then every screen pixel that was drawn on is in an update rectangle, and in
  block mode a pixel is in exactly one rectangle when its 16x16 block was drawn on and in none
  otherwise. The rectangles fit the vector of one entry per block, and the map is clean afterwards.
\<close>

theorem refresh_exact:
  assumes "0 \<le> w" "0 \<le> h" "resizeDirty w h = Some s0" "\<forall>d \<in> set ds. op_ok d"
  shows "\<exists>s. foldo dirty_run ds (clearDirtyRects s0) = Some s \<and>
    (\<forall>px py single. 0 \<le> px \<and> px < w \<and> 0 \<le> py \<and> py < h \<and> (\<exists>d \<in> set ds. touches d px py) \<longrightarrow>
       (\<exists>r \<in> set (fst (refreshScreen_rects single w h s)). in_rect px py r)) \<and>
    (\<forall>px py. hits px py (fst (refreshScreen_rects False w h s)) =
       of_bool (0 \<le> px \<and> px < w \<and> 0 \<le> py \<and> py < h \<and>
         (\<exists>d \<in> set ds. block_touched d (px div 16) (py div 16)))) \<and>
    length (fst (refreshScreen_rects False w h s)) \<le> nat (dirtyW s * dirtyH s) \<and>
    (\<forall>single bx b. \<not> marked (snd (refreshScreen_rects single w h s)) bx b)"
proof -
  have s0: "dirty_wf s0" "areaW s0 = w" "areaH s0 = h"
    using resize_wf [OF assms(1-3)] by simp_all
  let ?c = "clearDirtyRects s0"
  have c: "dirty_wf ?c" "areaW ?c = w" "areaH ?c = h" using s0 clear_wf by (auto simp: clearDirtyRects_def)
  obtain s where s: "foldo dirty_run ds ?c = Some s" "dirty_wf s" "areaW s = w" "areaH s = h"
    and mk0: "\<And>bx b. marked s bx b \<longleftrightarrow> marked ?c bx b \<or> (on_map ?c bx b \<and> (\<exists>d \<in> set ds. block_touched d bx b))"
    and bd: "\<And>d px py. d \<in> set ds \<Longrightarrow> touches d px py \<Longrightarrow> bounds_of s px py"
    using dirty_runs_spec [OF c(1) assms(4)] unfolding c(2,3) by blast
  have "dirtyW s = dirtyW ?c" "dirtyH s = dirtyH ?c" using s(2-4) c by (simp_all add: dirty_wf_def)
  then have mk: "marked s bx b \<longleftrightarrow> on_map s bx b \<and> (\<exists>d \<in> set ds. block_touched d bx b)" for bx b
    using mk0 [of bx b] clear_unmarked [OF s0(1)] by simp
  have on: "0 \<le> px \<and> px < w \<and> 0 \<le> py \<and> py < h \<Longrightarrow> on_map s (px div 16) (py div 16)" for px py
    using s(2-4) unfolding dirty_wf_def by linarith
  have hit: "hits px py (scan_rows s w h) = of_bool (0 \<le> px \<and> px < w \<and> 0 \<le> py \<and> py < h \<and>
      (\<exists>d \<in> set ds. block_touched d (px div 16) (py div 16)))" for px py
    using scan_rows_hits [OF s(2), of px py] on [of px py] s(3,4) mk by auto
  have cover: "\<exists>r \<in> set (fst (refreshScreen_rects single w h s)). in_rect px py r"
    if "0 \<le> px" "px < w" "0 \<le> py" "py < h" "d \<in> set ds" "touches d px py" for px py single d
  proof -
    have b: "bounds_of s px py" and t: "block_touched d (px div 16) (py div 16)"
      using bd that by (auto simp: block_touched_def)
    have "hits px py (scan_rows s w h) \<noteq> 0" using hit [of px py] that t by auto
    then have "\<exists>r \<in> set (scan_rows s w h). in_rect px py r" by (auto simp: hits_def filter_empty_conv)
    then show ?thesis using b by (auto simp: refreshScreen_rects_def hasDirtyRect_def bounds_of_def in_rect_def)
  qed
  have idle: "ds = []" if "\<not> hasDirtyRect s"
    using that bd op_touches assms(4) by (cases ds) (fastforce simp: hasDirtyRect_def bounds_of_def)+
  have rects: "hits px py (fst (refreshScreen_rects False w h s)) = hits px py (scan_rows s w h)" for px py
    using idle by (cases "hasDirtyRect s") (simp_all add: refreshScreen_rects_def hit)
  have len: "length (fst (refreshScreen_rects False w h s)) \<le> nat (dirtyW s * dirtyH s)"
    using scan_rows_length [OF s(2)] by (simp add: refreshScreen_rects_def)
  have clean: "\<not> marked (snd (refreshScreen_rects single w h s)) bx b" for single bx b
    using idle mk clear_unmarked [OF s(2)] by (cases "hasDirtyRect s") (auto simp: refreshScreen_rects_def)
  show ?thesis using s(1) cover rects hit len clean by (intro exI [of _ s]) auto
qed

definition draw_example :: "dirty_op list" where
  "draw_example = [Rect (- 5) 3 10 4, Line 35 18 20 2]"

theorem refresh_exact_witness:
  "list_all op_ok draw_example \<and>
   (\<exists>s0 s. resizeDirty 40 20 = Some s0 \<and> foldo dirty_run draw_example (clearDirtyRects s0) = Some s \<and>
     hits 0 4 (fst (refreshScreen_rects False 40 20 s)) = 1)"
proof -
  have ok: "\<forall>d \<in> set draw_example. op_ok d" by (simp add: draw_example_def)
  obtain s0 where s0: "resizeDirty 40 20 = Some s0" using resize_total [of 40 20] by auto
  have t: "\<exists>d \<in> set draw_example. block_touched d (0 div 16) (4 div 16)"
    by (auto simp: draw_example_def block_touched_def intro!: exI [of _ 0] exI [of _ 4])
  show ?thesis using refresh_exact [OF _ _ s0 ok] ok s0 t by (auto simp: list_all_iff)
qed

end
