(* ===== verification/Chunky.thy ===== *)
theory Chunky
  imports Dsp_Prelude
begin

text \<open>
  The bit plane to chunky conversion \<open>HostScreen::bitplaneToChunky\<close> (\<open>src/src/hostscreen.cpp\<close>), for a
  little-endian host (\<open>SDL_BYTEORDER\<close> other than \<open>SDL_BIG_ENDIAN\<close>). Memory is a function from byte
  offsets to bytes; the casts of the source between \<open>uint16 *\<close> and \<open>uint32 *\<close> are reads of two
  or four bytes.
\<close>

section \<open>Model\<close>

definition get16 :: "(nat \<Rightarrow> u8) \<Rightarrow> nat \<Rightarrow> u16" where
  "get16 m i = ucast (m (2 * i)) OR push_bit 8 (ucast (m (2 * i + 1)))"

definition get32 :: "(nat \<Rightarrow> u8) \<Rightarrow> nat \<Rightarrow> u32" where
  "get32 m i = ucast (m (4 * i)) OR push_bit 8 (ucast (m (4 * i + 1)))
     OR push_bit 16 (ucast (m (4 * i + 2))) OR push_bit 24 (ucast (m (4 * i + 3)))"

definition put16 :: "(nat \<Rightarrow> u8) \<Rightarrow> nat \<Rightarrow> u16 \<Rightarrow> (nat \<Rightarrow> u8)" where
  "put16 m i v = m(2 * i := ucast v, 2 * i + 1 := ucast (drop_bit 8 v))"

definition SDL_SwapBE16 :: "u16 \<Rightarrow> u16" where
  "SDL_SwapBE16 v = push_bit 8 v OR drop_bit 8 v"

definition scroll_planes :: "(nat \<Rightarrow> u8) \<Rightarrow> nat \<Rightarrow> nat \<Rightarrow> (nat \<Rightarrow> u8)" where
  "scroll_planes m bpp horiz_shift =
     fold (\<lambda>i scrolled.
       let x = push_bit 16 (ucast (SDL_SwapBE16 (get16 m i))) OR ucast (SDL_SwapBE16 (get16 m (i + bpp))) :: u32
       in put16 scrolled i (SDL_SwapBE16 (ucast (drop_bit 16 (push_bit horiz_shift x)))))
       [0..<bpp] (\<lambda>_. 0)"

definition swap_nibbles :: "u32 \<Rightarrow> u32 \<Rightarrow> u32 \<times> u32" where
  "swap_nibbles a c =
     ((a AND 0xf0f0f0f0) OR drop_bit 4 (c AND 0xf0f0f0f0),
      push_bit 4 (a AND 0x0f0f0f0f) OR (c AND 0x0f0f0f0f))"

definition swap_pairs :: "u32 \<Rightarrow> u32 \<Rightarrow> u32 \<times> u32" where
  "swap_pairs a b =
     ((a AND 0xcccccccc) OR drop_bit 2 (b AND 0xcccccccc),
      push_bit 2 (a AND 0x33333333) OR (b AND 0x33333333))"

definition swap_bits :: "u32 \<Rightarrow> u32" where
  "swap_bits a = (a AND 0xaaaa5555) OR push_bit 15 (a AND 0x0000aaaa) OR drop_bit 15 (a AND 0x55550000)"

definition byte_of :: "u32 \<Rightarrow> nat \<Rightarrow> u8" where
  "byte_of a k = ucast (drop_bit (8 * k) a)"

text \<open>The part of the function after the planes are read.\<close>

definition chunky_words :: "u32 \<Rightarrow> u32 \<Rightarrow> u32 \<Rightarrow> u32 \<Rightarrow> u8 list" where
  "chunky_words d c b a =
     (let (a, c) = swap_nibbles a c;
          (b, d) = swap_nibbles b d;
          (a, b) = swap_pairs a b;
          (c, d) = swap_pairs c d;
          a = swap_bits a; b = swap_bits b; c = swap_bits c; d = swap_bits d
      in [byte_of a 2, byte_of a 0, byte_of b 2, byte_of b 0, byte_of c 2, byte_of c 0, byte_of d 2, byte_of d 0,
          byte_of a 3, byte_of a 1, byte_of b 3, byte_of b 1, byte_of c 3, byte_of c 1, byte_of d 3, byte_of d 1])"

definition bitplaneToChunky :: "(nat \<Rightarrow> u8) \<Rightarrow> nat \<Rightarrow> nat \<Rightarrow> u8 list" where
  "bitplaneToChunky atariBitplaneData bpp horiz_shift =
     (let source = (if horiz_shift \<noteq> 0 then scroll_planes atariBitplaneData bpp horiz_shift else atariBitplaneData)
      in if bpp = 8 then chunky_words (get32 source 0) (get32 source 1) (get32 source 2) (get32 source 3)
         else if bpp = 4 then chunky_words (get32 source 0) (get32 source 1) 0 0
         else if bpp = 2 then chunky_words (get32 source 0) 0 0 0
         else chunky_words (ucast (get16 source 0)) 0 0 0)"

section \<open>Reference\<close>

text \<open>
  Pixel \<open>i\<close> of a line of an Atari screen: the words of the planes of 16 pixels are interleaved and
  big-endian, the leftmost pixel is the top bit, plane \<open>p\<close> gives bit \<open>p\<close> of the colour.
\<close>

definition plane_bit :: "(nat \<Rightarrow> u8) \<Rightarrow> nat \<Rightarrow> nat \<Rightarrow> nat \<Rightarrow> bool" where
  "plane_bit m bpp p i = bit (m (2 * (bpp * (i div 16) + p) + i mod 16 div 8)) (7 - i mod 8)"

definition pixel :: "(nat \<Rightarrow> u8) \<Rightarrow> nat \<Rightarrow> nat \<Rightarrow> u8" where
  "pixel m bpp i = (\<Sum>p<bpp. of_bool (plane_bit m bpp p i) * 2 ^ p)"

section \<open>Bit by bit\<close>

lemmas word_bits = bit_or_iff bit_and_iff bit_push_bit_iff bit_drop_bit_eq bit_unsigned_iff

lemma below_32: "[0..<32] = [0, 1, 2, 3, 4, 5, 6, 7, 8, 9, 10, 11, 12, 13, 14, 15, 16, 17, 18, 19, 20, 21, 22, 23, 24, 25, 26, 27, 28, 29, 30, 31]"
  by code_simp

lemma below_32_cases: "n < (32::nat) \<Longrightarrow> list_all P [0..<32] \<Longrightarrow> P n"
  by (simp add: list_all_iff)

lemma swap_nibbles_fst: "n < 32 \<Longrightarrow> bit (fst (swap_nibbles a c)) n = (if n mod 8 < 4 then bit c (n + 4) else bit a n)"
  by (erule below_32_cases) (simp add: below_32 swap_nibbles_def word_bits)

lemma swap_nibbles_snd: "n < 32 \<Longrightarrow> bit (snd (swap_nibbles a c)) n = (if n mod 8 < 4 then bit c n else bit a (n - 4))"
  by (erule below_32_cases) (simp add: below_32 swap_nibbles_def word_bits)

lemma swap_pairs_fst: "n < 32 \<Longrightarrow> bit (fst (swap_pairs a b)) n = (if n mod 4 < 2 then bit b (n + 2) else bit a n)"
  by (erule below_32_cases) (simp add: below_32 swap_pairs_def word_bits)

lemma swap_pairs_snd: "n < 32 \<Longrightarrow> bit (snd (swap_pairs a b)) n = (if n mod 4 < 2 then bit b n else bit a (n - 2))"
  by (erule below_32_cases) (simp add: below_32 swap_pairs_def word_bits)

lemma swap_bits_bit:
  "n < 32 \<Longrightarrow> bit (swap_bits a) n =
     (if n < 16 then (if even n then bit a n else bit a (n + 15)) else (if odd n then bit a n else bit a (n - 15)))"
  by (erule below_32_cases) (simp add: below_32 swap_bits_def word_bits)

lemmas swap_rules = swap_nibbles_fst swap_nibbles_snd swap_pairs_fst swap_pairs_snd swap_bits_bit

lemma byte_of_bit: "p < 8 \<Longrightarrow> bit (byte_of a k) p \<longleftrightarrow> bit a (8 * k + p)"
  by (simp add: byte_of_def word_bits)

lemma chunky_words_eq:
  "chunky_words d c b a =
     (let ac = swap_nibbles a c; bd = swap_nibbles b d;
          ab = swap_pairs (fst ac) (fst bd); cd = swap_pairs (snd ac) (snd bd);
          a = swap_bits (fst ab); b = swap_bits (snd ab); c = swap_bits (fst cd); d = swap_bits (snd cd)
      in [byte_of a 2, byte_of a 0, byte_of b 2, byte_of b 0, byte_of c 2, byte_of c 0, byte_of d 2, byte_of d 0,
          byte_of a 3, byte_of a 1, byte_of b 3, byte_of b 1, byte_of c 3, byte_of c 1, byte_of d 3, byte_of d 1])"
  by (simp add: chunky_words_def Let_def case_prod_beta)

lemma below_16: "[0..<16] = [0, 1, 2, 3, 4, 5, 6, 7, 8, 9, 10, 11, 12, 13, 14, 15]"
  by code_simp

lemma below_8: "[0..<8] = [0, 1, 2, 3, 4, 5, 6, 7]"
  by code_simp

lemma chunky_bits:
  assumes "i < 16" "p < 8"
  shows "bit (chunky_words d c b a ! i) p \<longleftrightarrow>
     bit ([d, c, b, a] ! (p div 2)) (16 * (p mod 2) + 8 * (i div 8) + (7 - i mod 8))"
proof -
  have "list_all (\<lambda>i. list_all (\<lambda>p. bit (chunky_words d c b a ! i) p \<longleftrightarrow>
     bit ([d, c, b, a] ! (p div 2)) (16 * (p mod 2) + 8 * (i div 8) + (7 - i mod 8))) [0..<8]) [0..<16]"
    unfolding below_16 below_8 chunky_words_eq Let_def by (simp add: byte_of_bit swap_rules) (simp add: numeral_2_eq_2 numeral_3_eq_3)
  then show ?thesis using assms by (simp add: list_all_iff)
qed

lemma below_16_cases: "n < (16::nat) \<Longrightarrow> list_all P [0..<16] \<Longrightarrow> P n"
  by (simp add: list_all_iff)

lemma byte_top: "8 \<le> n \<Longrightarrow> \<not> bit (w::u8) n"
  using bit_imp_le_length [of w n] by auto

lemma word_top: "16 \<le> n \<Longrightarrow> \<not> bit (w::u16) n"
  using bit_imp_le_length [of w n] by auto

lemma get32_bit: "n < 32 \<Longrightarrow> bit (get32 m k) n = bit (m (4 * k + n div 8)) (n mod 8)"
  by (erule below_32_cases) (simp add: below_32 get32_def word_bits byte_top)

lemma get16_bit: "n < 16 \<Longrightarrow> bit (get16 m k) n = bit (m (2 * k + n div 8)) (n mod 8)"
  by (erule below_16_cases) (simp add: below_16 get16_def word_bits byte_top)

lemma swap_bit: "n < 16 \<Longrightarrow> bit (SDL_SwapBE16 v) n = bit v ((n + 8) mod 16)"
  by (erule below_16_cases) (simp add: below_16 SDL_SwapBE16_def word_bits word_top)

text \<open>The bit of the Atari word at index \<open>k\<close> that shows pixel \<open>q\<close>.\<close>

lemma big_endian_bit: "q < 16 \<Longrightarrow> bit (SDL_SwapBE16 (get16 m k)) (15 - q) = bit (m (2 * k + q div 8)) (7 - q mod 8)"
  by (erule below_16_cases) (simp add: below_16 swap_bit get16_bit)

definition scrolled_word :: "(nat \<Rightarrow> u8) \<Rightarrow> nat \<Rightarrow> nat \<Rightarrow> nat \<Rightarrow> u16" where
  "scrolled_word m bpp s i =
     ucast (drop_bit 16 (push_bit s (push_bit 16 (ucast (SDL_SwapBE16 (get16 m i)))
       OR ucast (SDL_SwapBE16 (get16 m (i + bpp))) :: u32)))"

lemma scrolled_word_bit:
  assumes "i < 16" "s < 16"
  shows "bit (scrolled_word m bpp s p) (15 - i) = plane_bit m bpp p (i + s)"
proof -
  define X :: u32 where "X = push_bit 16 (ucast (SDL_SwapBE16 (get16 m p))) OR ucast (SDL_SwapBE16 (get16 m (p + bpp)))"
  have "16 + (15 - i) - s = 31 - (i + s)" "s \<le> 16 + (15 - i)" "15 - i < 16" "16 + (15 - i) < 32" using assms by auto
  then have 1: "bit (scrolled_word m bpp s p) (15 - i) \<longleftrightarrow> bit X (31 - (i + s))"
    unfolding scrolled_word_def X_def [symmetric] bit_unsigned_iff bit_drop_bit_eq o_def bit_push_bit_iff by simp
  show ?thesis
  proof (cases "i + s < 16")
    case True
    then have "16 \<le> 31 - (i + s)" "31 - (i + s) < 32" "31 - (i + s) - 16 = 15 - (i + s)" "15 - (i + s) < 32" by auto
    then have "bit X (31 - (i + s)) \<longleftrightarrow> bit (SDL_SwapBE16 (get16 m p)) (15 - (i + s))"
      unfolding X_def word_bits by (simp add: word_top)
    with 1 True show ?thesis using big_endian_bit [of "i + s" m p] by (simp add: plane_bit_def)
  next
    case False
    then have q: "\<not> 16 \<le> 31 - (i + s)" "31 - (i + s) < 32" "31 - (i + s) = 15 - (i + s - 16)" "i + s - 16 < 16"
      "(i + s) div 16 = 1" "(i + s) mod 16 = i + s - 16" "(i + s) mod 8 = (i + s - 16) mod 8" using assms
      by (auto simp: le_div_geq le_mod_geq)
    then have "bit X (31 - (i + s)) \<longleftrightarrow> bit (SDL_SwapBE16 (get16 m (p + bpp))) (15 - (i + s - 16))"
      unfolding X_def word_bits by simp
    with 1 show ?thesis using big_endian_bit [OF q(4), of m "p + bpp"]
      unfolding plane_bit_def q(5-7) by (simp add: algebra_simps)
  qed
qed

lemma scroll_planes_at:
  "p < bpp \<Longrightarrow> scroll_planes m bpp s (2 * p) = ucast (SDL_SwapBE16 (scrolled_word m bpp s p))"
  "p < bpp \<Longrightarrow> scroll_planes m bpp s (2 * p + 1) = ucast (drop_bit 8 (SDL_SwapBE16 (scrolled_word m bpp s p)))"
proof -
  have "p < k \<Longrightarrow>
    fold (\<lambda>i z. put16 z i (SDL_SwapBE16 (scrolled_word m bpp s i))) [0..<k] z0 (2 * p) = ucast (SDL_SwapBE16 (scrolled_word m bpp s p)) \<and>
    fold (\<lambda>i z. put16 z i (SDL_SwapBE16 (scrolled_word m bpp s i))) [0..<k] z0 (2 * p + 1) =
      ucast (drop_bit 8 (SDL_SwapBE16 (scrolled_word m bpp s p)))" for k z0
    by (induction k) (auto simp: put16_def less_Suc_eq)
  then show "p < bpp \<Longrightarrow> scroll_planes m bpp s (2 * p) = ucast (SDL_SwapBE16 (scrolled_word m bpp s p))"
    and "p < bpp \<Longrightarrow> scroll_planes m bpp s (2 * p + 1) = ucast (drop_bit 8 (SDL_SwapBE16 (scrolled_word m bpp s p)))"
    by (simp_all add: scroll_planes_def scrolled_word_def Let_def)
qed

lemma scroll_planes_bit:
  assumes "p < bpp" "i < 16" "s < 16"
  shows "bit (scroll_planes m bpp s (2 * p + i div 8)) (7 - i mod 8) = plane_bit m bpp p (i + s)"
proof (cases "i < 8")
  case True
  then have "7 - i < 8" "(15 - i + 8) mod 16 = 7 - i" by (auto simp: le_mod_geq)
  with True show ?thesis using scrolled_word_bit [OF assms(2,3)] assms
    by (simp add: scroll_planes_at word_bits swap_bit)
next
  case False
  then have "i div 8 = 1" "i mod 8 = i - 8" "15 - i < 8" "(31 - i) mod 16 = 15 - i"
    using assms(2) by (auto simp: le_div_geq le_mod_geq)
  then show ?thesis using scrolled_word_bit [OF assms(2,3)] assms scroll_planes_at(2) [OF assms(1)]
    by (simp add: word_bits swap_bit)
qed

section \<open>The property\<close>

lemma bit_sum_planes: "bit (\<Sum>p<n. of_bool (f p) * 2 ^ p :: u8) k \<longleftrightarrow> k < n \<and> k < 8 \<and> f k"
proof (induction n arbitrary: k)
  case (Suc n)
  let ?S = "\<Sum>p<n. of_bool (f p) * 2 ^ p :: u8"
  have top: "bit (of_bool (f n) * 2 ^ n :: u8) j \<longleftrightarrow> j = n \<and> j < 8 \<and> f n" for j
    by (auto simp: bit_exp_iff)
  have "?S + of_bool (f n) * 2 ^ n = ?S OR of_bool (f n) * 2 ^ n"
    by (rule disjunctive_add) (use Suc in \<open>auto simp: top\<close>)
  then show ?case using Suc by (auto simp: bit_or_iff top less_Suc_eq)
qed simp

lemma pixel_bit: "bpp \<le> 8 \<Longrightarrow> k < 8 \<Longrightarrow> bit (pixel m bpp i) k \<longleftrightarrow> k < bpp \<and> plane_bit m bpp k i"
  unfolding pixel_def bit_sum_planes by auto

lemma plane_bit_unscrolled: "i < 16 \<Longrightarrow> plane_bit m bpp p i = bit (m (2 * p + i div 8)) (7 - i mod 8)"
  by (simp add: plane_bit_def)

lemma source_index:
  "p < 8 \<Longrightarrow> i < 16 \<Longrightarrow>
     (16 * (p mod 2) + 8 * (i div 8) + (7 - i mod 8)) div 8 = 2 * (p mod 2) + i div (8::nat) \<and>
     (16 * (p mod 2) + 8 * (i div 8) + (7 - i mod 8)) mod 8 = 7 - i mod 8 \<and>
     16 * (p mod 2) + 8 * (i div 8) + (7 - i mod 8) < 32"
proof -
  assume "p < 8" "i < 16"
  define a where "a = 2 * (p mod 2) + i div 8"
  define r where "r = 7 - i mod 8"
  have "r < 8" by (simp add: r_def)
  moreover have "a < 4" using \<open>i < 16\<close> by (auto simp: a_def less_mult_imp_div_less)
  moreover have "16 * (p mod 2) + 8 * (i div 8) + (7 - i mod 8) = 8 * a + r" by (simp add: a_def r_def)
  ultimately have "(16 * (p mod 2) + 8 * (i div 8) + (7 - i mod 8)) div 8 = a \<and>
      (16 * (p mod 2) + 8 * (i div 8) + (7 - i mod 8)) mod 8 = r \<and> 16 * (p mod 2) + 8 * (i div 8) + (7 - i mod 8) < 32"
    by simp
  then show ?thesis unfolding a_def r_def .
qed

text \<open>The planes as the conversion reads them: bit \<open>p\<close> of pixel \<open>i\<close>.\<close>

definition read_planes :: "(nat \<Rightarrow> u8) \<Rightarrow> nat \<Rightarrow> u32 list" where
  "read_planes m bpp =
     (if bpp = 8 then [get32 m 0, get32 m 1, get32 m 2, get32 m 3]
      else if bpp = 4 then [get32 m 0, get32 m 1, 0, 0]
      else if bpp = 2 then [get32 m 0, 0, 0, 0]
      else [ucast (get16 m 0), 0, 0, 0])"

lemma read_planes_bit:
  assumes "bpp \<in> {1, 2, 4, 8}" "p < 8" "i < 16"
  shows "bit (read_planes m bpp ! (p div 2)) (16 * (p mod 2) + 8 * (i div 8) + (7 - i mod 8)) \<longleftrightarrow>
     p < bpp \<and> bit (m (2 * p + i div 8)) (7 - i mod 8)"
proof -
  let ?n = "16 * (p mod 2) + 8 * (i div 8) + (7 - i mod 8)"
  note n = source_index [OF assms(2,3)]
  have word: "bit (get32 m k) ?n \<longleftrightarrow> bit (m (4 * k + (2 * (p mod 2) + i div 8))) (7 - i mod 8)" for k
    using n by (simp add: get32_bit)
  have one: "bit (ucast (get16 m 0) :: u32) ?n \<longleftrightarrow> p mod 2 = 0 \<and> bit (m (i div 8)) (7 - i mod 8)"
  proof (cases "p mod 2 = 0")
    case True
    have "i div 8 < 2" "i mod 8 < 8" using assms(3) by (simp_all add: less_mult_imp_div_less)
    with True have "?n < 16" by simp
    then show ?thesis using n True by (simp add: bit_unsigned_iff get16_bit)
  next
    case False
    then show ?thesis by (simp add: bit_unsigned_iff word_top)
  qed
  have "p = 0 \<or> p = 1 \<or> p = 2 \<or> p = 3 \<or> p = 4 \<or> p = 5 \<or> p = 6 \<or> p = 7" using assms(2) by auto
  then show ?thesis using assms(1) word [of 0] word [of 1] word [of 2] word [of 3] one
    by (elim disjE) (auto simp: read_planes_def)
qed

lemma chunky_eq:
  "bitplaneToChunky m bpp s =
     (let ws = read_planes (if s \<noteq> 0 then scroll_planes m bpp s else m) bpp
      in chunky_words (ws ! 0) (ws ! 1) (ws ! 2) (ws ! 3))"
  by (simp add: bitplaneToChunky_def read_planes_def Let_def)

lemma length_chunky [simp]: "length (bitplaneToChunky m bpp s) = 16"
  by (simp add: chunky_eq chunky_words_eq Let_def)

lemma length_read_planes: "length (read_planes m bpp) = 4"
  by (simp add: read_planes_def)

lemma nth4: "length xs = 4 \<Longrightarrow> k < 4 \<Longrightarrow> [xs ! 0, xs ! 1, xs ! 2, xs ! 3] ! k = xs ! k"
  by (auto simp: numeral_eq_Suc less_Suc_eq)

text \<open>
  C35. The logarithmic bit shuffle of \<open>bitplaneToChunky\<close> is the definition of the Atari screen format:
  for 1, 2, 4 and 8 planes and every horizontal scroll of 0 to 15 pixels, byte \<open>i\<close> of the result is
  the colour number of pixel \<open>i + horiz_shift\<close>, gathered plane by plane.
\<close>

theorem bitplane_to_chunky:
  assumes "bpp \<in> {1, 2, 4, 8}" "horiz_shift < 16"
  shows "bitplaneToChunky m bpp horiz_shift = map (\<lambda>i. pixel m bpp (i + horiz_shift)) [0..<16]"
proof (rule nth_equalityI)
  fix i assume "i < length (bitplaneToChunky m bpp horiz_shift)"
  then have i: "i < 16" by simp
  let ?src = "if horiz_shift \<noteq> 0 then scroll_planes m bpp horiz_shift else m"
  have "bit (bitplaneToChunky m bpp horiz_shift ! i) p \<longleftrightarrow> bit (pixel m bpp (i + horiz_shift)) p" if p: "p < 8" for p
  proof -
    have "p div 2 < 4" using p by simp
    then have "bit (bitplaneToChunky m bpp horiz_shift ! i) p \<longleftrightarrow> p < bpp \<and> bit (?src (2 * p + i div 8)) (7 - i mod 8)"
      using chunky_bits [OF i p] read_planes_bit [OF assms(1) p i, of ?src] nth4 [OF length_read_planes]
      by (simp add: chunky_eq Let_def)
    also have "\<dots> \<longleftrightarrow> p < bpp \<and> plane_bit m bpp p (i + horiz_shift)"
      using scroll_planes_bit [OF _ i assms(2)] plane_bit_unscrolled [OF i] by (cases "horiz_shift = 0") auto
    also have "\<dots> \<longleftrightarrow> bit (pixel m bpp (i + horiz_shift)) p"
      using assms(1) p by (auto simp: pixel_bit)
    finally show ?thesis .
  qed
  then show "bitplaneToChunky m bpp horiz_shift ! i = map (\<lambda>i. pixel m bpp (i + horiz_shift)) [0..<16] ! i"
    using i by (auto intro!: bit_eqI simp: byte_top dest: bit_imp_le_length)
qed simp

definition screen_example :: "nat \<Rightarrow> u8" where
  "screen_example a = of_nat (a * 37)"

theorem bitplane_to_chunky_witness:
  "(4::nat) \<in> {1, 2, 4, 8} \<and> (3::nat) < 16 \<and>
   bitplaneToChunky screen_example 4 3 = map (\<lambda>i. pixel screen_example 4 (i + 3)) [0..<16]"
  using bitplane_to_chunky [of 4 3 screen_example] by simp

end
