(* ===== verification/Rtc.thy ===== *)
theory Rtc
  imports Dsp_Prelude
begin

text \<open>
  The real time clock and its NVRAM (\<open>src/src/rtc.cpp\<close>). The broken-down time of the host (the result of
  \<open>localtime\<close> or \<open>gmtime\<close> for the current time, so with fields that are not negative) and the options of
  \<open>patch\<close> are arguments, a file is its content. The members of the class, the array \<open>nvram\<close> and the
  static flag of \<open>getData\<close> make up the state.
\<close>

section \<open>Model\<close>

record tm =
  tm_sec :: nat
  tm_min :: nat
  tm_hour :: nat
  tm_mday :: nat
  tm_mon :: nat
  tm_year :: nat

record rtc_options =
  monitor :: int
  boot_color_depth :: int
  cookie_akp :: int

record RTC =
  nvram :: "u8 list"
  rtc_index :: u8
  rtc_uip :: bool

abbreviation (input) CKS_RANGE_START :: nat where "CKS_RANGE_START \<equiv> 14"
abbreviation (input) CKS_RANGE_END :: nat where "CKS_RANGE_END \<equiv> 61"
abbreviation (input) CKS_RANGE_LEN :: nat where "CKS_RANGE_LEN \<equiv> 48"
abbreviation (input) CKS_LOC :: nat where "CKS_LOC \<equiv> 62"
abbreviation (input) NVRAM_SYSTEM_LANGUAGE :: nat where "NVRAM_SYSTEM_LANGUAGE \<equiv> 20"
abbreviation (input) NVRAM_KEYBOARD_LAYOUT :: nat where "NVRAM_KEYBOARD_LAYOUT \<equiv> 21"

definition default_nvram :: "u8 list" where
  "default_nvram =
     [48, 255, 21, 255, 23, 255, 1, 25, 3, 33, 42, 14, 112, 128,
      0, 0, 0, 0, 0, 0, 0, 0, 17, 46, 32, 1, 255, 0, 0, 56, 135, 0, 0, 0, 0, 0, 0, 0,
      0, 0, 0, 0, 0, 0, 0, 0, 0, 0, 0, 0, 0, 0, 0, 0, 0, 0, 0, 0, 0, 0, 0, 0, 224, 31]"

definition setChecksum :: "RTC \<Rightarrow> RTC" where
  "setChecksum r =
     (let checksum = fold (\<lambda>i acc. acc + nvram r ! i) [CKS_RANGE_START..<CKS_RANGE_END + 1] 0;
          r = r\<lparr>nvram := (nvram r)[CKS_LOC := NOT checksum]\<rparr>
      in r\<lparr>nvram := (nvram r)[CKS_LOC + 1 := checksum]\<rparr>)"

definition boot_res :: "int \<Rightarrow> u8 \<Rightarrow> u8" where
  "boot_res depth res =
     (if depth = 1 then 0 else if depth = 2 then 1 else if depth = 4 then 2
      else if depth = 8 then 3 else if depth = 16 then 4 else res)"

definition patch_options :: "rtc_options \<Rightarrow> RTC \<Rightarrow> RTC" where
  "patch_options bx r =
     (let r = (if monitor bx \<noteq> - 1 then
                 (if monitor bx = 0 then r\<lparr>nvram := (nvram r)[29 := nvram r ! 29 OR 0x10]\<rparr>
                  else r\<lparr>nvram := (nvram r)[29 := nvram r ! 29 AND NOT 0x10]\<rparr>)
               else r);
          r = (if boot_color_depth bx \<noteq> - 1 then
                 (let res = boot_res (boot_color_depth bx) (nvram r ! 29 AND 0x07);
                      r = r\<lparr>nvram := (nvram r)[29 := nvram r ! 29 AND NOT 0x07]\<rparr>
                  in r\<lparr>nvram := (nvram r)[29 := nvram r ! 29 OR res]\<rparr>)
               else r);
          r = (if cookie_akp bx \<noteq> - 1 then
                 (let r = r\<lparr>nvram := (nvram r)[NVRAM_SYSTEM_LANGUAGE := of_int (cookie_akp bx)]\<rparr>
                  in r\<lparr>nvram := (nvram r)[NVRAM_KEYBOARD_LAYOUT := of_int (drop_bit 8 (cookie_akp bx))]\<rparr>)
               else r)
      in r)"

definition patch :: "rtc_options \<Rightarrow> RTC \<Rightarrow> RTC" where
  "patch bx r = setChecksum (patch_options bx r)"

definition rtc_reset :: "rtc_options \<Rightarrow> RTC \<Rightarrow> RTC" where
  "rtc_reset bx r = (patch bx r)\<lparr>rtc_index := 0\<rparr>"

text \<open>\<open>None\<close> is a file that cannot be opened; a short read leaves the NVRAM alone.\<close>

definition load :: "u8 list option \<Rightarrow> RTC \<Rightarrow> bool \<times> RTC" where
  "load f r =
     (case f of
        None \<Rightarrow> (False, r)
      | Some content \<Rightarrow>
          (let fnvram = take CKS_RANGE_LEN content
           in if length fnvram = CKS_RANGE_LEN
              then (True, r\<lparr>nvram := take CKS_RANGE_START (nvram r) @ fnvram @ drop (CKS_RANGE_START + CKS_RANGE_LEN) (nvram r)\<rparr>)
              else (False, r)))"

definition save :: "RTC \<Rightarrow> u8 list" where
  "save r = take CKS_RANGE_LEN (drop CKS_RANGE_START (nvram r))"

definition rtc_create :: "u8 list option \<Rightarrow> rtc_options \<Rightarrow> RTC" where
  "rtc_create f bx =
     rtc_reset bx (snd (load f \<lparr>nvram = default_nvram, rtc_index = 0, rtc_uip = True\<rparr>))"

definition setAddr :: "u8 \<Rightarrow> RTC \<Rightarrow> RTC" where
  "setAddr value r = (if unat value < length (nvram r) then r\<lparr>rtc_index := value\<rparr> else r)"

definition rtc_getData :: "tm \<Rightarrow> RTC \<Rightarrow> u8 \<times> RTC" where
  "rtc_getData curtim r =
     (let i = rtc_index r
      in if i = 0 \<or> i = 2 \<or> i = 4 \<or> (i \<ge> 7 \<and> i \<le> 9) then
           ((if i = 0 then of_nat (tm_sec curtim)
             else if i = 2 then of_nat (tm_min curtim)
             else if i = 4 then of_nat (tm_hour curtim)
             else if i = 7 then of_nat (tm_mday curtim)
             else if i = 8 then of_nat (tm_mon curtim + 1)
             else of_nat (tm_year curtim) - 68), r)
         else if i = 10 then
           ((if rtc_uip r then 0x80 else 0), r\<lparr>rtc_uip := \<not> rtc_uip r\<rparr>)
         else (nvram r ! unat i, r))"

definition rtc_setData :: "u8 \<Rightarrow> RTC \<Rightarrow> RTC" where
  "rtc_setData value r = r\<lparr>nvram := (nvram r)[unat (rtc_index r) := value]\<rparr>"

definition getNvramKeyboard :: "RTC \<Rightarrow> u8" where
  "getNvramKeyboard r = nvram r ! NVRAM_KEYBOARD_LAYOUT"

abbreviation (input) RTC_offset :: u32 where "RTC_offset \<equiv> 0xff8960"
abbreviation (input) RTC_size :: u32 where "RTC_size \<equiv> 4"

definition rtc_handleRead :: "tm \<Rightarrow> u32 \<Rightarrow> RTC \<Rightarrow> u8 \<times> RTC" where
  "rtc_handleRead curtim addr r =
     (let addr = addr - RTC_offset
      in if addr > RTC_size then (0, r)
         else if addr = 1 then (rtc_index r, r)
         else if addr = 3 then rtc_getData curtim r
         else (0, r))"

definition rtc_handleWrite :: "u32 \<Rightarrow> u8 \<Rightarrow> RTC \<Rightarrow> RTC" where
  "rtc_handleWrite addr value r =
     (let addr = addr - RTC_offset
      in if addr > RTC_size then r
         else if addr = 1 then setAddr value r
         else if addr = 3 then rtc_setData value r
         else r)"

section \<open>Invariant\<close>

text \<open>The array has its 64 entries and the index register stays inside it, so that no access is out of bounds.\<close>

definition rtc_inv :: "RTC \<Rightarrow> bool" where
  "rtc_inv r \<longleftrightarrow> length (nvram r) = 64 \<and> unat (rtc_index r) < 64"

definition checksum_ok :: "RTC \<Rightarrow> bool" where
  "checksum_ok r \<longleftrightarrow>
     nvram r ! 63 = sum_list (save r) \<and> nvram r ! 62 = NOT (nvram r ! 63)"

inductive rtc_reach :: "RTC \<Rightarrow> bool" where
  rtc_start: "rtc_reach (rtc_create f bx)"
| rtc_restart: "rtc_reach r \<Longrightarrow> rtc_reach (rtc_reset bx r)"
| rtc_read: "rtc_reach r \<Longrightarrow> rtc_reach (snd (rtc_handleRead t a r))"
| rtc_write: "rtc_reach r \<Longrightarrow> rtc_reach (rtc_handleWrite a v r)"

lemma inv_setChecksum: "rtc_inv r \<Longrightarrow> rtc_inv (setChecksum r)"
  by (simp add: rtc_inv_def setChecksum_def Let_def)

lemma inv_patch_options: "rtc_inv r \<Longrightarrow> rtc_inv (patch_options bx r)"
  by (simp add: rtc_inv_def patch_options_def Let_def)

lemma inv_patch: "rtc_inv r \<Longrightarrow> rtc_inv (patch bx r)"
  unfolding patch_def by (intro inv_setChecksum inv_patch_options)

lemma inv_load: "rtc_inv r \<Longrightarrow> rtc_inv (snd (load f r))"
  by (auto simp: rtc_inv_def load_def Let_def split: option.splits)

lemma inv_rtc_reset: "rtc_inv r \<Longrightarrow> rtc_inv (rtc_reset bx r)"
  using inv_patch [of r bx] by (simp add: rtc_inv_def rtc_reset_def)

lemma inv_rtc_create: "rtc_inv (rtc_create f bx)"
  unfolding rtc_create_def by (intro inv_rtc_reset inv_load) (simp add: rtc_inv_def default_nvram_def)

lemma inv_rtc_handleRead: "rtc_inv r \<Longrightarrow> rtc_inv (snd (rtc_handleRead t a r))"
  by (simp add: rtc_inv_def rtc_handleRead_def rtc_getData_def Let_def)

lemma inv_rtc_handleWrite: "rtc_inv r \<Longrightarrow> rtc_inv (rtc_handleWrite a v r)"
  by (simp add: rtc_inv_def rtc_handleWrite_def setAddr_def rtc_setData_def Let_def)

lemma rtc_reach_inv: "rtc_reach r \<Longrightarrow> rtc_inv r"
  by (induction rule: rtc_reach.induct)
    (simp_all add: inv_rtc_create inv_rtc_reset inv_rtc_handleRead inv_rtc_handleWrite)

section \<open>Checksum and persistence\<close>

lemma fold_nth_sum: "fold (\<lambda>i acc. acc + xs ! i) is (c::u8) = c + sum_list (map ((!) xs) is)"
  by (induction "is" arbitrary: c) (simp_all add: add.assoc)

lemma fold_range_sum: "b \<le> length xs \<Longrightarrow> fold (\<lambda>i acc. acc + xs ! i) [a..<b] (0::u8) = sum_list (take (b - a) (drop a xs))"
proof -
  assume "b \<le> length xs"
  then have "map ((!) xs) [a..<b] = take (b - a) (drop a xs)" by (intro nth_equalityI) auto
  then show ?thesis by (simp add: fold_nth_sum)
qed

lemma setChecksum_eq:
  assumes "length (nvram r) = 64"
  shows "setChecksum r = r\<lparr>nvram := (nvram r)[62 := NOT (sum_list (save r)), 63 := sum_list (save r)]\<rparr>"
proof -
  have "fold (\<lambda>i acc. acc + nvram r ! i) [CKS_RANGE_START..<CKS_RANGE_END + 1] 0 = sum_list (save r)"
    unfolding save_def by (subst fold_range_sum) (simp_all add: assms)
  then show ?thesis unfolding setChecksum_def Let_def by simp
qed

lemma slice_update: "k < a \<or> a + n \<le> k \<Longrightarrow> take n (drop a (xs[k := v])) = take n (drop a xs)"
  by (intro nth_equalityI) (auto simp: nth_list_update)

lemma save_setChecksum: "length (nvram r) = 64 \<Longrightarrow> save (setChecksum r) = save r"
  by (simp add: setChecksum_eq) (simp add: save_def slice_update)

lemma checksum_setChecksum: "length (nvram r) = 64 \<Longrightarrow> checksum_ok (setChecksum r)"
  unfolding checksum_ok_def by (simp add: save_setChecksum) (simp add: setChecksum_eq)

lemma checksum_reset: "rtc_inv r \<Longrightarrow> checksum_ok (rtc_reset bx r)"
  using checksum_setChecksum [of "patch_options bx r"] inv_patch_options [of r bx]
  by (simp add: rtc_reset_def patch_def checksum_ok_def save_def rtc_inv_def)

lemma save_load:
  assumes "length (nvram q) = 64" "length (nvram r) = 64"
  shows "load (Some (save r)) q = (True, q\<lparr>nvram := take 14 (nvram q) @ save r @ drop 62 (nvram q)\<rparr>)"
  using assms by (simp add: load_def save_def Let_def)

definition no_options :: rtc_options where
  "no_options = \<lparr>monitor = - 1, boot_color_depth = - 1, cookie_akp = - 1\<rparr>"

lemma save_create:
  assumes "length (nvram r) = 64"
  shows "save (rtc_create (Some (save r)) no_options) = save r"
proof -
  let ?q = "\<lparr>nvram = default_nvram, rtc_index = 0, rtc_uip = True\<rparr>"
  have len: "length default_nvram = 64" by (simp add: default_nvram_def)
  let ?l = "?q\<lparr>nvram := take 14 default_nvram @ save r @ drop 62 default_nvram\<rparr>"
  have s: "length (save r) = 48" using assms by (simp add: save_def)
  have "rtc_create (Some (save r)) no_options = (setChecksum ?l)\<lparr>rtc_index := 0\<rparr>"
    unfolding rtc_create_def save_load [of ?q, simplified, OF len assms] rtc_reset_def patch_def
    by (simp add: patch_options_def no_options_def)
  moreover have "save ((setChecksum ?l)\<lparr>rtc_index := 0\<rparr>) = save (setChecksum ?l)"
    by (simp add: save_def)
  moreover have "save (setChecksum ?l) = save ?l"
    by (rule save_setChecksum) (simp add: len s)
  moreover have "save ?l = save r"
    unfolding save_def [of ?l] using s len by simp
  ultimately show ?thesis by simp
qed

section \<open>The property\<close>

text \<open>
  C36. The NVRAM keeps what the guest stores. In every state the emulator reaches, the index register is
  inside the 64 bytes, so no access is out of bounds; a byte written through the index and data registers at
  an index that is not a clock register is read back, and no other byte changes; the checksum is valid after
  every reset; and a later start with the saved file and no overriding options has the same 48 bytes.
\<close>

theorem nvram_persistent:
  assumes "rtc_reach r"
  shows "length (nvram r) = 64 \<and> unat (rtc_index r) < 64 \<and>
    checksum_ok (rtc_reset bx r) \<and>
    save (rtc_create (Some (save r)) no_options) = save r \<and>
    checksum_ok (rtc_create (Some (save r)) no_options) \<and>
    (i < 64 \<longrightarrow> i \<notin> {0, 2, 4, 7, 8, 9, 10} \<longrightarrow>
      (let w = rtc_handleWrite 0xff8963 v (rtc_handleWrite 0xff8961 i r)
       in rtc_handleRead t 0xff8963 w = (v, w) \<and> nvram w = (nvram r)[unat i := v]))"
proof -
  have inv: "rtc_inv r" using assms by (rule rtc_reach_inv)
  have rw: "rtc_handleRead t 0xff8963 w = (v, w) \<and> nvram w = (nvram r)[unat i := v]"
    if i: "i < 64" "i \<notin> {0, 2, 4, 7, 8, 9, 10}"
      and w: "w = rtc_handleWrite 0xff8963 v (rtc_handleWrite 0xff8961 i r)" for w
  proof -
    have u: "unat i < 64" using i(1) by (simp add: word_less_nat_alt)
    have "w = r\<lparr>rtc_index := i, nvram := (nvram r)[unat i := v]\<rparr>"
      using inv u unfolding w by (simp add: rtc_handleWrite_def setAddr_def rtc_setData_def rtc_inv_def)
    moreover have "\<not> (7 \<le> i \<and> i \<le> 9)"
    proof
      assume "7 \<le> i \<and> i \<le> 9"
      then have "unat i = 7 \<or> unat i = 8 \<or> unat i = 9" by (auto simp: word_le_nat_alt)
      then have "i = 7 \<or> i = 8 \<or> i = 9" by (auto simp: word_unat_eq_iff)
      then show False using i(2) by simp
    qed
    ultimately show ?thesis using i(2) u inv
      by (auto simp: rtc_handleRead_def rtc_getData_def rtc_inv_def)
  qed
  have "checksum_ok (rtc_create (Some (save r)) no_options)"
    unfolding rtc_create_def by (intro checksum_reset inv_load) (simp add: rtc_inv_def default_nvram_def)
  with inv rw save_create checksum_reset show ?thesis unfolding rtc_inv_def Let_def by blast
qed

theorem nvram_persistent_witness:
  "rtc_reach (rtc_create None no_options) \<and> (20::u8) < 64 \<and> (20::u8) \<notin> {0, 2, 4, 7, 8, 9, 10} \<and>
   nvram (rtc_handleWrite 0xff8963 5 (rtc_handleWrite 0xff8961 20 (rtc_create None no_options))) ! 20 = 5"
proof -
  let ?r = "rtc_create None no_options"
  have r: "rtc_reach ?r" by (rule rtc_start)
  have "nvram (rtc_handleWrite 0xff8963 5 (rtc_handleWrite 0xff8961 20 ?r)) = (nvram ?r)[20 := 5]"
    and "length (nvram ?r) = 64"
    using nvram_persistent [OF r, of no_options 20 5 \<open>\<lparr>tm_sec = 0, tm_min = 0, tm_hour = 0, tm_mday = 1, tm_mon = 0, tm_year = 100\<rparr>\<close>] by (simp_all add: Let_def)
  with r show ?thesis by simp
qed

end
