(* ===== verification/Ikbd.thy ===== *)
theory Ikbd
  imports Mfp Rtc
begin

text \<open>
  The keyboard processor behind its ACIA (\<open>src/src/acia.cpp\<close>, \<open>src/src/ikbd.cpp\<close>): the queue of bytes to the
  guest, the command interpreter, and the packets for keys, mouse and joysticks. The MFP, which the code
  reaches through \<open>getMFP()\<close>, is the field \<open>getMFP\<close> of the state. The buffers are allocated once with 8192 and 16
  bytes and are never NULL. The current time is an argument of \<open>WriteData\<close>. In \<open>SendJoystickHat\<close> the four
  tests of \<open>value\<close> against the constants of SDL are the arguments. Coordinates are C ints, taken as
  mathematical integers: the code relies on no wrap-around of them.
\<close>

section \<open>ACIA\<close>

record ACIA =
  acia_sr :: u8
  acia_cr :: u8
  rxdr :: u8
  txdr :: u8

abbreviation (input) ACIA_SR_RXFULL :: nat where "ACIA_SR_RXFULL \<equiv> 0"
abbreviation (input) ACIA_SR_TXEMPTY :: nat where "ACIA_SR_TXEMPTY \<equiv> 1"
abbreviation (input) ACIA_SR_INTERRUPT :: nat where "ACIA_SR_INTERRUPT \<equiv> 7"
abbreviation (input) ACIA_CR_REC_INTER :: nat where "ACIA_CR_REC_INTER \<equiv> 7"

definition acia_reset :: "'z ACIA_scheme \<Rightarrow> 'z ACIA_scheme" where
  "acia_reset s = s\<lparr>acia_cr := 0, rxdr := 0, txdr := 0, acia_sr := push_bit ACIA_SR_TXEMPTY 1\<rparr>"

section \<open>State of the keyboard processor\<close>

datatype ikbd_packet_t = IKBD_PACKET_UNKNOWN | IKBD_PACKET_KEYBOARD | IKBD_PACKET_MOUSE | IKBD_PACKET_JOYSTICK

record IKBD = ACIA +
  mouse_enabled :: bool
  mouserel_enabled :: bool
  mousex :: int
  mousey :: int
  mouseb :: int
  yaxis_reversed :: bool
  joy_enabled :: "nat \<Rightarrow> bool"
  joy_state :: "nat \<Rightarrow> u8"
  outbuffer :: "u8 list"
  outwrite :: nat
  inbuffer :: "u8 list"
  inwrite :: nat
  inread :: nat
  intype :: ikbd_packet_t
  getMFP :: MFP

abbreviation (input) inbufferlen :: nat where "inbufferlen \<equiv> 8192"
abbreviation (input) outbufferlen :: nat where "outbufferlen \<equiv> 16"

definition ikbd_reset :: "IKBD \<Rightarrow> IKBD" where
  "ikbd_reset s =
     s\<lparr>inread := 0, inwrite := 0, outwrite := 0, intype := IKBD_PACKET_UNKNOWN,
       mouse_enabled := True, mouserel_enabled := True, yaxis_reversed := False,
       mousex := 0, mousey := 0, mouseb := 0,
       joy_enabled := (joy_enabled s)(0 := False, 1 := True),
       joy_state := (joy_state s)(0 := 0, 1 := 0)\<rparr>"

section \<open>The queue to the guest\<close>

definition ThrowInterrupt :: "IKBD \<Rightarrow> IKBD" where
  "ThrowInterrupt s =
     (let (ier, m) = mfp_handleRead 0 0xfffa09 (getMFP s);
          s = s\<lparr>getMFP := m\<rparr>
      in if ier AND 0x40 = 0 then s
         else if acia_cr s AND push_bit ACIA_CR_REC_INTER 1 = 0 then s
         else
           (let s = s\<lparr>acia_sr := acia_sr s OR push_bit ACIA_SR_INTERRUPT 1\<rparr>;
                s = s\<lparr>getMFP := setGPIPbit 0x10 0x10 (getMFP s)\<rparr>
            in s\<lparr>getMFP := setGPIPbit 0x10 0 (getMFP s)\<rparr>))"

definition packet_len :: "u8 \<Rightarrow> nat" where
  "packet_len header =
     (if header = 0xf6 then 8
      else if header = 0xf7 then 6
      else if header = 0xf8 \<or> header = 0xf9 \<or> header = 0xfa \<or> header = 0xfb then 3
      else if header = 0xfc then 7
      else if header = 0xfe \<or> header = 0xff then 2
      else 1)"

definition send :: "u8 \<Rightarrow> IKBD \<Rightarrow> IKBD" where
  "send value s =
     (let s = s\<lparr>inbuffer := (inbuffer s)[inwrite s := value], inwrite := inwrite s + 1\<rparr>;
          s = s\<lparr>inwrite := inwrite s AND (inbufferlen - 1)\<rparr>;
          s = (if inread s = inwrite s then
                 (let s = s\<lparr>inread := inread s + packet_len (inbuffer s ! inread s)\<rparr>
                  in s\<lparr>inread := inread s AND (inbufferlen - 1)\<rparr>)
               else s);
          s = s\<lparr>acia_sr := acia_sr s OR push_bit ACIA_SR_RXFULL 1\<rparr>
      in ThrowInterrupt s)"

definition ReadData :: "IKBD \<Rightarrow> u8 \<times> IKBD" where
  "ReadData s =
     (let s = (if inread s \<noteq> inwrite s then
                 (let s = s\<lparr>rxdr := inbuffer s ! inread s, inread := inread s + 1\<rparr>;
                      s = s\<lparr>inread := inread s AND (inbufferlen - 1)\<rparr>
                  in if inread s = inwrite s then
                       (let s = s\<lparr>getMFP := setGPIPbit 0x10 0x10 (getMFP s)\<rparr>
                        in s\<lparr>acia_sr := acia_sr s AND NOT (push_bit ACIA_SR_INTERRUPT 1 OR push_bit ACIA_SR_RXFULL 1)\<rparr>)
                     else
                       (let s = s\<lparr>acia_sr := acia_sr s OR push_bit ACIA_SR_RXFULL 1\<rparr>
                        in ThrowInterrupt s))
               else s)
      in (rxdr s, s))"

section \<open>Commands of the guest\<close>

definition int2bcd :: "nat \<Rightarrow> u8" where
  "int2bcd a = of_nat (a mod 10 + push_bit 4 (a div 10))"

definition send_time :: "tm \<Rightarrow> IKBD \<Rightarrow> IKBD" where
  "send_time curtim s =
     (let s = send 0xfc s;
          s = send (int2bcd (tm_year curtim mod 100)) s;
          s = send (int2bcd (tm_mon curtim + 1)) s;
          s = send (int2bcd (tm_mday curtim)) s;
          s = send (int2bcd (tm_hour curtim)) s;
          s = send (int2bcd (tm_min curtim)) s
      in send (int2bcd (tm_sec curtim)) s)"

definition command1 :: "tm \<Rightarrow> u8 \<Rightarrow> IKBD \<Rightarrow> IKBD" where
  "command1 curtim c s =
     (if c = 0x08 then s\<lparr>mouse_enabled := True, mouserel_enabled := True, joy_enabled := (joy_enabled s)(1 := True), outwrite := 0\<rparr>
      else if c = 0x0d then s\<lparr>outwrite := 0\<rparr>
      else if c = 0x0f then s\<lparr>yaxis_reversed := True, outwrite := 0\<rparr>
      else if c = 0x10 then s\<lparr>yaxis_reversed := False, outwrite := 0\<rparr>
      else if c = 0x11 then s\<lparr>outwrite := 0\<rparr>
      else if c = 0x12 then s\<lparr>mouse_enabled := False, outwrite := 0\<rparr>
      else if c = 0x13 then s\<lparr>outwrite := 0\<rparr>
      else if c = 0x14 then s\<lparr>outwrite := 0\<rparr>
      else if c = 0x15 then s\<lparr>outwrite := 0\<rparr>
      else if c = 0x16 then
        (let s = s\<lparr>intype := IKBD_PACKET_JOYSTICK\<rparr>;
             s = send (0xfe OR 1) s;
             s = send (joy_state s 1) s
         in s\<lparr>outwrite := 0\<rparr>)
      else if c = 0x18 then s\<lparr>outwrite := 0\<rparr>
      else if c = 0x1a then s\<lparr>joy_enabled := (joy_enabled s)(0 := False, 1 := False), outwrite := 0\<rparr>
      else if c = 0x1c then (send_time curtim s)\<lparr>outwrite := 0\<rparr>
      else s)"

definition command2 :: "u8 \<Rightarrow> IKBD \<Rightarrow> IKBD" where
  "command2 c s =
     (if c = 0x07 then s\<lparr>outwrite := 0\<rparr>
      else if c = 0x17 then s\<lparr>outwrite := 0\<rparr>
      else if c = 0x80 then
        (if outbuffer s ! 1 = 0x01 then send 0xf1 ((ikbd_reset s)\<lparr>outwrite := 0\<rparr>) else s)
      else s)"

definition command3 :: "u8 \<Rightarrow> IKBD \<Rightarrow> IKBD" where
  "command3 c s =
     (if c = 0x0a then s\<lparr>mouse_enabled := True, joy_enabled := (joy_enabled s)(1 := True), outwrite := 0\<rparr>
      else if c = 0x0b then s\<lparr>outwrite := 0\<rparr>
      else if c = 0x0c then s\<lparr>outwrite := 0\<rparr>
      else if c = 0x20 then s\<lparr>outwrite := 0\<rparr>
      else if c = 0x21 then s\<lparr>outwrite := 0\<rparr>
      else s)"

definition command_long :: "nat \<Rightarrow> u8 \<Rightarrow> IKBD \<Rightarrow> IKBD" where
  "command_long n c s =
     (if n = 4 then
        (if c = 0x09
         then s\<lparr>mouse_enabled := True, mouserel_enabled := False, joy_enabled := (joy_enabled s)(1 := True), outwrite := 0\<rparr>
         else s)
      else if n = 5 then (if c = 0x0e then s\<lparr>outwrite := 0\<rparr> else s)
      else if n = 6 then (if c = 0x19 then s\<lparr>outwrite := 0\<rparr> else if c = 0x1b then s\<lparr>outwrite := 0\<rparr> else s)
      else s\<lparr>outwrite := 0\<rparr>)"

definition WriteData :: "tm \<Rightarrow> u8 \<Rightarrow> IKBD \<Rightarrow> IKBD" where
  "WriteData curtim value s =
     (let s = s\<lparr>txdr := value, outbuffer := (outbuffer s)[outwrite s := value], outwrite := outwrite s + 1\<rparr>;
          c = outbuffer s ! 0
      in if outwrite s = 1 then command1 curtim c s
         else if outwrite s = 2 then command2 c s
         else if outwrite s = 3 then command3 c s
         else command_long (outwrite s) c s)"

definition WriteControl :: "u8 \<Rightarrow> IKBD \<Rightarrow> IKBD" where
  "WriteControl value s = s\<lparr>acia_cr := value\<rparr>"

abbreviation (input) IKBD_offset :: u32 where "IKBD_offset \<equiv> 0xfffc00"

definition acia_handleRead :: "u32 \<Rightarrow> IKBD \<Rightarrow> u8 \<times> IKBD" where
  "acia_handleRead addr s =
     (if addr - IKBD_offset = 0 then (acia_sr s, s)
      else if addr - IKBD_offset = 2 then ReadData s
      else (0, s))"

definition acia_handleWrite :: "tm \<Rightarrow> u32 \<Rightarrow> u8 \<Rightarrow> IKBD \<Rightarrow> IKBD" where
  "acia_handleWrite curtim addr value s =
     (if addr - IKBD_offset = 0 then
        (if value AND 0x03 = 0x03 then acia_reset s else WriteControl value s)
      else if addr - IKBD_offset = 2 then WriteData curtim value s
      else s)"

section \<open>Events of the host\<close>

definition SendKey :: "u8 \<Rightarrow> IKBD \<Rightarrow> IKBD" where
  "SendKey scancode s = send scancode (s\<lparr>intype := IKBD_PACKET_KEYBOARD\<rparr>)"

abbreviation (input) MOUSE_DELTA_MAX :: int where "MOUSE_DELTA_MAX \<equiv> 63"

definition mouse_header :: "int \<Rightarrow> u8" where
  "mouse_header buttons = 0xf8 OR of_int (buttons AND 3)"

definition MergeMousePacket :: "int \<Rightarrow> int \<Rightarrow> int \<Rightarrow> IKBD \<Rightarrow> int \<times> int \<times> IKBD" where
  "MergeMousePacket relx rely buttons s =
     (if intype s \<noteq> IKBD_PACKET_MOUSE then (relx, rely, s)
      else if inread s = inwrite s then (relx, rely, s)
      else
        (let mouse_inwrite = nat ((int (inwrite s) - 3) AND (int inbufferlen - 1));
             in1 = (mouse_inwrite + 1) AND (inbufferlen - 1);
             in2 = (mouse_inwrite + 2) AND (inbufferlen - 1)
         in if inread s = mouse_inwrite \<or> inread s = in1 \<or> inread s = in2 then (relx, rely, s)
            else if inbuffer s ! mouse_inwrite \<le> 0xf8 \<and> inbuffer s ! mouse_inwrite \<ge> 0xfb then (relx, rely, s)
            else if inbuffer s ! mouse_inwrite \<noteq> mouse_header buttons then (relx, rely, s)
            else
              (let distx = relx + uint (inbuffer s ! in1)
               in if \<bar>distx\<bar> > MOUSE_DELTA_MAX then (relx, rely, s)
                  else
                    (let disty = rely + uint (inbuffer s ! in2)
                     in if \<bar>disty\<bar> > MOUSE_DELTA_MAX then (relx, rely, s)
                        else (distx, disty, s\<lparr>inwrite := mouse_inwrite\<rparr>)))))"

definition mouse_step :: "bool \<Rightarrow> int \<Rightarrow> int" where
  "mouse_step slow rel =
     (if slow then (if rel > 0 then 1 else if rel < 0 then - 1 else 0)
      else if \<bar>rel\<bar> > MOUSE_DELTA_MAX then (if rel > 0 then MOUSE_DELTA_MAX else - MOUSE_DELTA_MAX)
      else rel)"

definition mouse_packet :: "int \<Rightarrow> int \<Rightarrow> int \<Rightarrow> bool \<Rightarrow> IKBD \<Rightarrow> IKBD" where
  "mouse_packet movex movey buttons slow s =
     (let (movex, movey, s) = (if \<not> slow then MergeMousePacket movex movey buttons s else (movex, movey, s));
          s = s\<lparr>intype := IKBD_PACKET_MOUSE\<rparr>;
          s = send (mouse_header buttons) s;
          s = send (of_int movex) s
      in send (of_int (if yaxis_reversed s then - movey else movey)) s)"

lemma mouse_step_less: "rel - mouse_step slow rel \<noteq> 0 \<Longrightarrow> \<bar>rel - mouse_step slow rel\<bar> < \<bar>rel\<bar>"
  by (auto simp: mouse_step_def split: if_splits)

lemma mouse_step_le: "\<bar>rel - mouse_step slow rel\<bar> \<le> \<bar>rel\<bar>"
  by (auto simp: mouse_step_def)

function mouse_loop :: "int \<Rightarrow> int \<Rightarrow> int \<Rightarrow> bool \<Rightarrow> IKBD \<Rightarrow> IKBD" where
  "mouse_loop relx rely buttons slow s =
     (let movex = mouse_step slow relx; movey = mouse_step slow rely;
          relx = relx - movex; rely = rely - movey;
          s = mouse_packet movex movey buttons slow s
      in if relx \<noteq> 0 \<or> rely \<noteq> 0 then mouse_loop relx rely buttons slow s else s)"
  by pat_completeness auto

termination mouse_loop
proof (relation "measure (\<lambda>(relx, rely, _). nat (\<bar>relx\<bar> + \<bar>rely\<bar>))")
  fix relx rely buttons :: int and slow :: bool and s :: IKBD and a b c d e
  assume e: "a = mouse_step slow relx" "b = mouse_step slow rely" "c = relx - a" "d = rely - b"
    and "c \<noteq> 0 \<or> d \<noteq> 0"
  then have "\<bar>c\<bar> + \<bar>d\<bar> < \<bar>relx\<bar> + \<bar>rely\<bar>"
    using mouse_step_less [of relx slow] mouse_step_less [of rely slow] mouse_step_le [of relx slow] mouse_step_le [of rely slow]
    by auto
  then show "((c, d, buttons, slow, e), relx, rely, buttons, slow, s) \<in> measure (\<lambda>(relx, rely, _). nat (\<bar>relx\<bar> + \<bar>rely\<bar>))"
    by simp
qed simp

declare mouse_loop.simps [simp del]

definition SendMouseMotion :: "int \<Rightarrow> int \<Rightarrow> int \<Rightarrow> bool \<Rightarrow> IKBD \<Rightarrow> IKBD" where
  "SendMouseMotion relx rely buttons slow s =
     (if \<not> mouse_enabled s then s
      else if \<not> slow \<and> (\<bar>relx\<bar> > 2048 \<or> \<bar>rely\<bar> > 2048) then s
      else mouse_loop relx rely buttons slow s)"

abbreviation (input) IKBD_JOY_UP :: nat where "IKBD_JOY_UP \<equiv> 0"
abbreviation (input) IKBD_JOY_DOWN :: nat where "IKBD_JOY_DOWN \<equiv> 1"
abbreviation (input) IKBD_JOY_LEFT :: nat where "IKBD_JOY_LEFT \<equiv> 2"
abbreviation (input) IKBD_JOY_RIGHT :: nat where "IKBD_JOY_RIGHT \<equiv> 3"
abbreviation (input) IKBD_JOY_FIRE :: nat where "IKBD_JOY_FIRE \<equiv> 7"
abbreviation (input) JOYSTICK_THRESHOLD :: int where "JOYSTICK_THRESHOLD \<equiv> 16384"

definition joy_update :: "nat \<Rightarrow> u8 \<Rightarrow> IKBD \<Rightarrow> IKBD" where
  "joy_update numjoy newjoy_state s =
     (if joy_state s numjoy \<noteq> newjoy_state then
        (let s = s\<lparr>joy_state := (joy_state s)(numjoy := newjoy_state), intype := IKBD_PACKET_JOYSTICK\<rparr>;
             s = send (0xfe OR of_nat numjoy) s
         in send (joy_state s numjoy) s)
      else s)"

definition axis_bits :: "nat \<Rightarrow> nat \<Rightarrow> int \<Rightarrow> u8 \<Rightarrow> u8" where
  "axis_bits lo hi value st =
     (let st = st AND NOT (push_bit lo 1 OR push_bit hi 1);
          st = (if value < - JOYSTICK_THRESHOLD then st OR push_bit lo 1 else st)
      in if value > JOYSTICK_THRESHOLD then st OR push_bit hi 1 else st)"

definition SendJoystickAxis :: "nat \<Rightarrow> nat \<Rightarrow> int \<Rightarrow> IKBD \<Rightarrow> IKBD" where
  "SendJoystickAxis numjoy numaxis value s =
     (if \<not> joy_enabled s numjoy then s
      else
        joy_update numjoy
          (if numaxis = 0 then axis_bits IKBD_JOY_LEFT IKBD_JOY_RIGHT value (joy_state s numjoy)
           else if numaxis = 1 then axis_bits IKBD_JOY_UP IKBD_JOY_DOWN value (joy_state s numjoy)
           else joy_state s numjoy) s)"

definition SendJoystickHat :: "nat \<Rightarrow> bool \<Rightarrow> bool \<Rightarrow> bool \<Rightarrow> bool \<Rightarrow> IKBD \<Rightarrow> IKBD" where
  "SendJoystickHat numjoy hat_left hat_right hat_up hat_down s =
     (if \<not> joy_enabled s numjoy then s
      else
        (let st = joy_state s numjoy AND push_bit IKBD_JOY_FIRE 1;
             st = (if hat_left then st OR push_bit IKBD_JOY_LEFT 1 else st);
             st = (if hat_right then st OR push_bit IKBD_JOY_RIGHT 1 else st);
             st = (if hat_up then st OR push_bit IKBD_JOY_UP 1 else st);
             st = (if hat_down then st OR push_bit IKBD_JOY_DOWN 1 else st)
         in joy_update numjoy st s))"

definition SendJoystickButton :: "nat \<Rightarrow> int \<Rightarrow> IKBD \<Rightarrow> IKBD" where
  "SendJoystickButton numjoy pressed s =
     (if \<not> joy_enabled s numjoy then s
      else
        (let st = joy_state s numjoy AND NOT (push_bit IKBD_JOY_FIRE 1);
             st = st OR push_bit IKBD_JOY_FIRE (of_int (pressed AND 1))
         in joy_update numjoy st s))"

text \<open>The constructors: the contents of new buffers are arbitrary.\<close>

definition ikbd_create :: "IKBD \<Rightarrow> IKBD" where
  "ikbd_create s = ikbd_reset (acia_reset s)"

end
