(* ===== verification/Spec2Isabelle.thy ===== *)
theory Spec2Isabelle
  imports Dsp_Tables Dsp_Channel Dsp_Invariant Mfp Adler32 Md5 Dirty_Rects Chunky Ikbd_Queue
begin

text \<open>
  Verification of the DSP56001 emulator of ARAnyM (\<open>src/src/dsp_cpu.c\<close>,
  \<open>src/src/dsp_core.c\<close>).

  \<^item> \<open>Dsp_Prelude\<close>: machine words, masks, shared lemmas.
  \<^item> \<open>Dsp_Arith56\<close>: the 56-bit accumulator arithmetic.
\<close>

end
